(* ===== verification/Prelude.thy ===== *)
theory Prelude
  imports Main "HOL-Library.Word" "HOL-Library.Char_ord" "HOL-Library.List_Lexorder"
begin

text \<open>
  What the components share: the names of the machine types, the part of the C and C++
  standard library that the sources use on strings (character classes, trimming idioms,
  \<open>substr\<close>, \<open>rfind\<close>, \<open>std::getline\<close>, \<open>std::istream_iterator\<close>, \<open>fgets\<close>, the
  \<open>%02X\<close> and decimal formats), and the lemmas about them. A string is a list of bytes
  (\<open>char\<close>), as in \<open>std::string\<close>; the C locale is assumed for \<open>isspace\<close> and
  \<open>toupper\<close>.
\<close>

unbundle bit_operations_syntax

type_synonym byte = "8 word"
type_synonym u32 = "32 word"
type_synonym u64 = "64 word"

named_theorems inv_intros "an operation succeeds and keeps the invariant of its component"

abbreviation NL :: char where "NL \<equiv> CHR 0x0A"
abbreviation SP :: char where "SP \<equiv> CHR 0x20"
abbreviation DQ :: char where "DQ \<equiv> CHR 0x22"

section \<open>64-bit counters\<close>

lemma unat_Suc: "(i :: u64) \<noteq> -1 \<Longrightarrow> unat (i + 1) = Suc (unat i)"
  by (metis add.commute unatSuc add_eq_0_iff)

lemma max_counter: "unat (k :: u64) < 2 ^ 64 - 1 \<Longrightarrow> k \<noteq> -1"
proof
  assume "unat k < 2 ^ 64 - 1" "k = -1"
  moreover have "unat (-1 :: u64) = 2 ^ 64 - 1" by (simp add: unsigned_minus_1_eq_mask mask_eq_exp_minus_1)
  ultimately show False by simp
qed

lemma u64_less_Suc: "(k :: u64) \<le> c \<Longrightarrow> c \<noteq> -1 \<Longrightarrow> k < c + 1"
  by (simp add: word_less_nat_alt word_le_nat_alt unat_Suc)

section \<open>Characters\<close>

definition isspace :: "char \<Rightarrow> bool" where
  "isspace c \<longleftrightarrow> c = CHR 0x20 \<or> c = CHR 0x09 \<or> c = CHR 0x0A \<or> c = CHR 0x0B
     \<or> c = CHR 0x0C \<or> c = CHR 0x0D"

definition toupper :: "char \<Rightarrow> char" where
  "toupper c = (if CHR ''a'' \<le> c \<and> c \<le> CHR ''z'' then char_of (of_char c - (32::nat)) else c)"

definition is_digit :: "char \<Rightarrow> bool" where
  "is_digit c \<longleftrightarrow> CHR ''0'' \<le> c \<and> c \<le> CHR ''9''"

definition is_alnum :: "char \<Rightarrow> bool" where
  "is_alnum c \<longleftrightarrow> (CHR ''a'' \<le> c \<and> c \<le> CHR ''z'') \<or> (CHR ''A'' \<le> c \<and> c \<le> CHR ''Z'')
     \<or> (CHR ''0'' \<le> c \<and> c \<le> CHR ''9'')"

lemmas char_defs = isspace_def toupper_def is_digit_def is_alnum_def less_eq_char_def less_char_def

lemma toupper_idem [simp]: "toupper (toupper c) = toupper c"
  by (auto simp: toupper_def less_eq_char_def)

lemma map_toupper_idem [simp]: "map toupper (map toupper s) = map toupper s"
  by simp

lemma is_alnum_toupper [simp]: "is_alnum (toupper c) = is_alnum c"
  by (auto simp: toupper_def is_alnum_def less_eq_char_def)

lemma alnum_not_space: "is_alnum c \<Longrightarrow> \<not> isspace c"
  by (auto simp: isspace_def is_alnum_def less_eq_char_def)

lemma digit_alnum: "is_digit c \<Longrightarrow> is_alnum c"
  by (auto simp: is_digit_def is_alnum_def)

lemma digit_not_space: "is_digit c \<Longrightarrow> \<not> isspace c"
  by (simp add: alnum_not_space digit_alnum)

lemma alnum_neq:
  assumes "is_alnum c"
  shows "c \<noteq> NL" "c \<noteq> CHR '',''" "c \<noteq> CHR ''=''" "c \<noteq> CHR ''_''" "c \<noteq> SP"
    "c \<noteq> CHR 0x00" "c \<noteq> CHR ''<''"
  using assms by (auto simp: is_alnum_def less_eq_char_def)

lemma isspace_literals [simp]:
  "isspace CHR 0x20" "isspace CHR 0x0A" "isspace CHR 0x0D"
  by (simp_all add: isspace_def)

text \<open>A literal character is a space or not by its code.\<close>

lemma isspace_lits:
  "isspace (Char b0 b1 b2 b3 b4 b5 b6 b7) \<longleftrightarrow>
     Char b0 b1 b2 b3 b4 b5 b6 b7 \<in> {CHR 0x20, CHR 0x09, CHR 0x0A, CHR 0x0B, CHR 0x0C, CHR 0x0D}"
  by (auto simp: isspace_def)

lemma isspace_code: "isspace c \<longleftrightarrow> of_char c \<in> {9, 10, 11, 12, 13, 32::nat}"
proof -
  have "c = d \<longleftrightarrow> of_char c = (of_char d :: nat)" for d by simp
  note this [of "CHR 0x20"] this [of "CHR 0x09"] this [of "CHR 0x0A"] this [of "CHR 0x0B"]
    this [of "CHR 0x0C"] this [of "CHR 0x0D"]
  then show ?thesis unfolding isspace_def by auto
qed

lemma toupper_code:
  "of_char (toupper c) = (if 97 \<le> (of_char c :: nat) \<and> (of_char c :: nat) \<le> 122 then of_char c - 32 else of_char c :: nat)"
  by (auto simp: toupper_def less_eq_char_def)

lemma isspace_toupper [simp]: "isspace (toupper c) = isspace c"
  unfolding isspace_code toupper_code by (auto split: if_splits)

section \<open>Trimming\<close>

text \<open>
  The idiom of \<^verbatim>\<open>content.erase(content.begin(), find_if(..., not isspace))\<close>
  followed by the same from the right.
\<close>

definition ltrim :: "string \<Rightarrow> string" where
  "ltrim s = dropWhile isspace s"

definition rtrim :: "string \<Rightarrow> string" where
  "rtrim s = rev (dropWhile isspace (rev s))"

definition trim :: "string \<Rightarrow> string" where
  "trim s = rtrim (ltrim s)"

definition trimmed :: "string \<Rightarrow> bool" where
  "trimmed s \<longleftrightarrow> s = [] \<or> (\<not> isspace (hd s) \<and> \<not> isspace (last s))"

lemma rtrim_last: "rtrim s = [] \<or> \<not> isspace (last (rtrim s))"
  unfolding rtrim_def using hd_dropWhile [of isspace "rev s"]
  by (cases "dropWhile isspace (rev s)") (auto simp: last_rev)

lemma rtrim_hd: "rtrim s = [] \<or> hd (rtrim s) = hd s"
proof -
  have "s = rtrim s @ rev (takeWhile isspace (rev s))"
    unfolding rtrim_def by (metis rev_append rev_rev_ident takeWhile_dropWhile_id)
  then show ?thesis by (metis hd_append2)
qed

lemma ltrim_hd: "ltrim s = [] \<or> \<not> isspace (hd (ltrim s))"
  unfolding ltrim_def using hd_dropWhile by blast

lemma trimmed_trim: "trimmed (trim s)"
proof (cases "trim s = []")
  case True
  then show ?thesis by (simp add: trimmed_def)
next
  case False
  then have "hd (trim s) = hd (ltrim s)" and "\<not> isspace (last (trim s))"
    using rtrim_hd rtrim_last unfolding trim_def by blast+
  moreover have "ltrim s \<noteq> []" using False by (auto simp: trim_def rtrim_def)
  ultimately show ?thesis using ltrim_hd [of s] by (simp add: trimmed_def)
qed

lemma trim_trimmed: "trimmed s \<Longrightarrow> trim s = s"
proof (cases "s = []")
  case True
  then show ?thesis by (simp add: trim_def ltrim_def rtrim_def)
next
  case False
  assume "trimmed s"
  then have h: "\<not> isspace (hd s)" and l: "\<not> isspace (last s)" using False by (auto simp: trimmed_def)
  have "ltrim s = s" using h False by (cases s) (auto simp: ltrim_def)
  moreover have "rtrim s = s"
    using l False by (cases s rule: rev_cases) (auto simp: rtrim_def)
  ultimately show ?thesis by (simp add: trim_def)
qed

lemma trimmed_no_space: "\<forall>c\<in>set s. \<not> isspace c \<Longrightarrow> trimmed s"
  by (auto simp: trimmed_def)

lemma trim_no_space [simp]: "\<forall>c\<in>set s. \<not> isspace c \<Longrightarrow> trim s = s"
  by (simp add: trim_trimmed trimmed_no_space)

lemma trimmed_map_toupper: "trimmed s \<Longrightarrow> trimmed (map toupper s)"
  by (auto simp: trimmed_def hd_map last_map)

section \<open>Substrings and searches\<close>

text \<open>\<open>size_t\<close> subtraction: it wraps below zero.\<close>

definition size_sub :: "nat \<Rightarrow> nat \<Rightarrow> nat" where
  "size_sub a b = (if b \<le> a then a - b else 2 ^ 64 + a - b)"

text \<open>\<open>s.substr(pos, n)\<close>; \<open>None\<close> is the \<open>std::out_of_range\<close> it throws past the end.\<close>

definition substr :: "string \<Rightarrow> nat \<Rightarrow> nat \<Rightarrow> string option" where
  "substr s pos n = (if pos \<le> length s then Some (take n (drop pos s)) else None)"

text \<open>\<open>s.substr(pos)\<close>.\<close>

definition substr_from :: "string \<Rightarrow> nat \<Rightarrow> string option" where
  "substr_from s pos = (if pos \<le> length s then Some (drop pos s) else None)"

text \<open>\<open>s.rfind(p, 0) == 0\<close>: the only candidate position is 0.\<close>

definition starts_with :: "string \<Rightarrow> string \<Rightarrow> bool" where
  "starts_with s p \<longleftrightarrow> take (length p) s = p"

text \<open>\<open>s.rfind(p)\<close>: the last occurrence, \<open>None\<close> for \<open>npos\<close>.\<close>

fun str_rfind :: "string \<Rightarrow> string \<Rightarrow> nat option" where
  "str_rfind [] p = (if p = [] then Some 0 else None)"
| "str_rfind (c # s) p =
     (case str_rfind s p of
        Some i \<Rightarrow> Some (Suc i)
      | None \<Rightarrow> (if starts_with (c # s) p then Some 0 else None))"

text \<open>\<open>s.find(p) != npos\<close>.\<close>

fun str_contains :: "string \<Rightarrow> string \<Rightarrow> bool" where
  "str_contains [] p = (p = [])"
| "str_contains (c # s) p = (starts_with (c # s) p \<or> str_contains s p)"

lemma starts_with_append: "starts_with s p \<Longrightarrow> s = p @ drop (length p) s"
  unfolding starts_with_def by (metis append_take_drop_id)

lemma starts_with_self [simp]: "starts_with (p @ s) p"
  by (simp add: starts_with_def)

lemma starts_with_length: "starts_with s p \<Longrightarrow> length p \<le> length s"
  unfolding starts_with_def by (metis length_take min.cobounded1)

lemma size_sub_ge [simp]: "b \<le> a \<Longrightarrow> size_sub a b = a - b"
  by (simp add: size_sub_def)

section \<open>Splitting\<close>

text \<open>
  The successive results of \<open>std::getline(stream, item, d)\<close>: a final delimiter does not
  start another item, and an empty stream gives none.
\<close>

function getlines :: "char \<Rightarrow> string \<Rightarrow> string list" where
  "getlines d [] = []"
| "getlines d (c # s) =
     takeWhile (\<lambda>x. x \<noteq> d) (c # s) # getlines d (drop 1 (dropWhile (\<lambda>x. x \<noteq> d) (c # s)))"
  by pat_completeness auto
termination
proof (relation "measure (\<lambda>(d, s). length s)", goal_cases)
  case (2 d c s)
  have "length (dropWhile (\<lambda>x. x \<noteq> d) s) \<le> length s" by (rule length_dropWhile_le)
  then show ?case by auto
qed simp

text \<open>
  \<open>std::istream_iterator<std::string>\<close>: the maximal runs of non-space characters.
\<close>

function tokens :: "string \<Rightarrow> string list" where
  "tokens s =
     (case dropWhile isspace s of
        [] \<Rightarrow> []
      | c # r \<Rightarrow> takeWhile (\<lambda>x. \<not> isspace x) (c # r) # tokens (dropWhile (\<lambda>x. \<not> isspace x) (c # r)))"
  by pat_completeness auto
termination
proof (relation "measure length", goal_cases)
  case (2 s c r)
  have "\<not> isspace c" using 2 hd_dropWhile [of isspace s] by simp
  moreover have "length (dropWhile (\<lambda>x. \<not> isspace x) r) \<le> length r" by (rule length_dropWhile_le)
  moreover have "Suc (length r) \<le> length s" using length_dropWhile_le [of isspace s] 2 by simp
  ultimately show ?case by simp
qed simp

declare tokens.simps [simp del]

lemma getlines_append:
  assumes "d \<notin> set l"
  shows "getlines d (l @ d # rest) = l # getlines d rest"
proof (cases l)
  case Nil
  then show ?thesis by simp
next
  case (Cons c l')
  then have "takeWhile (\<lambda>x. x \<noteq> d) l' = l'" and "dropWhile (\<lambda>x. x \<noteq> d) l' = []"
    using assms by auto
  then show ?thesis using Cons assms by (auto simp: takeWhile_append dropWhile_append)
qed

lemma getlines_last:
  assumes "d \<notin> set l" and "l \<noteq> []"
  shows "getlines d l = [l]"
proof (cases l)
  case (Cons c l')
  have "takeWhile (\<lambda>x. x \<noteq> d) l = l" and "dropWhile (\<lambda>x. x \<noteq> d) l = []"
    using assms by (auto intro: takeWhile_eq_all_conv [THEN iffD2])
  then show ?thesis using Cons by simp
qed (use assms in simp)

lemma getlines_concat:
  assumes "\<forall>l\<in>set ls. d \<notin> set l"
  shows "getlines d (concat (map (\<lambda>l. l @ [d]) ls)) = ls"
  using assms by (induction ls) (auto simp: getlines_append)

lemma getlines_no_delim: "l \<in> set (getlines d s) \<Longrightarrow> d \<notin> set l"
proof (induction d s rule: getlines.induct)
  case (2 d c s)
  then show ?case by (auto dest: set_takeWhileD)
qed simp

text \<open>\<open>join d\<close> is the loop that writes a container with separators.\<close>

fun join :: "char \<Rightarrow> string list \<Rightarrow> string" where
  "join d [] = []"
| "join d [x] = x"
| "join d (x # y # ys) = x @ d # join d (y # ys)"

lemma getlines_join:
  assumes "\<forall>l\<in>set ls. d \<notin> set l \<and> l \<noteq> []"
  shows "getlines d (join d ls) = ls"
  using assms
proof (induction d ls rule: join.induct)
  case (3 d x y ys)
  then have "d \<notin> set x" and "getlines d (join d (y # ys)) = y # ys" by auto
  then show ?case by (simp add: getlines_append del: getlines.simps)
qed (auto simp: getlines_last)

lemma set_join: "set (join d ls) \<subseteq> insert d (\<Union>l\<in>set ls. set l)"
  by (induction d ls rule: join.induct) auto

lemma tokens_space: "isspace c \<Longrightarrow> tokens (c # s) = tokens s"
  by (subst (1 2) tokens.simps) simp

lemma tokens_blank: "\<forall>c\<in>set s. isspace c \<Longrightarrow> tokens s = []"
  by (subst tokens.simps) (simp add: dropWhile_eq_Nil_conv [THEN iffD2])

lemma tokens_word:
  assumes "w \<noteq> []" and "\<forall>c\<in>set w. \<not> isspace c" and "s = [] \<or> isspace (hd s)"
  shows "tokens (w @ s) = w # tokens s"
proof -
  obtain c w' where w: "w = c # w'" using assms(1) by (cases w) auto
  have d: "dropWhile isspace (w @ s) = c # (w' @ s)" using w assms(2) by simp
  have t: "takeWhile (\<lambda>x. \<not> isspace x) (c # (w' @ s)) = w"
    using assms w by (cases s) (auto simp: takeWhile_append)
  have r: "dropWhile (\<lambda>x. \<not> isspace x) (c # (w' @ s)) = s"
    using assms w by (cases s) (auto simp: dropWhile_append)
  show ?thesis by (subst tokens.simps) (simp only: d list.case t r)
qed

lemma tokens_single: "w \<noteq> [] \<Longrightarrow> \<forall>c\<in>set w. \<not> isspace c \<Longrightarrow> tokens w = [w]"
  using tokens_word [of w "[]"] by (simp add: tokens_blank)

lemma tokens_nonempty: "\<exists>c\<in>set s. \<not> isspace c \<Longrightarrow> tokens s \<noteq> []"
  by (subst tokens.simps) (auto split: list.splits simp: dropWhile_eq_Nil_conv)

lemma tokens_no_space: "t \<in> set (tokens s) \<Longrightarrow> t \<noteq> [] \<and> (\<forall>c\<in>set t. \<not> isspace c)"
proof (induction s rule: tokens.induct)
  case (1 s)
  show ?case
  proof (cases "dropWhile isspace s")
    case Nil
    then have "\<forall>c\<in>set s. isspace c" by simp
    then show ?thesis using "1.prems" by (simp add: tokens_blank)
  next
    case (Cons c r)
    then have nc: "\<not> isspace c" using hd_dropWhile [of isspace s] by simp
    have "t = takeWhile (\<lambda>x. \<not> isspace x) (c # r) \<or> t \<in> set (tokens (dropWhile (\<lambda>x. \<not> isspace x) (c # r)))"
      using "1.prems" Cons by (simp add: tokens.simps [of s])
    then show ?thesis
    proof
      assume "t = takeWhile (\<lambda>x. \<not> isspace x) (c # r)"
      then show ?thesis using nc by (auto dest: set_takeWhileD)
    qed (rule "1.IH" [OF Cons])
  qed
qed

section \<open>Numbers as text\<close>

fun dec :: "nat \<Rightarrow> string" where
  "dec n = (if n < 10 then [char_of (48 + n)] else dec (n div 10) @ [char_of (48 + n mod 10)])"

declare dec.simps [simp del]

definition hex_digit :: "nat \<Rightarrow> char" where
  "hex_digit n = (if n < 10 then char_of (48 + n) else char_of (55 + n))"

text \<open>\<open>%02X\<close> of a byte.\<close>

definition hex2 :: "byte \<Rightarrow> string" where
  "hex2 b = [hex_digit (unat b div 16), hex_digit (unat b mod 16)]"

text \<open>\<open>%llx\<close> of a 64-bit number.\<close>

fun hex_lower :: "nat \<Rightarrow> string" where
  "hex_lower n =
     (let d = (\<lambda>k::nat. if k < 10 then char_of (48 + k) else char_of (87 + k))
      in if n < 16 then [d n] else hex_lower (n div 16) @ [d (n mod 16)])"

declare hex_lower.simps [simp del]

lemma dec_digits: "c \<in> set (dec n) \<Longrightarrow> is_digit c"
proof (induction n rule: dec.induct)
  case (1 n)
  have d: "is_digit (char_of (48 + k))" if "k < 10" for k :: nat
    using that by (simp add: is_digit_def less_eq_char_def)
  show ?case
  proof (cases "n < 10")
    case True
    then show ?thesis using 1 d by (simp add: dec.simps [of n])
  next
    case False
    then have "c \<in> set (dec (n div 10)) \<or> c = char_of (48 + n mod 10)"
      using "1.prems" by (auto simp: dec.simps [of n])
    then show ?thesis using "1.IH" [OF False] d [of "n mod 10"] by auto
  qed
qed

text \<open>The value of a decimal string, the inverse of \<open>dec\<close>.\<close>

definition dec_value :: "string \<Rightarrow> nat" where
  "dec_value s = foldl (\<lambda>a c. 10 * a + (of_char c - 48)) 0 s"

lemma dec_value_dec [simp]: "dec_value (dec n) = n"
proof (induction n rule: dec.induct)
  case (1 n)
  show ?case
  proof (cases "n < 10")
    case True
    then show ?thesis by (simp add: dec.simps [of n] dec_value_def)
  next
    case False
    have "dec_value (dec n) = 10 * dec_value (dec (n div 10)) + n mod 10"
      using False by (simp add: dec.simps [of n] dec_value_def)
    then show ?thesis using "1.IH" [OF False] by simp
  qed
qed

lemma dec_inj: "dec m = dec n \<longleftrightarrow> m = n"
  by (metis dec_value_dec)

lemma hex2_length [simp]: "length (hex2 b) = 2"
  by (simp add: hex2_def)

text \<open>\<open>std::chrono::duration_cast\<close> to a coarser unit truncates towards zero.\<close>

definition duration_cast :: "int \<Rightarrow> int \<Rightarrow> int" where
  "duration_cast d unit = sgn d * (\<bar>d\<bar> div unit)"

lemma duration_cast_nonneg: "0 \<le> d \<Longrightarrow> duration_cast d unit = d div unit"
  by (cases "d = 0") (simp_all add: duration_cast_def)

lemma duration_cast_ge:
  assumes "0 < unit" and "0 < k"
  shows "k \<le> duration_cast d unit \<longleftrightarrow> k * unit \<le> d"
proof (cases "0 \<le> d")
  case True
  have "k \<le> d div unit \<longleftrightarrow> k * unit \<le> d"
  proof
    assume "k \<le> d div unit"
    then have "k * unit \<le> d div unit * unit" using assms(1) by simp
    also have "\<dots> \<le> d" using assms(1) by (simp add: minus_mod_eq_div_mult [symmetric])
    finally show "k * unit \<le> d" .
  next
    assume "k * unit \<le> d"
    then have "k * unit div unit \<le> d div unit" using assms(1) by (rule zdiv_mono1)
    then show "k \<le> d div unit" using assms(1) by simp
  qed
  then show ?thesis using True by (simp add: duration_cast_nonneg)
next
  case False
  have "0 \<le> \<bar>d\<bar> div unit" using assms by (simp add: pos_imp_zdiv_nonneg_iff)
  then have "duration_cast d unit \<le> 0" using False by (simp add: duration_cast_def)
  moreover have "0 < k * unit" using assms by simp
  ultimately show ?thesis using False assms by linarith
qed

section \<open>C strings and pipes\<close>

text \<open>What \<open>std::string += buf\<close> appends: the characters up to the terminator.\<close>

definition c_str :: "string \<Rightarrow> string" where
  "c_str s = takeWhile (\<lambda>c. c \<noteq> CHR 0x00) s"

text \<open>
  \<open>fgets(buf, n, f)\<close> on the bytes still to be read: at most \<open>n - 1\<close> of them, up to and
  with the first newline.
\<close>

definition fgets_len :: "nat \<Rightarrow> string \<Rightarrow> nat" where
  "fgets_len n s = min (n - 1) (Suc (length (takeWhile (\<lambda>c. c \<noteq> NL) s)))"

lemma fgets_len_pos: "2 \<le> n \<Longrightarrow> 0 < fgets_len n s"
  by (simp add: fgets_len_def)

text \<open>
  \<open>while (result.size() < limit && fgets(...)) result += buffer\<close>; a missing limit is the
  loop that runs to the end of the stream.
\<close>

function read_pipe :: "nat option \<Rightarrow> nat \<Rightarrow> string \<Rightarrow> string \<Rightarrow> string" where
  "read_pipe limit n result s =
     (if 2 \<le> n \<and> s \<noteq> [] \<and> (case limit of None \<Rightarrow> True | Some l \<Rightarrow> length result < l)
      then read_pipe limit n (result @ c_str (take (fgets_len n s) s)) (drop (fgets_len n s) s)
      else result)"
  by pat_completeness auto
termination
  by (relation "measure (\<lambda>(limit, n, result, s). length s)") (auto simp: fgets_len_pos)

declare read_pipe.simps [simp del]

lemma c_str_id: "CHR 0x00 \<notin> set s \<Longrightarrow> c_str s = s"
  unfolding c_str_def by (auto intro: takeWhile_eq_all_conv [THEN iffD2])

lemma read_pipe_all:
  assumes "2 \<le> n" and "CHR 0x00 \<notin> set s"
  shows "read_pipe None n result s = result @ s"
  using assms
proof (induction "length s" arbitrary: result s rule: less_induct)
  case less
  show ?case
  proof (cases "s = []")
    case True
    then show ?thesis by (simp add: read_pipe.simps)
  next
    case False
    let ?k = "fgets_len n s"
    have "length (drop ?k s) < length s" using False fgets_len_pos [OF less.prems(1), of s] by simp
    then have "read_pipe None n (result @ c_str (take ?k s)) (drop ?k s)
      = (result @ c_str (take ?k s)) @ drop ?k s"
      using less by (meson in_set_dropD)
    moreover have "c_str (take ?k s) = take ?k s" using less.prems(2) by (meson c_str_id in_set_takeD)
    ultimately show ?thesis using False less.prems(1) by (subst read_pipe.simps) simp
  qed
qed

lemma c_str_length: "length (c_str s) \<le> length s"
  by (simp add: c_str_def length_takeWhile_le)

text \<open>A limited read overshoots the limit by at most one buffer.\<close>

lemma read_pipe_limit:
  assumes "length result < l + (n - 1)"
  shows "length (read_pipe (Some l) n result s) < l + (n - 1)"
  using assms
proof (induction "Some l :: nat option" n result s rule: read_pipe.induct)
  case (1 n result s)
  show ?case
  proof (cases "2 \<le> n \<and> s \<noteq> [] \<and> length result < l")
    case True
    let ?k = "fgets_len n s"
    have "length (c_str (take ?k s)) \<le> n - 1"
      using c_str_length [of "take ?k s"] by (simp add: fgets_len_def)
    moreover have "length (result @ c_str (take ?k s)) = length result + length (c_str (take ?k s))"
      by (rule length_append)
    ultimately have "length (result @ c_str (take ?k s)) < l + (n - 1)" using True by linarith
    then show ?thesis using 1 True by (subst read_pipe.simps) simp
  next
    case False
    then show ?thesis using 1 by (subst read_pipe.simps) auto
  qed
qed

text \<open>
  \<open>while (!result.empty()) { msg = result.substr(0, n); result.erase(0, n); ... }\<close>
\<close>

function chunks :: "nat \<Rightarrow> string \<Rightarrow> string list" where
  "chunks n s = (if s = [] \<or> n = 0 then [] else take n s # chunks n (drop n s))"
  by pat_completeness auto
termination
  by (relation "measure (\<lambda>(n, s). length s)") auto

declare chunks.simps [simp del]

lemma concat_chunks: "0 < n \<Longrightarrow> concat (chunks n s) = s"
proof (induction n s rule: chunks.induct)
  case (1 n s)
  then show ?case by (cases "s = []") (simp_all add: chunks.simps [of n s] chunks.simps [of n "[]"])
qed

lemma chunks_bound: "t \<in> set (chunks n s) \<Longrightarrow> t \<noteq> [] \<and> length t \<le> n"
proof (induction n s rule: chunks.induct)
  case (1 n s)
  then show ?case by (cases "s = [] \<or> n = 0") (auto simp: chunks.simps [of n s])
qed

end
