(* ===== verification/Effects.thy ===== *)
theory Effects
  imports Prelude
begin

text \<open>
  What an operation of the base station does besides changing its own state is the list of
  its effects, in the order the code has them: log records, text messages handed to
  \<open>SMSSender\<close>, closed and written file descriptors, the reboot request,
  the stop of the web daemon. (A descriptor that an
  operation opens and closes itself leaves no trace here.) An exception the
  code throws is a value of \<open>exn\<close>; \<open>Bad_Access\<close> there is a read past the end of an array,
  which C++ leaves undefined, \<open>Blocked\<close> a system call that never returns, and \<open>Killed\<close> the signal
  \<open>SIGPIPE\<close>, which ends the process. A \<open>Reboot\<close> that works ends the process as well
  (\<open>Rebooted\<close>, for the main loop): the effects listed after one happen only when the call fails.
\<close>

datatype log_level = Err | Warn | Info | Debug

datatype effect =
    Log log_level string
  | Sms string string
  | Cleanup_Sms
  | Close_Fd int
  | Write_Fd int "byte list"
  | Sync
  | Reboot
  | Stop_Daemon int

datatype exn = Runtime_Error string | Out_Of_Range | Invalid_Argument | Bad_Access | Blocked | Killed | Rebooted

type_synonym 's res = "'s \<times> effect list"

definition then_do :: "'s res \<Rightarrow> ('s \<Rightarrow> 's res) \<Rightarrow> 's res" where
  "then_do r f = (case r of (s, e) \<Rightarrow> (case f s of (s', e') \<Rightarrow> (s', e @ e')))"

text \<open>The text messages among the effects, as (recipient, content).\<close>

fun sms_of :: "effect list \<Rightarrow> (string \<times> string) list" where
  "sms_of [] = []"
| "sms_of (Sms to content # es) = (to, content) # sms_of es"
| "sms_of (_ # es) = sms_of es"

text \<open>The bytes written to one file descriptor.\<close>

fun bytes_to :: "int \<Rightarrow> effect list \<Rightarrow> byte list" where
  "bytes_to fd [] = []"
| "bytes_to fd (Write_Fd fd' bs # es) = (if fd' = fd then bs @ bytes_to fd es else bytes_to fd es)"
| "bytes_to fd (_ # es) = bytes_to fd es"

text \<open>The descriptors closed, in order.\<close>

fun closed_fds :: "effect list \<Rightarrow> int list" where
  "closed_fds [] = []"
| "closed_fds (Close_Fd fd # es) = fd # closed_fds es"
| "closed_fds (_ # es) = closed_fds es"

lemma fst_then_do: "fst (then_do r f) = fst (f (fst r))"
  by (simp add: then_do_def split: prod.splits)

lemma snd_then_do: "snd (then_do r f) = snd r @ snd (f (fst r))"
  by (simp add: then_do_def split: prod.splits)

lemmas then_do_simps = fst_then_do snd_then_do

lemma sms_of_append [simp]: "sms_of (xs @ ys) = sms_of xs @ sms_of ys"
  by (induction xs rule: sms_of.induct) auto

lemma bytes_to_append [simp]: "bytes_to fd (xs @ ys) = bytes_to fd xs @ bytes_to fd ys"
  by (induction fd xs rule: bytes_to.induct) auto

lemma closed_fds_append [simp]: "closed_fds (xs @ ys) = closed_fds xs @ closed_fds ys"
  by (induction xs rule: closed_fds.induct) auto

text \<open>
  The contract of an operation that keeps an invariant, and what follows for a sequence of
  such operations.
\<close>

fun run_ops :: "('e \<Rightarrow> 's \<Rightarrow> 's res) \<Rightarrow> 'e list \<Rightarrow> 's \<Rightarrow> 's res" where
  "run_ops step [] s = (s, [])"
| "run_ops step (e # es) s = then_do (step e s) (run_ops step es)"

locale preserving =
  fixes step :: "'e \<Rightarrow> 's \<Rightarrow> 's res" and inv :: "'s \<Rightarrow> bool"
  assumes step_inv: "inv s \<Longrightarrow> inv (fst (step e s))"
begin

lemma run_inv: "inv s \<Longrightarrow> inv (fst (run_ops step es s))"
  by (induction es arbitrary: s) (auto simp: fst_then_do step_inv)


end

end
