(* ===== verification/Helpers.thy ===== *)
theory Helpers
  imports Effects
begin

text \<open>
  The helper functions of \<open>base_station.cpp\<close>'s anonymous namespace that work on text:
  the checks of phone numbers and heater names, MAC addresses and the uptime as text.
\<close>

definition check_phone_number_format :: "string \<Rightarrow> bool" where
  "check_phone_number_format no =
     (if length no < 10 \<or> length no > 14 then False
      else list_all (\<lambda>c. \<not> (c < CHR ''0'' \<or> c > CHR ''9'')) no)"

definition ends_with :: "string \<Rightarrow> string \<Rightarrow> bool" where
  "ends_with value ending =
     (if length ending > length value then False
      else take (length ending) (rev value) = rev ending)"

definition check_heater_name :: "string \<Rightarrow> bool" where
  "check_heater_name name =
     (if name = [] then False
      else list_all (\<lambda>c. (c \<ge> CHR ''a'' \<and> c \<le> CHR ''z'') \<or> (c \<ge> CHR ''A'' \<and> c \<le> CHR ''Z'')
                       \<or> (c \<ge> CHR ''0'' \<and> c \<le> CHR ''9'')) name)"

definition macToStr :: "byte list \<Rightarrow> string" where
  "macToStr mac = hex2 (mac ! 0) @ '':'' @ hex2 (mac ! 1) @ '':'' @ hex2 (mac ! 2) @ '':''
     @ hex2 (mac ! 3) @ '':'' @ hex2 (mac ! 4) @ '':'' @ hex2 (mac ! 5)"

text \<open>\<open>sysinfo\<close> gives the uptime, a \<open>long\<close>, or fails.\<close>

definition get_uptime_str :: "int option \<Rightarrow> string" where
  "get_uptime_str s_info =
     (case s_info of
        None \<Rightarrow> ''unknown''
      | Some uptime \<Rightarrow>
          let secs = (word_of_int uptime :: u32);
              days = secs div (60 * 60 * 24);
              secs = secs - days * (60 * 60 * 24);
              hours = secs div (60 * 60);
              secs = secs - hours * (60 * 60);
              minutes = secs div 60;
              secs = secs - minutes * 60
          in (if days \<le> 1 then dec (unat days) @ '' day '' else dec (unat days) @ '' days '')
             @ dec (unat hours) @ ''h '' @ dec (unat minutes) @ ''m '' @ dec (unat secs) @ ''s'')"

lemma check_phone_iff:
  "check_phone_number_format no \<longleftrightarrow> 10 \<le> length no \<and> length no \<le> 14 \<and> (\<forall>c\<in>set no. is_digit c)"
  by (auto simp: check_phone_number_format_def list_all_iff is_digit_def)

lemma check_name_iff: "check_heater_name n \<longleftrightarrow> n \<noteq> [] \<and> (\<forall>c\<in>set n. is_alnum c)"
  by (auto simp: check_heater_name_def list_all_iff is_alnum_def)

lemma check_name_toupper [simp]: "check_heater_name (map toupper n) = check_heater_name n"
  by (auto simp: check_name_iff)

lemma ends_with_iff: "ends_with v e \<longleftrightarrow> (\<exists>p. v = p @ e)"
proof
  assume "ends_with v e"
  then have "rev v = rev e @ drop (length e) (rev v)"
    unfolding ends_with_def by (metis append_take_drop_id)
  then have "v = rev (drop (length e) (rev v)) @ e" by (metis rev_append rev_rev_ident)
  then show "\<exists>p. v = p @ e" by blast
qed (auto simp: ends_with_def)

lemma check_phone_nonempty: "check_phone_number_format p \<Longrightarrow> p \<noteq> []"
  by (auto simp: check_phone_iff)

lemma phone_chars:
  assumes "check_phone_number_format p" and "c \<in> set p"
  shows "\<not> isspace c" "c \<noteq> NL" "c \<noteq> CHR '',''" "c \<noteq> CHR ''=''"
  using assms digit_alnum [of c] alnum_neq [of c] digit_not_space [of c] by (auto simp: check_phone_iff)

lemma name_chars:
  assumes "check_heater_name n" and "c \<in> set n"
  shows "\<not> isspace c" "c \<noteq> NL" "c \<noteq> CHR ''=''" "c \<noteq> CHR ''_''" "c \<noteq> CHR ''<''"
  using assms alnum_neq alnum_not_space by (auto simp: check_name_iff)

lemma macToStr_length [simp]: "length (macToStr m) = 17"
  by (simp add: macToStr_def)

section \<open>The uptime\<close>

text \<open>The days, hours, minutes and seconds of the text add up to the uptime.\<close>

lemma unat_sub_div_mult:
  fixes s :: u32
  assumes "0 < k" and "k < 2 ^ 32"
  shows "unat (s - s div of_nat k * of_nat k) = unat s mod k"
  using assms by (simp add: minus_div_mult_eq_mod unat_mod unat_of_nat take_bit_nat_eq_self)

lemma get_uptime_str_eq:
  assumes "0 \<le> up" and "up < 2 ^ 32"
  shows "get_uptime_str (Some up) =
    (let n = nat up; d = n div 86400 in
      dec d @ (if d \<le> 1 then '' day '' else '' days '')
      @ dec (n mod 86400 div 3600) @ ''h '' @ dec (n mod 3600 div 60) @ ''m '' @ dec (n mod 60) @ ''s'')"
proof -
  define s where "s = (word_of_int up :: u32)"
  have "nat up < 2 ^ 32" using assms by (simp add: nat_less_iff)
  moreover have "s = of_nat (nat up)" using assms(1) by (simp add: s_def)
  ultimately have us: "unat s = nat up" by (simp only: unat_of_nat) simp
  define s1 where "s1 = s - s div (60 * 60 * 24) * (60 * 60 * 24)"
  define s2 where "s2 = s1 - s1 div (60 * 60) * (60 * 60)"
  define s3 where "s3 = s2 - s2 div 60 * 60"
  have s1: "unat s1 = nat up mod 86400"
    using unat_sub_div_mult [of 86400 s] us by (simp add: s1_def)
  have s2: "unat s2 = nat up mod 3600"
    using unat_sub_div_mult [of 3600 s1] s1 by (simp add: s2_def mod_mod_cancel)
  have s3: "unat s3 = nat up mod 60"
    using unat_sub_div_mult [of 60 s2] s2 by (simp add: s3_def mod_mod_cancel)
  have d: "unat (s div 86400) = nat up div 86400" using us by (simp add: unat_div)
  have "s div 86400 \<le> 1 \<longleftrightarrow> nat up div 86400 \<le> 1" using d by (simp add: word_le_nat_alt)
  moreover have "get_uptime_str (Some up) =
      (if s div (60 * 60 * 24) \<le> 1 then dec (unat (s div (60 * 60 * 24))) @ '' day ''
       else dec (unat (s div (60 * 60 * 24))) @ '' days '')
      @ dec (unat (s1 div (60 * 60))) @ ''h '' @ dec (unat (s2 div 60)) @ ''m '' @ dec (unat s3) @ ''s''"
    by (simp only: get_uptime_str_def option.case Let_def s_def [symmetric] s1_def [symmetric]
        s2_def [symmetric] s3_def [symmetric] append_assoc)
  ultimately show ?thesis
    by (simp add: Let_def us unat_div s1 s2 s3)
qed

end
