(* ===== verification/Timer.thy ===== *)
theory Timer
  imports Effects
begin

text \<open>
  \<open>timer.hpp\<close> and \<open>timer.cpp\<close>: a timer is a \<open>timerfd\<close> and what \<open>timerfd_settime\<close> was
  last given. Whether the descriptor is readable is decided by the kernel; the monitors take
  it as an input. Times are computed in 32-bit unsigned arithmetic, as the source does
  where \<open>time_t\<close> is a 32-bit \<open>long\<close>.
\<close>

record itimerspec =
  it_value_sec :: u32
  it_value_nsec :: u32
  it_interval_sec :: u32
  it_interval_nsec :: u32

record timer =
  t_fd :: int
  t_spec :: "itimerspec option"

definition timer_new :: timer where
  "timer_new = \<lparr>t_fd = -1, t_spec = None\<rparr>"

definition timer_spec :: "u32 \<Rightarrow> bool \<Rightarrow> itimerspec" where
  "timer_spec period_ms periodic =
     (let sec = period_ms div 1000;
          nsec = (period_ms - sec * 1000) * 1000 * 1000
      in \<lparr>it_value_sec = sec, it_value_nsec = nsec,
          it_interval_sec = (if periodic then sec else 0),
          it_interval_nsec = (if periodic then nsec else 0)\<rparr>)"

text \<open>\<open>created\<close> is what \<open>timerfd_create\<close> returns, if it is called.\<close>

definition timer_start :: "int \<Rightarrow> u32 \<Rightarrow> bool \<Rightarrow> timer \<Rightarrow> exn + timer" where
  "timer_start created period_ms periodic t =
     (let fd = (if t_fd t < 0 then created else t_fd t)
      in if fd < 0 then Inl (Runtime_Error ''Failed to create timer'')
         else Inr (t\<lparr>t_fd := fd, t_spec := Some (timer_spec period_ms periodic)\<rparr>))"

definition timer_stop :: "timer \<Rightarrow> timer" where
  "timer_stop t =
     (if t_fd t < 0 then t
      else t\<lparr>t_spec := Some \<lparr>it_value_sec = 0, it_value_nsec = 0, it_interval_sec = 0, it_interval_nsec = 0\<rparr>\<rparr>)"

definition timer_delete :: "timer \<Rightarrow> effect list" where
  "timer_delete t = (if t_fd t \<ge> 0 then [Close_Fd (t_fd t)] else [])"

definition getFD :: "timer \<Rightarrow> int" where "getFD t = t_fd t"

lemma timer_start_new:
  "0 \<le> fd \<Longrightarrow> timer_start fd p periodic timer_new = Inr \<lparr>t_fd = fd, t_spec = Some (timer_spec p periodic)\<rparr>"
  by (simp add: timer_start_def timer_new_def Let_def)

lemma timer_spec_sec: "unat (it_value_sec (timer_spec p periodic)) = unat p div 1000"
  by (simp add: timer_spec_def Let_def unat_div)

lemma timer_spec_nsec: "unat (it_value_nsec (timer_spec p periodic)) = (unat p mod 1000) * 1000000"
proof -
  have r: "unat (p - p div 1000 * 1000) = unat p mod 1000"
    by (simp add: minus_div_mult_eq_mod unat_mod)
  define x where "x = p - p div 1000 * 1000"
  have "unat x \<le> 999" using r by (simp add: x_def)
  then have "unat (x * 1000 * 1000) = unat x * 1000000"
    by (simp add: unat_word_ariths)
  moreover have "it_value_nsec (timer_spec p periodic) = x * 1000 * 1000"
    by (simp only: timer_spec_def Let_def x_def itimerspec.simps)
  moreover have "unat x = unat p mod 1000" using r by (simp only: x_def)
  ultimately show ?thesis by simp
qed

lemma timer_spec_periodic:
  "it_interval_sec (timer_spec p True) = it_value_sec (timer_spec p True)"
  "it_interval_nsec (timer_spec p True) = it_value_nsec (timer_spec p True)"
  "it_interval_sec (timer_spec p False) = 0" "it_interval_nsec (timer_spec p False) = 0"
  by (simp_all add: timer_spec_def Let_def)

end
