(* ===== verification/Std_Map.thy ===== *)
theory Std_Map
  imports Prelude
begin

text \<open>
  The ordered containers of the C++ standard library that the base station keeps its state
  in. A \<open>std::map\<close> is the list of its entries in iteration order (strictly increasing
  keys), a \<open>std::set\<close> the strictly increasing list of its elements; strings compare byte
  by byte as \<open>std::string\<close> does. The locale \<open>ordered_assoc\<close> is the contract the
  components rely on (what a lookup returns after an assignment or an erasure, that the order
  is kept), and it is interpreted below on the lists.
\<close>

type_synonym ('k, 'v) std_map = "('k \<times> 'v) list"
type_synonym 'k std_set = "'k list"

section \<open>The contract\<close>

locale ordered_assoc =
  fixes find :: "'m \<Rightarrow> 'k::linorder \<Rightarrow> 'v option"
    and assign :: "'k \<Rightarrow> 'v \<Rightarrow> 'm \<Rightarrow> 'm"
    and erase :: "'k \<Rightarrow> 'm \<Rightarrow> 'm"
    and entries :: "'m \<Rightarrow> ('k \<times> 'v) list"
    and inv :: "'m \<Rightarrow> bool"
  assumes find_assign: "inv m \<Longrightarrow> find (assign k v m) j = (if j = k then Some v else find m j)"
    and find_erase: "inv m \<Longrightarrow> find (erase k m) j = (if j = k then None else find m j)"
    and inv_assign: "inv m \<Longrightarrow> inv (assign k v m)"
    and inv_erase: "inv m \<Longrightarrow> inv (erase k m)"
    and find_entries: "inv m \<Longrightarrow> find m k = Some v \<longleftrightarrow> (k, v) \<in> set (entries m)"
    and entries_sorted: "inv m \<Longrightarrow> sorted_wrt (<) (map fst (entries m))"
begin

lemma entries_distinct: "inv m \<Longrightarrow> distinct (map fst (entries m))"
  using entries_sorted strict_sorted_iff by blast

lemma entries_assign:
  "inv m \<Longrightarrow> set (entries (assign k v m)) = insert (k, v) {e \<in> set (entries m). fst e \<noteq> k}"
  by (auto simp: find_entries [symmetric] inv_assign find_assign split: if_splits)

lemma entries_erase:
  "inv m \<Longrightarrow> set (entries (erase k m)) = {e \<in> set (entries m). fst e \<noteq> k}"
  by (auto simp: find_entries [symmetric] inv_erase find_erase split: if_splits)

lemma entries_assign_all:
  assumes "inv m" and "\<forall>e\<in>set (entries m). P e" and "P (k, v)"
  shows "\<forall>e\<in>set (entries (assign k v m)). P e"
  using assms by (auto simp: entries_assign)

lemma find_None: "inv m \<Longrightarrow> find m k = None \<longleftrightarrow> k \<notin> fst ` set (entries m)"
proof (cases "find m k")
  case None
  then show "inv m \<Longrightarrow> ?thesis" using find_entries [of m k] by (auto simp: image_iff)
next
  case (Some v)
  show "inv m \<Longrightarrow> ?thesis" using find_entries [of m k v] Some by (force simp: image_iff)
qed

lemma mem_entries: "inv m \<Longrightarrow> e \<in> set (entries m) \<longleftrightarrow> find m (fst e) = Some (snd e)"
  by (simp add: find_entries)

text \<open>Two maps with the same lookups hold the same entries in the same order.\<close>

lemma entries_unique:
  assumes "inv m" and "inv m'" and "\<And>k. find m k = find m' k"
  shows "entries m = entries m'"
proof (rule map_sorted_distinct_set_unique [where f = fst])
  show eq: "set (entries m) = set (entries m')"
    using mem_entries [OF assms(1)] mem_entries [OF assms(2)] assms(3) by auto
  show "inj_on fst (set (entries m) \<union> set (entries m'))"
    unfolding eq using entries_distinct [OF assms(2)] by (simp add: distinct_map)
qed (use assms entries_sorted entries_distinct strict_sorted_iff in blast)+

end

section \<open>Sorted association lists\<close>

definition map_find :: "('k, 'v) std_map \<Rightarrow> 'k \<Rightarrow> 'v option" where
  "map_find m k = map_of m k"

fun map_assign :: "'k::linorder \<Rightarrow> 'v \<Rightarrow> ('k, 'v) std_map \<Rightarrow> ('k, 'v) std_map" where
  "map_assign k v [] = [(k, v)]"
| "map_assign k v ((j, w) # m) =
     (if k < j then (k, v) # (j, w) # m
      else if k = j then (k, v) # m
      else (j, w) # map_assign k v m)"

fun map_erase :: "'k \<Rightarrow> ('k, 'v) std_map \<Rightarrow> ('k, 'v) std_map" where
  "map_erase k [] = []"
| "map_erase k ((j, w) # m) = (if k = j then m else (j, w) # map_erase k m)"

definition map_entries :: "('k, 'v) std_map \<Rightarrow> ('k \<times> 'v) list" where
  "map_entries m = m"

definition map_inv :: "('k::linorder, 'v) std_map \<Rightarrow> bool" where
  "map_inv m \<longleftrightarrow> sorted_wrt (<) (map fst m)"

text \<open>\<open>for (auto &e : m) e.second = v\<close>\<close>

definition map_set_all :: "'v \<Rightarrow> ('k, 'v) std_map \<Rightarrow> ('k, 'v) std_map" where
  "map_set_all v m = map (\<lambda>(k, _). (k, v)) m"

lemma set_map_assign: "set (map_assign k v m) \<subseteq> insert (k, v) (set m)"
  by (induction k v m rule: map_assign.induct) auto

lemma fst_map_assign: "fst ` set (map_assign k v m) = insert k (fst ` set m)"
  by (induction k v m rule: map_assign.induct) auto

lemma map_assign_inv: "map_inv m \<Longrightarrow> map_inv (map_assign k v m)"
proof (induction k v m rule: map_assign.induct)
  case (2 k v j w m)
  then have "\<forall>y\<in>fst ` set (map_assign k v m). j < y" if "j < k"
    using that by (auto simp: fst_map_assign map_inv_def)
  with 2 show ?case by (auto simp: map_inv_def not_less order.order_iff_strict)
qed (simp add: map_inv_def)

lemma map_erase_filter: "map_inv m \<Longrightarrow> map_erase k m = filter (\<lambda>e. fst e \<noteq> k) m"
proof (induction k m rule: map_erase.induct)
  case (2 k j w m)
  then have "\<forall>e\<in>set m. j < fst e" and "map_inv m" by (auto simp: map_inv_def)
  with 2 show ?case by (auto intro!: filter_True [symmetric])
qed simp

lemma map_inv_filter: "map_inv m \<Longrightarrow> map_inv (filter P m)"
  by (induction m) (auto simp: map_inv_def)

lemma map_assign_find:
  "map_inv m \<Longrightarrow> map_find (map_assign k v m) j = (if j = k then Some v else map_find m j)"
proof (induction k v m rule: map_assign.induct)
  case (2 k v i w m)
  then show ?case by (auto simp: map_find_def map_inv_def)
qed (simp add: map_find_def)

lemma map_find_filter:
  "map_find (filter (\<lambda>e. fst e \<noteq> k) m) j = (if j = k then None else map_find m j)"
  by (induction m) (auto simp: map_find_def)

interpretation sm: ordered_assoc map_find map_assign map_erase map_entries map_inv
proof unfold_locales
  fix m :: "('k::linorder, 'v) std_map" and k j :: 'k and v :: 'v
  assume inv: "map_inv m"
  show "map_find (map_assign k v m) j = (if j = k then Some v else map_find m j)"
    using inv by (rule map_assign_find)
  show "map_find (map_erase k m) j = (if j = k then None else map_find m j)"
    using inv by (simp add: map_erase_filter map_find_filter)
  show "map_inv (map_assign k v m)" using inv by (rule map_assign_inv)
  show "map_inv (map_erase k m)" using inv by (simp add: map_erase_filter map_inv_filter)
  have "distinct (map fst m)" using inv by (simp add: map_inv_def strict_sorted_iff)
  then show "map_find m k = Some v \<longleftrightarrow> (k, v) \<in> set (map_entries m)"
    by (simp add: map_find_def map_entries_def)
  show "sorted_wrt (<) (map fst (map_entries m))" using inv by (simp add: map_inv_def map_entries_def)
qed

lemma map_inv_Nil [simp]: "map_inv []"
  by (simp add: map_inv_def)

lemma map_set_all_fst [simp]: "map fst (map_set_all v m) = map fst m"
  by (induction m) (auto simp: map_set_all_def)

lemma map_set_all_inv [simp]: "map_inv (map_set_all v m) = map_inv m"
  by (simp add: map_inv_def)

lemma map_set_all_find: "map_find (map_set_all v m) k = map_option (\<lambda>_. v) (map_find m k)"
  by (induction m) (auto simp: map_set_all_def map_find_def)

lemma set_map_set_all: "set (map_set_all v m) = (\<lambda>e. (fst e, v)) ` set m"
  by (force simp: map_set_all_def)

text \<open>Assigning the entries of a map one by one, in order, rebuilds it.\<close>

lemma map_assign_append:
  assumes "\<forall>e\<in>set m. fst e < k"
  shows "map_assign k v m = m @ [(k, v)]"
  using assms by (induction k v m rule: map_assign.induct) auto

lemma fold_map_assign:
  assumes "map_inv (m @ es)"
  shows "fold (\<lambda>(k, v). map_assign k v) es m = m @ es"
  using assms
proof (induction es arbitrary: m)
  case (Cons e es)
  obtain k v where e: "e = (k, v)" by (cases e)
  have "map_assign k v m = m @ [(k, v)]"
    using Cons.prems e by (intro map_assign_append) (auto simp: map_inv_def sorted_wrt_append)
  moreover have "fold (\<lambda>(k, v). map_assign k v) es (m @ [(k, v)]) = (m @ [(k, v)]) @ es"
    using Cons e by (intro Cons.IH) simp
  ultimately show ?case using e by simp
qed simp

section \<open>Sorted lists as sets\<close>

text \<open>A \<open>std::set\<close> is the list of its elements: a map with no values.\<close>

fun set_insert :: "'k::linorder \<Rightarrow> 'k std_set \<Rightarrow> 'k std_set" where
  "set_insert k [] = [k]"
| "set_insert k (j # s) = (if k < j then k # j # s else if k = j then j # s else j # set_insert k s)"

definition set_erase :: "'k \<Rightarrow> 'k std_set \<Rightarrow> 'k std_set" where
  "set_erase k s = filter (\<lambda>j. j \<noteq> k) s"

definition set_mem :: "'k std_set \<Rightarrow> 'k \<Rightarrow> bool" where
  "set_mem s k \<longleftrightarrow> k \<in> set s"

definition set_inv :: "'k::linorder std_set \<Rightarrow> bool" where
  "set_inv s \<longleftrightarrow> sorted_wrt (<) s"

lemma set_set_insert [simp]: "set (set_insert k s) = insert k (set s)"
  by (induction k s rule: set_insert.induct) auto

lemma set_insert_inv: "set_inv s \<Longrightarrow> set_inv (set_insert k s)"
  by (induction k s rule: set_insert.induct) (auto simp: set_inv_def)

lemma set_erase_inv: "set_inv s \<Longrightarrow> set_inv (set_erase k s)"
  unfolding set_inv_def set_erase_def by (rule sorted_wrt_filter)

lemma set_set_erase [simp]: "set (set_erase k s) = set s - {k}"
  by (auto simp: set_erase_def)

lemma set_inv_Nil [simp]: "set_inv []"
  by (simp add: set_inv_def)

lemma set_insert_append: "\<forall>e\<in>set s. e < k \<Longrightarrow> set_insert k s = s @ [k]"
  by (induction k s rule: set_insert.induct) auto

lemma fold_set_insert:
  assumes "set_inv (s @ es)"
  shows "fold set_insert es s = s @ es"
  using assms
proof (induction es arbitrary: s)
  case (Cons e es)
  have "set_insert e s = s @ [e]"
    using Cons.prems by (intro set_insert_append) (auto simp: set_inv_def sorted_wrt_append)
  then show ?case using Cons.IH [of "s @ [e]"] Cons.prems by simp
qed simp

end
