(* ===== verification/Heater.thy ===== *)
theory Heater
  imports Effects
begin

text \<open>
  \<open>heater.hpp\<close> and \<open>heater.cpp\<close>: the heater states and the record the base station keeps
  of each heater controller it has heard of.
\<close>

datatype heater_state = HEATER_OFF | HEATER_DEFROST | HEATER_ECO | HEATER_COMFORT

text \<open>The value of the C++ enumerator, which is also the byte sent over the wire.\<close>

fun state_code :: "heater_state \<Rightarrow> nat" where
  "state_code HEATER_OFF = 0"
| "state_code HEATER_DEFROST = 1"
| "state_code HEATER_ECO = 2"
| "state_code HEATER_COMFORT = 3"

lemma state_code_inj: "state_code a = state_code b \<longleftrightarrow> a = b"
  by (cases a; cases b) auto

lemma state_code_bound: "state_code a \<le> 3"
  by (cases a) auto

text \<open>C++ compares enumerators by value.\<close>

instantiation heater_state :: linorder
begin

definition less_eq_heater_state :: "heater_state \<Rightarrow> heater_state \<Rightarrow> bool" where
  "less_eq_heater_state a b \<longleftrightarrow> state_code a \<le> state_code b"

definition less_heater_state :: "heater_state \<Rightarrow> heater_state \<Rightarrow> bool" where
  "less_heater_state a b \<longleftrightarrow> state_code a < state_code b"

instance
  by standard (auto simp: less_eq_heater_state_def less_heater_state_def state_code_inj)

end

text \<open>The label of a state in replies, in the boot message and on the web page.\<close>

fun state_label :: "heater_state \<Rightarrow> string" where
  "state_label HEATER_OFF = ''OFF''"
| "state_label HEATER_DEFROST = ''DEFROST''"
| "state_label HEATER_ECO = ''ECO''"
| "state_label HEATER_COMFORT = ''COMFORT/ON''"

record heater =
  h_name :: string
  h_ip_addr :: string
  h_last_request_timestamp :: int
  h_state :: heater_state

definition heater_new :: "string \<Rightarrow> string \<Rightarrow> heater" where
  "heater_new name ip = \<lparr>h_name = name, h_ip_addr = ip, h_last_request_timestamp = 0, h_state = HEATER_DEFROST\<rparr>"

definition heater_update :: "int \<Rightarrow> heater_state \<Rightarrow> heater \<Rightarrow> heater" where
  "heater_update now newState h = h\<lparr>h_last_request_timestamp := now, h_state := newState\<rparr>"

definition getName :: "heater \<Rightarrow> string" where "getName h = h_name h"

definition getLastIPAddress :: "heater \<Rightarrow> string" where "getLastIPAddress h = h_ip_addr h"

definition getLastRequestTimestamp :: "heater \<Rightarrow> int" where
  "getLastRequestTimestamp h = h_last_request_timestamp h"

definition getState :: "heater \<Rightarrow> heater_state" where "getState h = h_state h"

lemmas heater_getters = getName_def getLastIPAddress_def getLastRequestTimestamp_def getState_def

lemma heater_new_update [simp]:
  "getName (heater_update now st (heater_new name ip)) = name"
  "getLastIPAddress (heater_update now st (heater_new name ip)) = ip"
  "getLastRequestTimestamp (heater_update now st (heater_new name ip)) = now"
  "getState (heater_update now st (heater_new name ip)) = st"
  by (simp_all add: heater_getters heater_update_def heater_new_def)

end
