(* ===== verification/Station_State.thy ===== *)
theory Station_State
  imports Helpers Timer Std_Map Heater
begin

text \<open>
  The state of class \<open>BaseStation\<close> (\<open>base_station.hpp\<close>), its constructor, and the state
  file: \<open>saveState\<close> writes it, \<open>loadState\<close> reads it at start-up. The field
  \<open>m_state_file\<close> is the content of \<open>/var/lib/base_station.state\<close>, \<open>None\<close> when it does
  not exist. The fields have the names of the class's members; the mutexes have none, since
  an operation is one step. The last section proves that a saved configuration is loaded
  back, and that any file, whatever it holds, loads into a well-formed configuration.
\<close>

record device_connection =
  dc_fd :: int
  dc_last_seen :: int

record base_station =
  m_connections :: "device_connection list"
  m_commands :: "(string \<times> string) list"
  m_stale_timer :: timer
  m_heater_default_state :: heater_state
  m_heater_state :: "(string, heater_state) std_map"
  m_locked :: bool
  m_phone_whitelist :: "string std_set"
  m_emergency_phone :: string
  m_check_wifi_timer :: timer
  m_wifi_error_counter :: u32
  m_message_counter :: u64
  m_heater_counter :: "(u64, u64) std_map"
  m_heaters :: "(u64, heater) std_map"
  m_lost_devices_timer :: timer
  m_check_3g_timer :: timer
  m_3g_error_counter :: u32
  m_check_daemon_timer :: timer
  m_daemon_error_counter :: u32
  m_send_boot_msg :: timer
  m_cleanup_sms_timer :: timer
  m_state_file :: "string option"

definition STATE_FILE_PATH :: string where "STATE_FILE_PATH = ''/var/lib/base_station.state''"

text \<open>
  The state a heater is told when it asks under the given name (empty for a heater that
  gives none): its own state if one was set, the default otherwise. The request handler of
  \<open>Connections\<close> computes it.
\<close>

definition requested_state :: "base_station \<Rightarrow> string \<Rightarrow> heater_state" where
  "requested_state bs name =
     (let state = m_heater_default_state bs
      in if name \<noteq> [] then
           (case map_find (m_heater_state bs) name of Some st \<Rightarrow> st | None \<Rightarrow> state)
         else state)"

section \<open>Saving\<close>

fun state_word :: "heater_state \<Rightarrow> string" where
  "state_word HEATER_OFF = ''off''"
| "state_word HEATER_DEFROST = ''defrost''"
| "state_word HEATER_ECO = ''eco''"
| "state_word HEATER_COMFORT = ''comfort''"

definition save_heater_line :: "string \<times> heater_state \<Rightarrow> string" where
  "save_heater_line e = ''heater_'' @ fst e @ ''_state='' @ state_word (snd e) @ [NL]"

definition save_text :: "base_station \<Rightarrow> string" where
  "save_text bs =
     ''default_heater_state='' @ state_word (m_heater_default_state bs) @ [NL]
     @ concat (map save_heater_line (m_heater_state bs))
     @ ''whitelist='' @ join (CHR '','') (m_phone_whitelist bs) @ [NL]
     @ ''emergency_phone='' @ m_emergency_phone bs @ [NL]"

text \<open>\<open>writable\<close>: whether the \<open>std::ofstream\<close> opens.\<close>

definition saveState :: "bool \<Rightarrow> base_station \<Rightarrow> base_station res" where
  "saveState writable bs =
     (if \<not> writable then (bs, [Log Err (''Could not save state to file '' @ STATE_FILE_PATH)])
      else (bs\<lparr>m_state_file := Some (save_text bs)\<rparr>,
            [Log Debug (''Saved state to file '' @ STATE_FILE_PATH)]))"

section \<open>Loading\<close>

definition parse_state_word :: "string \<Rightarrow> heater_state option" where
  "parse_state_word val =
     (if val = ''off'' then Some HEATER_OFF
      else if val = ''defrost'' then Some HEATER_DEFROST
      else if val = ''eco'' then Some HEATER_ECO
      else if val = ''comfort'' then Some HEATER_COMFORT
      else None)"

definition load_default :: "string \<Rightarrow> base_station \<Rightarrow> base_station res" where
  "load_default val bs =
     (case parse_state_word val of
        Some st \<Rightarrow> (bs\<lparr>m_heater_default_state := st\<rparr>, [])
      | None \<Rightarrow> (bs\<lparr>m_heater_default_state := HEATER_DEFROST\<rparr>,
          [Log Err ''Invalid value for default_heater_state key. Setting default_heater_state to DEFROST.'']))"

text \<open>
  The branch for a key \<open>heater_<name>_state\<close>. The prefix test gives the key seven
  characters at least, so \<open>substr(7, ...)\<close> does not throw; its length is computed in
  \<open>size_t\<close>.
\<close>

definition load_heater :: "string \<Rightarrow> string \<Rightarrow> base_station \<Rightarrow> base_station res" where
  "load_heater key val bs =
     (let name = take (size_sub (size_sub (length key) 7) 6) (drop 7 key)
      in if check_heater_name name then
           let name = map toupper name
           in (case parse_state_word val of
                 Some st \<Rightarrow> (bs\<lparr>m_heater_state := map_assign name st (m_heater_state bs)\<rparr>, [])
               | None \<Rightarrow> (bs, [Log Warn (''Invalid value '' @ [DQ] @ val @ [DQ] @ '' for heater '' @ name)]))
         else (bs, [Log Warn (''Invalid heater name '' @ [DQ] @ name @ [DQ] @ ''.'')]))"

definition load_phone :: "string \<Rightarrow> base_station \<Rightarrow> base_station res" where
  "load_phone item bs =
     (if check_phone_number_format item
      then (bs\<lparr>m_phone_whitelist := set_insert item (m_phone_whitelist bs)\<rparr>, [])
      else (bs, [Log Warn (''Invalid phone number: '' @ item)]))"

definition load_emergency :: "string \<Rightarrow> base_station \<Rightarrow> base_station res" where
  "load_emergency val bs =
     (if check_phone_number_format val then (bs\<lparr>m_emergency_phone := val\<rparr>, [])
      else (bs, [Log Warn (''Invalid emergency phone number: '' @ val)]))"

definition load_line :: "string \<Rightarrow> base_station \<Rightarrow> base_station res" where
  "load_line line bs =
     (if CHR ''='' \<notin> set line then (bs, [])
      else
        let ret = length (takeWhile (\<lambda>c. c \<noteq> CHR ''='') line);
            key = trim (take ret line);
            val = trim (drop (ret + 1) line)
        in if key = ''default_heater_state'' then load_default val bs
           else if starts_with key ''heater_'' \<and> ends_with key ''_state'' then load_heater key val bs
           else if key = ''whitelist'' then run_ops load_phone (getlines (CHR '','') val) bs
           else if key = ''emergency_phone'' then load_emergency val bs
           else (bs, [Log Warn (''Invalid key '' @ [DQ] @ key @ [DQ])]))"

definition loadState :: "base_station \<Rightarrow> (base_station \<times> bool) \<times> effect list" where
  "loadState bs =
     (case m_state_file bs of
        None \<Rightarrow> ((bs, False), [Log Err (''Could not load state from file '' @ STATE_FILE_PATH)])
      | Some content \<Rightarrow>
          (case run_ops load_line (getlines NL content) bs of
             (bs', e) \<Rightarrow> ((bs', True), e @ [Log Debug (''Loaded state from file '' @ STATE_FILE_PATH)])))"

section \<open>The constructor and the destructor\<close>

definition CHECK_STALE_CONN_PERIOD :: u32 where "CHECK_STALE_CONN_PERIOD = 5 * 60 * 1000"
definition CHECK_WIFI_PERIOD :: u32 where "CHECK_WIFI_PERIOD = 60 * 1000"
definition CHECK_LOST_DEVICES_PERIOD :: u32 where "CHECK_LOST_DEVICES_PERIOD = 60 * 60 * 1000"
definition CHECK_3G_PERIOD :: u32 where "CHECK_3G_PERIOD = 5 * 60 * 1000"
definition CHECK_DAEMON_PERIOD :: u32 where "CHECK_DAEMON_PERIOD = 5 * 60 * 1000"
definition SEND_BOOT_MSG_PERIOD :: u32 where "SEND_BOOT_MSG_PERIOD = 30 * 1000"
definition CLEANUP_SMS_PERIOD :: u32 where "CLEANUP_SMS_PERIOD = 60 * 60 * 1000"

lemmas period_defs = CHECK_STALE_CONN_PERIOD_def CHECK_WIFI_PERIOD_def CHECK_LOST_DEVICES_PERIOD_def
  CHECK_3G_PERIOD_def CHECK_DAEMON_PERIOD_def SEND_BOOT_MSG_PERIOD_def CLEANUP_SMS_PERIOD_def

text \<open>The members before the constructor's body, on a disk with the given state file.\<close>

definition station_init :: "string option \<Rightarrow> base_station" where
  "station_init disk =
     \<lparr>m_connections = [], m_commands = [], m_stale_timer = timer_new,
      m_heater_default_state = HEATER_DEFROST, m_heater_state = [], m_locked = False,
      m_phone_whitelist = [], m_emergency_phone = [], m_check_wifi_timer = timer_new,
      m_wifi_error_counter = 0, m_message_counter = 0, m_heater_counter = [], m_heaters = [],
      m_lost_devices_timer = timer_new, m_check_3g_timer = timer_new, m_3g_error_counter = 0,
      m_check_daemon_timer = timer_new, m_daemon_error_counter = 0, m_send_boot_msg = timer_new,
      m_cleanup_sms_timer = timer_new, m_state_file = disk\<rparr>"

text \<open>
  The constructor. \<open>fds\<close> are the results of \<open>timerfd_create\<close> in the order of the calls,
  \<open>rnd\<close> the random number; a timer that cannot be created throws.
\<close>

definition base_station_new :: "(nat \<Rightarrow> int) \<Rightarrow> u32 \<Rightarrow> bool \<Rightarrow> string option \<Rightarrow> exn + base_station res" where
  "base_station_new fds rnd writable disk =
     (case loadState (station_init disk) of ((bs0, loaded), e0) \<Rightarrow>
      case (if loaded then (bs0, []) else saveState writable bs0) of (bs1, e1) \<Rightarrow>
      case timer_start (fds 0) CHECK_STALE_CONN_PERIOD True timer_new of Inl x \<Rightarrow> Inl x | Inr t0 \<Rightarrow>
      case timer_start (fds 1) CHECK_WIFI_PERIOD True timer_new of Inl x \<Rightarrow> Inl x | Inr t1 \<Rightarrow>
      case timer_start (fds 2) CHECK_LOST_DEVICES_PERIOD True timer_new of Inl x \<Rightarrow> Inl x | Inr t2 \<Rightarrow>
      case timer_start (fds 3) CHECK_3G_PERIOD True timer_new of Inl x \<Rightarrow> Inl x | Inr t3 \<Rightarrow>
      case timer_start (fds 4) CHECK_DAEMON_PERIOD True timer_new of Inl x \<Rightarrow> Inl x | Inr t4 \<Rightarrow>
      case timer_start (fds 5) SEND_BOOT_MSG_PERIOD False timer_new of Inl x \<Rightarrow> Inl x | Inr t5 \<Rightarrow>
      case timer_start (fds 6) CLEANUP_SMS_PERIOD True timer_new of Inl x \<Rightarrow> Inl x | Inr t6 \<Rightarrow>
        Inr (bs1\<lparr>m_stale_timer := t0, m_check_wifi_timer := t1, m_lost_devices_timer := t2,
                 m_check_3g_timer := t3, m_check_daemon_timer := t4, m_send_boot_msg := t5,
                 m_cleanup_sms_timer := t6, m_message_counter := push_bit 32 (ucast rnd)\<rparr>,
             e0 @ e1))"

definition base_station_delete :: "base_station \<Rightarrow> effect list" where
  "base_station_delete bs = map (\<lambda>c. Close_Fd (dc_fd c)) (m_connections bs)"

section \<open>Well-formed configurations\<close>

text \<open>A heater name as the station stores it: letters and digits, upper case.\<close>

definition stored_name :: "string \<Rightarrow> bool" where
  "stored_name n \<longleftrightarrow> check_heater_name n \<and> map toupper n = n"

definition config_inv :: "base_station \<Rightarrow> bool" where
  "config_inv bs \<longleftrightarrow>
     map_inv (m_heater_state bs) \<and> (\<forall>e\<in>set (m_heater_state bs). stored_name (fst e))
   \<and> set_inv (m_phone_whitelist bs) \<and> (\<forall>p\<in>set (m_phone_whitelist bs). check_phone_number_format p)
   \<and> (m_emergency_phone bs = [] \<or> check_phone_number_format (m_emergency_phone bs))"

text \<open>What the state file holds of a station.\<close>

definition config_of :: "base_station \<Rightarrow> heater_state \<times> (string, heater_state) std_map \<times> string std_set \<times> string" where
  "config_of bs = (m_heater_default_state bs, m_heater_state bs, m_phone_whitelist bs, m_emergency_phone bs)"

lemma stored_name_toupper: "check_heater_name n \<Longrightarrow> stored_name (map toupper n)"
  by (simp add: stored_name_def)

lemma config_inv_init [simp]: "config_inv (station_init disk)"
  by (simp add: config_inv_def station_init_def)

lemma assign_stored:
  assumes "map_inv m" and "\<forall>e\<in>set m. stored_name (fst e)" and "stored_name n"
  shows "map_inv (map_assign n st m)" and "\<forall>e\<in>set (map_assign n st m). stored_name (fst e)"
proof -
  show "map_inv (map_assign n st m)" using assms(1) by (rule map_assign_inv)
  show "\<forall>e\<in>set (map_assign n st m). stored_name (fst e)"
    using set_map_assign [of n st m] assms by fastforce
qed

lemma config_inv_assign:
  "config_inv bs \<Longrightarrow> stored_name n \<Longrightarrow> config_inv (bs\<lparr>m_heater_state := map_assign n st (m_heater_state bs)\<rparr>)"
  using assign_stored [of "m_heater_state bs" n st] by (simp add: config_inv_def)

lemma config_inv_set_all:
  "config_inv bs \<Longrightarrow> config_inv (bs\<lparr>m_heater_default_state := d, m_heater_state := map_set_all st (m_heater_state bs)\<rparr>)"
  by (auto simp: config_inv_def set_map_set_all)

lemma config_inv_phone:
  "config_inv bs \<Longrightarrow> check_phone_number_format p \<Longrightarrow>
     config_inv (bs\<lparr>m_phone_whitelist := set_insert p (m_phone_whitelist bs)\<rparr>)"
  by (simp add: config_inv_def set_insert_inv)

lemma config_inv_default: "config_inv (bs\<lparr>m_heater_default_state := d\<rparr>) = config_inv bs"
  by (simp add: config_inv_def)

section \<open>Loading any file gives a well-formed configuration\<close>

lemma load_heater_inv: "config_inv bs \<Longrightarrow> config_inv (fst (load_heater key val bs))"
  by (auto simp: load_heater_def Let_def config_inv_assign stored_name_toupper split: option.splits)

interpretation load_phones: preserving load_phone config_inv
  by unfold_locales (simp add: load_phone_def config_inv_phone)

lemma load_line_inv: "config_inv bs \<Longrightarrow> config_inv (fst (load_line line bs))"
proof -
  assume inv: "config_inv bs"
  have "config_inv (fst (load_default val bs))" for val
    using inv by (simp add: load_default_def config_inv_default split: option.split)
  moreover have "config_inv (fst (load_emergency val bs))" for val
    using inv by (simp add: load_emergency_def config_inv_def)
  ultimately show ?thesis
    using inv load_heater_inv [OF inv] load_phones.run_inv [OF inv]
    by (simp add: load_line_def Let_def)
qed

interpretation load_lines: preserving load_line config_inv
  by unfold_locales (rule load_line_inv)

lemma loadState_inv: "config_inv bs \<Longrightarrow> config_inv (fst (fst (loadState bs)))"
  using load_lines.run_inv [of bs] by (auto simp: loadState_def split: option.splits prod.splits) (metis fst_conv)

section \<open>A saved configuration is loaded back\<close>

definition save_lines :: "base_station \<Rightarrow> string list" where
  "save_lines bs =
     (''default_heater_state='' @ state_word (m_heater_default_state bs))
     # map (\<lambda>e. ''heater_'' @ fst e @ ''_state='' @ state_word (snd e)) (m_heater_state bs)
     @ [''whitelist='' @ join (CHR '','') (m_phone_whitelist bs),
        ''emergency_phone='' @ m_emergency_phone bs]"

lemma save_text_lines: "save_text bs = concat (map (\<lambda>l. l @ [NL]) (save_lines bs))"
proof -
  have "concat (map save_heater_line m) =
      concat (map (\<lambda>l. l @ [NL]) (map (\<lambda>e. ''heater_'' @ fst e @ ''_state='' @ state_word (snd e)) m))" for m
    by (induction m) (simp_all add: save_heater_line_def)
  then show ?thesis by (simp add: save_text_def save_lines_def)
qed

lemma state_word_clean [simp]:
  "\<forall>c\<in>set (state_word st). \<not> isspace c" "NL \<notin> set (state_word st)" "CHR ''='' \<notin> set (state_word st)"
  by (cases st; simp add: isspace_def)+

lemma parse_state_word_word [simp]: "parse_state_word (state_word st) = Some st"
  by (cases st) (simp_all add: parse_state_word_def)

lemma join_phone_chars:
  assumes "\<forall>p\<in>set ps. check_phone_number_format p" and "c \<in> set (join (CHR '','') ps)"
  shows "\<not> isspace c \<and> c \<noteq> NL"
proof -
  have "c = CHR '','' \<or> (\<exists>p\<in>set ps. c \<in> set p)" using set_join assms(2) by fastforce
  then show ?thesis
  proof (elim disjE bexE)
    fix p assume "p \<in> set ps" and "c \<in> set p"
    then show ?thesis using assms(1) phone_chars(1,2) [of p c] by blast
  qed (simp add: isspace_def)
qed

lemma save_lines_getlines:
  assumes "config_inv bs"
  shows "getlines NL (save_text bs) = save_lines bs"
proof -
  have "NL \<notin> set l" if "l \<in> set (save_lines bs)" for l
  proof -
    have "NL \<notin> set (fst e)" if "e \<in> set (m_heater_state bs)" for e
      using that assms name_chars(2) [of "fst e" NL] by (auto simp: config_inv_def stored_name_def)
    moreover have "NL \<notin> set (join (CHR '','') (m_phone_whitelist bs))"
      using assms join_phone_chars [of "m_phone_whitelist bs" NL] by (auto simp: config_inv_def)
    moreover have "NL \<notin> set (m_emergency_phone bs)"
      using assms phone_chars(2) [of "m_emergency_phone bs" NL] by (auto simp: config_inv_def)
    ultimately show ?thesis using that by (auto simp: save_lines_def)
  qed
  then show ?thesis unfolding save_text_lines by (intro getlines_concat) blast
qed

text \<open>A line with a clean key and a clean value is read as that pair.\<close>

lemma load_line_pair:
  assumes "CHR ''='' \<notin> set key" and "\<forall>c\<in>set key. \<not> isspace c" and "\<forall>c\<in>set val. \<not> isspace c"
  shows "load_line (key @ ''='' @ val) bs =
    (if key = ''default_heater_state'' then load_default val bs
     else if starts_with key ''heater_'' \<and> ends_with key ''_state'' then load_heater key val bs
     else if key = ''whitelist'' then run_ops load_phone (getlines (CHR '','') val) bs
     else if key = ''emergency_phone'' then load_emergency val bs
     else (bs, [Log Warn (''Invalid key '' @ [DQ] @ key @ [DQ])]))"
proof -
  have "takeWhile (\<lambda>c. c \<noteq> CHR ''='') (key @ ''='' @ val) = key"
    using assms(1) by (auto simp: takeWhile_append intro: takeWhile_eq_all_conv [THEN iffD2])
  then show ?thesis using assms by (simp add: load_line_def Let_def)
qed

lemma load_default_line:
  "load_line (''default_heater_state='' @ state_word st) bs = (bs\<lparr>m_heater_default_state := st\<rparr>, [])"
proof -
  have "load_line (''default_heater_state'' @ ''='' @ state_word st) bs = load_default (state_word st) bs"
    by (subst load_line_pair) (simp_all add: isspace_lits)
  then show ?thesis by (simp add: load_default_def)
qed

lemma load_heater_line:
  assumes "stored_name n"
  shows "load_line (''heater_'' @ n @ ''_state='' @ state_word st) bs
    = (bs\<lparr>m_heater_state := map_assign n st (m_heater_state bs)\<rparr>, [])"
proof -
  let ?key = "''heater_'' @ n @ ''_state''"
  have n: "check_heater_name n" "map toupper n = n" using assms by (auto simp: stored_name_def)
  have sw: "starts_with ?key ''heater_''" by (rule starts_with_self)
  have ew: "ends_with ?key ''_state''" unfolding ends_with_iff by (rule exI [of _ "''heater_'' @ n"]) simp
  have "load_line (?key @ ''='' @ state_word st) bs = load_heater ?key (state_word st) bs"
  proof (subst load_line_pair)
    show "\<forall>c\<in>set ?key. \<not> isspace c" using name_chars(1) [OF n(1)] by (auto simp: isspace_lits)
    show "CHR ''='' \<notin> set ?key" using name_chars(3) [OF n(1)] by auto
  qed (use sw ew in simp_all)
  also have "\<dots> = (bs\<lparr>m_heater_state := map_assign n st (m_heater_state bs)\<rparr>, [])"
    using n by (simp add: load_heater_def)
  finally show ?thesis by simp
qed

lemma load_heater_lines:
  assumes "\<forall>e\<in>set es. stored_name (fst e)"
  shows "fst (run_ops load_line (map (\<lambda>e. ''heater_'' @ fst e @ ''_state='' @ state_word (snd e)) es) bs)
    = bs\<lparr>m_heater_state := fold (\<lambda>(k, v). map_assign k v) es (m_heater_state bs)\<rparr>"
  using assms
proof (induction es arbitrary: bs)
  case (Cons e es)
  then show ?case
    by (cases e) (simp add: fst_then_do load_heater_line del: append.simps)
qed simp

lemma load_phones:
  assumes "\<forall>p\<in>set ps. check_phone_number_format p"
  shows "run_ops load_phone ps bs = (bs\<lparr>m_phone_whitelist := fold set_insert ps (m_phone_whitelist bs)\<rparr>, [])"
  using assms by (induction ps arbitrary: bs) (auto simp: load_phone_def then_do_def)

lemma load_whitelist_line:
  assumes "\<forall>p\<in>set ps. check_phone_number_format p"
  shows "load_line (''whitelist='' @ join (CHR '','') ps) bs
    = (bs\<lparr>m_phone_whitelist := fold set_insert ps (m_phone_whitelist bs)\<rparr>, [])"
proof -
  have "getlines (CHR '','') (join (CHR '','') ps) = ps"
    using assms phone_chars(3) check_phone_nonempty by (intro getlines_join) blast
  moreover have "load_line (''whitelist'' @ ''='' @ join (CHR '','') ps) bs
      = run_ops load_phone (getlines (CHR '','') (join (CHR '','') ps)) bs"
    using join_phone_chars [OF assms] by (subst load_line_pair) (simp_all add: isspace_lits starts_with_def)
  ultimately show ?thesis using load_phones [OF assms] by simp
qed

lemma load_emergency_line:
  assumes "em = [] \<or> check_phone_number_format em"
  shows "fst (load_line (''emergency_phone='' @ em) bs)
    = (if em = [] then bs else bs\<lparr>m_emergency_phone := em\<rparr>)"
proof -
  have "\<forall>c\<in>set em. \<not> isspace c" using assms phone_chars(1) by auto
  then have "load_line (''emergency_phone'' @ ''='' @ em) bs = load_emergency em bs"
    by (subst load_line_pair) (simp_all add: isspace_lits starts_with_def)
  then show ?thesis using assms by (auto simp: load_emergency_def check_phone_number_format_def)
qed

lemma run_ops_append: "run_ops f (xs @ ys) s = then_do (run_ops f xs s) (run_ops f ys)"
  by (induction xs arbitrary: s) (auto simp: then_do_def split: prod.splits)

lemma load_saved:
  assumes inv: "config_inv bs" and fresh: "m_heater_state s = []" "m_phone_whitelist s = []" "m_emergency_phone s = []"
  shows "fst (run_ops load_line (getlines NL (save_text bs)) s)
    = s\<lparr>m_heater_default_state := m_heater_default_state bs, m_heater_state := m_heater_state bs,
        m_phone_whitelist := m_phone_whitelist bs, m_emergency_phone := m_emergency_phone bs\<rparr>"
proof -
  have i: "map_inv ([] @ m_heater_state bs)" "\<forall>e\<in>set (m_heater_state bs). stored_name (fst e)"
    "set_inv ([] @ m_phone_whitelist bs)" "\<forall>p\<in>set (m_phone_whitelist bs). check_phone_number_format p"
    "m_emergency_phone bs = [] \<or> check_phone_number_format (m_emergency_phone bs)"
    using inv by (auto simp: config_inv_def)
  show ?thesis
    using fresh fold_map_assign [OF i(1)] fold_set_insert [OF i(3)]
    by (simp add: save_lines_getlines [OF inv] save_lines_def run_ops_append fst_then_do
        load_default_line load_heater_lines [OF i(2)] load_whitelist_line [OF i(4)]
        load_emergency_line [OF i(5)] del: append.simps)
qed

lemma loadState_saved:
  assumes "config_inv bs"
  shows "config_of (fst (fst (loadState (station_init (Some (save_text bs)))))) = config_of bs"
    and "snd (fst (loadState (station_init (Some (save_text bs)))))"
proof -
  let ?s = "station_init (Some (save_text bs))"
  have "fst (fst (loadState ?s)) = fst (run_ops load_line (getlines NL (save_text bs)) ?s)"
    by (simp add: loadState_def station_init_def split: prod.split)
  also have "\<dots> = ?s\<lparr>m_heater_default_state := m_heater_default_state bs, m_heater_state := m_heater_state bs,
        m_phone_whitelist := m_phone_whitelist bs, m_emergency_phone := m_emergency_phone bs\<rparr>"
    by (rule load_saved [OF assms]) (simp_all add: station_init_def)
  finally show "config_of (fst (fst (loadState ?s))) = config_of bs" by (simp add: config_of_def)
  show "snd (fst (loadState ?s))" by (simp add: loadState_def station_init_def split: prod.split)
qed

section \<open>Loading touches the configuration only\<close>

definition same_rest :: "base_station \<Rightarrow> base_station \<Rightarrow> bool" where
  "same_rest bs0 bs \<longleftrightarrow> bs\<lparr>m_heater_default_state := m_heater_default_state bs0, m_heater_state := m_heater_state bs0,
     m_phone_whitelist := m_phone_whitelist bs0, m_emergency_phone := m_emergency_phone bs0\<rparr> = bs0"

lemma same_rest_fields:
  assumes "same_rest bs0 bs"
  shows "m_locked bs = m_locked bs0" "m_connections bs = m_connections bs0" "m_commands bs = m_commands bs0"
    "m_heaters bs = m_heaters bs0" "m_heater_counter bs = m_heater_counter bs0"
proof -
  note e = assms [unfolded same_rest_def]
  show "m_locked bs = m_locked bs0" using arg_cong [OF e, of m_locked] by simp
  show "m_connections bs = m_connections bs0" using arg_cong [OF e, of m_connections] by simp
  show "m_commands bs = m_commands bs0" using arg_cong [OF e, of m_commands] by simp
  show "m_heaters bs = m_heaters bs0" using arg_cong [OF e, of m_heaters] by simp
  show "m_heater_counter bs = m_heater_counter bs0" using arg_cong [OF e, of m_heater_counter] by simp
qed

interpretation load_phones_rest: preserving load_phone "same_rest bs0" for bs0
  by unfold_locales (simp add: load_phone_def same_rest_def)

interpretation load_lines_rest: preserving load_line "same_rest bs0" for bs0
proof unfold_locales
  fix bs line assume s: "same_rest bs0 bs"
  have "same_rest bs0 (fst (load_default val bs))" "same_rest bs0 (fst (load_heater key val bs))"
    "same_rest bs0 (fst (load_emergency val bs))" for key val
    using s by (simp_all add: load_default_def load_heater_def load_emergency_def same_rest_def Let_def split: option.split)
  then show "same_rest bs0 (fst (load_line line bs))"
    using s load_phones_rest.run_inv [OF s] by (simp add: load_line_def Let_def)
qed

lemma loadState_rest: "same_rest bs (fst (fst (loadState bs)))"
proof -
  have s: "same_rest bs bs" by (simp add: same_rest_def)
  show ?thesis using load_lines_rest.run_inv [OF s] s
    by (auto simp: loadState_def split: option.split prod.split) (metis fst_conv)
qed

text \<open>A started station: its configuration is the loaded one, the rest is fresh.\<close>

lemma base_station_new_state:
  assumes "base_station_new fds rnd w disk = Inr (bs, e)"
  shows "config_inv bs" "m_connections bs = []" "m_commands bs = []" "m_heaters bs = []" "m_heater_counter bs = []"
    "\<not> m_locked bs"
proof -
  let ?s = "station_init disk"
  obtain bs0 l e0 where ld: "loadState ?s = ((bs0, l), e0)" by (metis prod.collapse)
  obtain bs1 e1 where sv: "(if l then (bs0, []) else saveState w bs0) = (bs1, e1)" by (metis prod.collapse)
  have "same_rest ?s bs0" "config_inv bs0" using loadState_rest [of ?s] loadState_inv [of ?s] ld by simp_all
  moreover have "bs1 = bs0\<lparr>m_state_file := m_state_file bs1\<rparr>"
    using sv by (auto simp: saveState_def split: if_splits)
  then have "m_connections bs1 = m_connections bs0" "m_commands bs1 = m_commands bs0" "m_heaters bs1 = m_heaters bs0"
    "m_heater_counter bs1 = m_heater_counter bs0" "m_locked bs1 = m_locked bs0" "config_inv bs1 = config_inv bs0"
    by (metis base_station.select_convs base_station.surjective base_station.update_convs(21) config_inv_def)+
  moreover have "m_connections bs = m_connections bs1 \<and> m_commands bs = m_commands bs1 \<and> m_heaters bs = m_heaters bs1
      \<and> m_heater_counter bs = m_heater_counter bs1 \<and> m_locked bs = m_locked bs1 \<and> config_inv bs = config_inv bs1"
    using assms unfolding base_station_new_def ld prod.case sv by (auto simp: config_inv_def split: sum.splits)
  ultimately show "config_inv bs" "m_connections bs = []" "m_commands bs = []" "m_heaters bs = []" "m_heater_counter bs = []"
    "\<not> m_locked bs"
    using same_rest_fields [of ?s bs0] by (simp_all add: station_init_def)
qed

end
