(* ===== verification/Protocol.thy ===== *)
theory Protocol
  imports Heater
begin

text \<open>
  The 64-byte messages between the base station and the heater controllers: the packed
  header both sides copy to and from memory (\<open>message_header_t\<close> in
  \<open>base_station.cpp\<close>, \<open>message_t\<close> in \<open>commissioned.cpp\<close>), the MAC address as a number
  and back. Both processors are little-endian, which is the order \<open>memcpy\<close> gives the
  counter. The locale \<open>prefix_codec\<close> is the contract of an encoding that is read off the
  front of a buffer; the counter, the MAC address and the header are its instances.
\<close>

definition MESSAGE_SIZE :: nat where "MESSAGE_SIZE = 64"

definition REQ_HEATER_STATE :: byte where "REQ_HEATER_STATE = 1"
definition HEATER_STATE_REPLY :: byte where "HEATER_STATE_REPLY = 2"

lemmas msg_type_defs = REQ_HEATER_STATE_def HEATER_STATE_REPLY_def

locale prefix_codec =
  fixes enc :: "'a \<Rightarrow> byte list" and dec :: "byte list \<Rightarrow> 'a" and ok :: "'a \<Rightarrow> bool" and size :: nat
  assumes dec_enc: "ok x \<Longrightarrow> dec (enc x @ rest) = x"
    and length_enc: "ok x \<Longrightarrow> length (enc x) = size"
begin

lemma enc_inj: "ok x \<Longrightarrow> ok y \<Longrightarrow> enc x @ r = enc y @ r' \<longleftrightarrow> x = y \<and> r = r'"
  by (metis append_eq_append_conv dec_enc length_enc)

lemma dec_enc_exact: "ok x \<Longrightarrow> dec (enc x) = x"
  using dec_enc [of x "[]"] by simp

lemma drop_enc: "ok x \<Longrightarrow> drop size (enc x @ rest) = rest"
  by (simp add: length_enc)

lemma take_enc: "ok x \<Longrightarrow> take size (enc x @ rest) = enc x"
  by (simp add: length_enc)

end

section \<open>The counter: a little-endian 64-bit number\<close>

definition u64_bytes :: "u64 \<Rightarrow> byte list" where
  "u64_bytes w = [ucast w, ucast (drop_bit 8 w), ucast (drop_bit 16 w), ucast (drop_bit 24 w),
     ucast (drop_bit 32 w), ucast (drop_bit 40 w), ucast (drop_bit 48 w), ucast (drop_bit 56 w)]"

definition bytes_u64 :: "byte list \<Rightarrow> u64" where
  "bytes_u64 bs = ucast (bs ! 0) OR push_bit 8 (ucast (bs ! 1)) OR push_bit 16 (ucast (bs ! 2))
     OR push_bit 24 (ucast (bs ! 3)) OR push_bit 32 (ucast (bs ! 4)) OR push_bit 40 (ucast (bs ! 5))
     OR push_bit 48 (ucast (bs ! 6)) OR push_bit 56 (ucast (bs ! 7))"

text \<open>A byte cut out of a word and put back keeps its eight bits.\<close>

lemma bit_byte_back:
  "bit (push_bit k (ucast (ucast (drop_bit k w) :: byte)) :: u64) n
     \<longleftrightarrow> n < 64 \<and> k \<le> n \<and> n < k + 8 \<and> bit (w :: u64) n"
  by (auto simp: bit_simps)

lemma bit_byte_back0:
  "bit (ucast (ucast w :: byte) :: u64) n \<longleftrightarrow> n < 8 \<and> bit (w :: u64) n"
  by (auto simp: bit_simps)

lemma bytes_u64_bytes: "bytes_u64 (u64_bytes w @ rest) = w"
proof (rule bit_eqI)
  fix n assume "possible_bit TYPE(u64) n"
  then have n: "n < 64" by simp
  show "bit (bytes_u64 (u64_bytes w @ rest)) n = bit w n"
  proof (cases "bit w n")
    case True
    then show ?thesis using n
      by (simp add: bytes_u64_def u64_bytes_def bit_or_iff bit_byte_back bit_byte_back0, linarith)
  qed (simp add: bytes_u64_def u64_bytes_def bit_or_iff bit_byte_back bit_byte_back0)
qed

interpretation counter_codec: prefix_codec u64_bytes bytes_u64 "\<lambda>_. True" 8
  by unfold_locales (simp_all add: bytes_u64_bytes, simp add: u64_bytes_def)

section \<open>MAC addresses\<close>

definition mac_to_u64 :: "byte list \<Rightarrow> u64" where
  "mac_to_u64 mac =
     push_bit 40 (ucast (mac ! 0)) OR push_bit 32 (ucast (mac ! 1)) OR push_bit 24 (ucast (mac ! 2))
     OR push_bit 16 (ucast (mac ! 3)) OR push_bit 8 (ucast (mac ! 4)) OR ucast (mac ! 5)"

definition u64_to_mac :: "u64 \<Rightarrow> byte list" where
  "u64_to_mac mac = [ucast (drop_bit 40 mac), ucast (drop_bit 32 mac), ucast (drop_bit 24 mac),
     ucast (drop_bit 16 mac), ucast (drop_bit 8 mac), ucast mac]"

lemma u64_to_mac_length [simp]: "length (u64_to_mac w) = 6"
  by (simp add: u64_to_mac_def)

lemma mac_cases6:
  assumes "length mac = 6"
  obtains a b c d e f where "mac = [a, b, c, d, e, f :: byte]"
  using assms by (auto simp: numeral_eq_Suc length_Suc_conv)

lemma bit_byte_lt: "bit (b :: byte) n \<Longrightarrow> n < 8"
  using bit_imp_le_length [of b n] by simp

text \<open>A byte put at a position of a word and read back is the byte; another position has none of it.\<close>

lemma bit_byte_at:
  "bit (push_bit k (ucast (b :: byte)) :: u64) n \<longleftrightarrow> n < 64 \<and> k \<le> n \<and> n < k + 8 \<and> bit b (n - k)"
  by (auto simp: bit_simps dest: bit_byte_lt)

lemma bit_byte_at0: "bit (ucast (b :: byte) :: u64) n \<longleftrightarrow> n < 8 \<and> bit b n"
  by (auto simp: bit_simps dest: bit_byte_lt)

lemma bit_mac_to_u64:
  "bit (mac_to_u64 mac) n \<longleftrightarrow> n < 48 \<and> bit (mac ! (5 - n div 8)) (n mod 8)"
proof (cases "n < 48")
  case True
  define q r where "q = n div 8" and "r = n mod 8"
  then have n: "n = 8 * q + r" and r: "r < 8" and "q < 6" using True by auto
  from \<open>q < 6\<close> consider "q = 0" | "q = 1" | "q = 2" | "q = 3" | "q = 4" | "q = 5"
    by linarith
  then show ?thesis unfolding q_def [symmetric] r_def [symmetric] using n r
    by cases (simp_all add: mac_to_u64_def bit_or_iff bit_byte_at bit_byte_at0)
next
  case False
  then show ?thesis by (simp add: mac_to_u64_def bit_or_iff bit_byte_at bit_byte_at0)
qed

lemma bit_u64_to_mac:
  "i < 6 \<Longrightarrow> bit (u64_to_mac w ! i) n \<longleftrightarrow> n < 8 \<and> bit w (8 * (5 - i) + n)"
  by (auto simp: u64_to_mac_def bit_simps numeral_eq_Suc less_Suc_eq)

lemma u64_to_mac_to_u64:
  assumes "length mac = 6"
  shows "u64_to_mac (mac_to_u64 mac) = mac"
proof (rule nth_equalityI)
  fix i assume "i < length (u64_to_mac (mac_to_u64 mac))"
  then have i: "i < 6" by simp
  show "u64_to_mac (mac_to_u64 mac) ! i = mac ! i"
  proof (rule bit_eqI)
    fix n assume "possible_bit TYPE(byte) n"
    then have n: "n < 8" by simp
    then have "8 * (5 - i) + n < 48" "(8 * (5 - i) + n) div 8 = 5 - i" "(8 * (5 - i) + n) mod 8 = n"
      using i by auto
    then show "bit (u64_to_mac (mac_to_u64 mac) ! i) n = bit (mac ! i) n"
      using i n by (simp add: bit_u64_to_mac bit_mac_to_u64)
  qed
qed (use assms in simp)

lemma below_48_bits: "(w :: u64) < 2 ^ 48 \<longleftrightarrow> (\<forall>n \<ge> 48. \<not> bit w n)"
proof -
  have "w < 2 ^ 48 \<longleftrightarrow> uint w < 2 ^ 48"
    by (rule word_2p_lem) (simp add: word_size)
  also have "\<dots> \<longleftrightarrow> take_bit 48 (uint w) = uint w"
    by (simp add: take_bit_int_eq_self_iff)
  also have "\<dots> \<longleftrightarrow> (\<forall>n. (n < 48 \<and> bit (uint w) n) = bit (uint w) n)"
    unfolding bit_eq_iff by (simp add: bit_take_bit_iff)
  also have "\<dots> \<longleftrightarrow> (\<forall>n \<ge> 48. \<not> bit w n)"
    unfolding bit_uint_iff by (metis bit_imp_le_length not_le)
  finally show ?thesis .
qed

lemma mac_to_u64_to_mac:
  assumes "w < 2 ^ 48"
  shows "mac_to_u64 (u64_to_mac w @ rest) = w"
proof (rule bit_eqI)
  fix n assume "possible_bit TYPE(u64) n"
  show "bit (mac_to_u64 (u64_to_mac w @ rest)) n = bit w n"
  proof (cases "n < 48")
    case True
    then have "5 - n div 8 < 6" "5 - (5 - n div 8) = n div 8" by auto
    then show ?thesis using True
      by (simp add: bit_mac_to_u64 nth_append bit_u64_to_mac)
  next
    case False
    then show ?thesis using assms [unfolded below_48_bits] by (simp add: bit_mac_to_u64)
  qed
qed

lemma mac_to_u64_inj:
  "length a = 6 \<Longrightarrow> length b = 6 \<Longrightarrow> mac_to_u64 a = mac_to_u64 b \<longleftrightarrow> a = b"
  by (metis u64_to_mac_to_u64)

lemma mac_to_u64_bound: "mac_to_u64 mac < 2 ^ 48"
  unfolding below_48_bits by (simp add: bit_mac_to_u64)

interpretation mac_codec: prefix_codec u64_to_mac mac_to_u64 "\<lambda>w. w < 2 ^ 48" 6
  by unfold_locales (rule mac_to_u64_to_mac, assumption, rule u64_to_mac_length)

section \<open>The header\<close>

record message_header =
  hd_version :: byte
  hd_type :: byte
  hd_mac_addr :: "byte list"
  hd_counter :: u64

definition header_size :: nat where "header_size = 16"

text \<open>The packed struct as it lies in memory.\<close>

definition header_bytes :: "message_header \<Rightarrow> byte list" where
  "header_bytes h = [hd_version h, hd_type h] @ hd_mac_addr h @ u64_bytes (hd_counter h)"

text \<open>The reads at the start of \<open>parseMessage\<close>.\<close>

definition parse_header :: "byte list \<Rightarrow> message_header" where
  "parse_header data =
     \<lparr>hd_version = data ! 0, hd_type = data ! 1, hd_mac_addr = take 6 (drop 2 data),
      hd_counter = bytes_u64 (drop 8 data)\<rparr>"

definition header_ok :: "message_header \<Rightarrow> bool" where
  "header_ok h \<longleftrightarrow> length (hd_mac_addr h) = 6"

interpretation header_codec: prefix_codec header_bytes parse_header header_ok 16
proof unfold_locales
  fix h :: message_header and rest
  assume ok: "header_ok h"
  then obtain a b c d e f where m: "hd_mac_addr h = [a, b, c, d, e, f]"
    by (auto simp: header_ok_def elim: mac_cases6)
  show "length (header_bytes h) = 16"
    using ok by (simp add: header_bytes_def header_ok_def u64_bytes_def)
  have "bytes_u64 (u64_bytes (hd_counter h) @ rest) = hd_counter h" by (rule bytes_u64_bytes)
  then show "parse_header (header_bytes h @ rest) = h"
    by (simp add: parse_header_def header_bytes_def m)
qed

section \<open>A state as a byte\<close>

definition state_byte :: "heater_state \<Rightarrow> byte" where
  "state_byte s = of_nat (state_code s)"

definition byte_state :: "byte \<Rightarrow> heater_state option" where
  "byte_state b = (if b = 0 then Some HEATER_OFF else if b = 1 then Some HEATER_DEFROST
     else if b = 2 then Some HEATER_ECO else if b = 3 then Some HEATER_COMFORT else None)"

lemma byte_state_byte [simp]: "byte_state (state_byte s) = Some s"
  by (cases s) (simp_all add: state_byte_def byte_state_def)

lemma byte_state_Some: "byte_state b = Some s \<longleftrightarrow> b = state_byte s"
  by (cases s) (auto simp: state_byte_def byte_state_def split: if_splits)

end
