(* ===== verification/Connections.thy ===== *)
theory Connections
  imports Station_State Protocol
begin

text \<open>
  The conversation with the heater controllers: \<open>handleNewDevice\<close> queues a connection,
  \<open>handleConnections\<close> reads one message of 64 bytes from each readable one,
  \<open>parseMessage\<close> interprets it, \<open>sendHeaterState\<close> answers, \<open>checkStaleConnections\<close> closes
  the silent ones. What the system calls answer is the record \<open>conn_env\<close>: for a readable
  descriptor the results of \<open>read\<close>, the
  peer's address, the results of \<open>write\<close>, and the two clocks (\<open>ce_steady\<close> in nanoseconds,
  \<open>ce_time\<close> in seconds). The descriptors block: a \<open>read\<close> for which no byte ever comes does
  not return, nor does a \<open>write\<close> to a peer that takes no more bytes, and the operation with
  it; a \<open>write\<close> to a connection the peer has reset raises \<open>SIGPIPE\<close>, which the daemon does not
  handle.
\<close>

text \<open>A result of \<open>read\<close>: bytes (none at the end of the stream), an error, or no return.\<close>

datatype sys_read = Rd_Bytes "byte list" | Rd_Error | Rd_Never

text \<open>A result of \<open>write\<close>: the returned number, no return, or the signal.\<close>

datatype sys_write = Wr int | Wr_Never | Wr_Killed

record conn_env =
  ce_steady :: int
  ce_time :: int
  ce_readable :: "int \<Rightarrow> bool"
  ce_read :: "int \<Rightarrow> nat \<Rightarrow> sys_read"
  ce_peer :: "int \<Rightarrow> string"
  ce_write :: "int \<Rightarrow> nat \<Rightarrow> sys_write"
  ce_own_mac :: "byte list option"

section \<open>Connections\<close>

definition handleNewDevice :: "int \<Rightarrow> int \<Rightarrow> base_station \<Rightarrow> base_station" where
  "handleNewDevice now fd bs = bs\<lparr>m_connections := m_connections bs @ [\<lparr>dc_fd = fd, dc_last_seen = now\<rparr>]\<rparr>"

definition MINUTE_NS :: int where "MINUTE_NS = 60 * 1000 * 1000 * 1000"

definition is_stale :: "int \<Rightarrow> device_connection \<Rightarrow> bool" where
  "is_stale t conn \<longleftrightarrow> duration_cast (t - dc_last_seen conn) MINUTE_NS > 10"

fun drop_stale :: "int \<Rightarrow> device_connection list \<Rightarrow> device_connection list res" where
  "drop_stale t [] = ([], [])"
| "drop_stale t (conn # conns) =
     (case drop_stale t conns of (rest, e) \<Rightarrow>
        if is_stale t conn then (rest, Log Info ''Removing stale connection'' # Close_Fd (dc_fd conn) # e)
        else (conn # rest, e))"

text \<open>\<open>expired\<close>: whether \<open>poll\<close> finds the timer's descriptor readable.\<close>

definition checkStaleConnections :: "bool \<Rightarrow> int \<Rightarrow> base_station \<Rightarrow> base_station res" where
  "checkStaleConnections expired t bs =
     (if expired then
        (case drop_stale t (m_connections bs) of (conns, e) \<Rightarrow> (bs\<lparr>m_connections := conns\<rparr>, e))
      else (bs, []))"

section \<open>Answering a device\<close>

text \<open>The loop around \<open>write\<close>: \<open>w k\<close> is the result of the k-th call, a number at most what it was given.\<close>

datatype write_result = Wrote nat | Write_Blocks | Write_Killed

function write_loop :: "(nat \<Rightarrow> sys_write) \<Rightarrow> nat \<Rightarrow> nat \<Rightarrow> nat \<Rightarrow> write_result" where
  "write_loop w k goal sent =
     (if sent < goal then
        (case w k of
           Wr_Never \<Rightarrow> Write_Blocks
         | Wr_Killed \<Rightarrow> Write_Killed
         | Wr r \<Rightarrow>
             (let ret = min r (int (goal - sent))
              in if ret \<le> 0 then Wrote sent else write_loop w (Suc k) goal (sent + nat ret)))
      else Wrote sent)"
  by pat_completeness auto
termination
  by (relation "measure (\<lambda>(w, k, goal, sent). goal - sent)") (auto simp: Let_def)

declare write_loop.simps [simp del]

definition state_message :: "byte list option \<Rightarrow> u64 \<Rightarrow> heater_state \<Rightarrow> byte list" where
  "state_message own_mac counter st =
     (let header = \<lparr>hd_version = 1, hd_type = HEATER_STATE_REPLY,
            hd_mac_addr = (case own_mac of Some m \<Rightarrow> m | None \<Rightarrow> replicate 6 0), hd_counter = counter\<rparr>
      in header_bytes header @ state_byte st # replicate (MESSAGE_SIZE - header_size - 1) 0xFF)"

definition sent_log :: "nat \<Rightarrow> effect" where
  "sent_log sent = (if sent \<noteq> MESSAGE_SIZE then Log Err ''Failed to send heater state''
     else Log Debug ''Sent heater state reply to heater controller'')"

definition sendHeaterState :: "conn_env \<Rightarrow> int \<Rightarrow> heater_state \<Rightarrow> base_station \<Rightarrow> exn + base_station res" where
  "sendHeaterState env fd st bs =
     (let data = state_message (ce_own_mac env) (m_message_counter bs) st
      in case write_loop (ce_write env fd) 0 MESSAGE_SIZE 0 of
           Write_Blocks \<Rightarrow> Inl Blocked
         | Write_Killed \<Rightarrow> Inl Killed
         | Wrote sent \<Rightarrow>
             Inr (bs\<lparr>m_message_counter := m_message_counter bs + 1\<rparr>,
                  [Write_Fd fd (take sent data), sent_log sent]))"

section \<open>Parsing a message\<close>

text \<open>
  \<open>while (data[i] != 0xFF && data[i] != 0) name += toupper(data[i++])\<close>: nothing stops the
  loop at the end of the buffer, so a name with no end byte is read past it: \<open>None\<close>.
\<close>

fun parse_name :: "byte list \<Rightarrow> string option" where
  "parse_name [] = None"
| "parse_name (b # bs) =
     (if b = 0xFF \<or> b = 0 then Some []
      else map_option (\<lambda>n. toupper (char_of (unat b)) # n) (parse_name bs))"

text \<open>
  The counters are \<open>uint64_t\<close>; \<open>llabs\<close> sees their difference as a signed number. Of the smallest
  one C leaves the absolute value undefined; here it wraps to itself.
\<close>

definition llabs :: "u64 \<Rightarrow> u64" where
  "llabs w = (if w <s 0 then - w else w)"

definition rebooted :: "u64 option \<Rightarrow> u64 \<Rightarrow> bool" where
  "rebooted old new = (case old of None \<Rightarrow> False | Some o' \<Rightarrow> 100 <s llabs (new - o'))"

definition device_label :: "string \<Rightarrow> byte list \<Rightarrow> string" where
  "device_label name mac = (if name \<noteq> [] then name @ '' MAC='' else []) @ macToStr mac"

definition reboot_effects :: "string \<Rightarrow> byte list \<Rightarrow> u64 \<Rightarrow> u64 \<Rightarrow> string \<Rightarrow> effect list" where
  "reboot_effects name mac new old phone =
     [Log Warn (''It seems that device '' @ device_label name mac @ '' rebooted.''
        @ '' NEW='' @ hex_lower (unat new) @ '', OLD='' @ hex_lower (unat old)),
      Sms phone (''Warning!'' @ [NL] @ ''Device '' @ device_label name mac @ '' rebooted.'')]"

definition dump_message :: "byte list \<Rightarrow> string" where
  "dump_message data = ''data=['' @ concat (map (\<lambda>b. ''0x'' @ hex2 b @ '', '') data) @ '']''"

text \<open>The name a message of a known device is logged with.\<close>

definition known_name :: "base_station \<Rightarrow> u64 \<Rightarrow> string" where
  "known_name bs mac_addr =
     (case map_find (m_heaters bs) mac_addr of
        Some h \<Rightarrow> (if getName h \<noteq> [] then getName h @ '' '' else [])
      | None \<Rightarrow> [])"

text \<open>A name that is no heater name is logged and cleared.\<close>

definition accepted_name :: "string \<Rightarrow> string" where
  "accepted_name raw = (if raw \<noteq> [] \<and> \<not> check_heater_name raw then [] else raw)"

definition request_logs :: "string \<Rightarrow> byte list \<Rightarrow> effect list" where
  "request_logs raw mac =
     (if raw \<noteq> [] \<and> \<not> check_heater_name raw
      then [Log Err (''Invalid name parameter in HEATER_STATE_REQ from device '' @ macToStr mac)] else [])
     @ [Log Debug (''Received heater state request from device ''
          @ (if accepted_name raw \<noteq> [] then accepted_name raw @ '' '' else []) @ ''MAC='' @ macToStr mac)]"

text \<open>
  The branch of \<open>REQ_HEATER_STATE\<close> after the name is read: the state, the effects and the
  new time of the connection.
\<close>

definition handle_request :: "conn_env \<Rightarrow> int \<Rightarrow> message_header \<Rightarrow> string \<Rightarrow> base_station \<Rightarrow> exn + base_station res" where
  "handle_request env fd header raw bs =
     (let mac = hd_mac_addr header;
          mac_addr = mac_to_u64 mac;
          name = accepted_name raw;
          old = map_find (m_heater_counter bs) mac_addr;
          e3 = (if rebooted old (hd_counter header)
                then reboot_effects name mac (hd_counter header) (the old) (m_emergency_phone bs) else []);
          bs1 = bs\<lparr>m_heater_counter := map_assign mac_addr (hd_counter header) (m_heater_counter bs)\<rparr>;
          st = requested_state bs1 name;
          h = heater_update (ce_time env) st (heater_new name (ce_peer env fd));
          bs2 = bs1\<lparr>m_heaters := map_assign mac_addr h (m_heaters bs1)\<rparr>
      in case sendHeaterState env fd st bs2 of
           Inl x \<Rightarrow> Inl x
         | Inr (bs3, e4) \<Rightarrow> Inr (bs3, request_logs raw mac @ e3 @ e4))"

text \<open>
  The result: failure, or the new state, the effects and the connection, whose time a
  request renews. \<open>conn\<close> is a copy of the list's element; \<open>handleConnections\<close> puts it back.
\<close>

definition parseMessage :: "conn_env \<Rightarrow> device_connection \<Rightarrow> byte list \<Rightarrow> base_station
    \<Rightarrow> exn + (base_station \<times> device_connection) \<times> effect list" where
  "parseMessage env conn data bs =
     (let header = parse_header data;
          mac_addr = mac_to_u64 (hd_mac_addr header);
          e0 = [Log Debug (dump_message data)]
      in if hd_version header \<noteq> 1 then
           Inr ((bs, conn), e0 @ [Log Warn (''Ignoring message. Version '' @ [char_of (unat (hd_version header))]
                  @ '' not supported.'')])
         else if hd_type header = REQ_HEATER_STATE then
           (case parse_name (drop header_size data) of
              None \<Rightarrow> Inl Bad_Access
            | Some raw \<Rightarrow>
                (case handle_request env (dc_fd conn) header raw bs of
                   Inl x \<Rightarrow> Inl x
                 | Inr (bs', e) \<Rightarrow> Inr ((bs', conn\<lparr>dc_last_seen := ce_steady env\<rparr>), e0 @ e)))
         else if hd_type header = HEATER_STATE_REPLY then
           Inr ((bs, conn), e0 @ [Log Err (''Ignoring HEATER_STATE_REPLY message from device ''
                  @ known_name bs mac_addr @ macToStr (hd_mac_addr header))])
         else
           Inr ((bs, conn), e0 @ [Log Warn (''Received unknown message type '' @ [char_of (unat (hd_type header))]
                  @ '' from device '' @ known_name bs mac_addr @ macToStr (hd_mac_addr header))]))"

section \<open>Reading the messages\<close>

datatype read_result = Read_Error | Read_Eof | Read_Blocks | Read_Message "byte list"

text \<open>The loop around \<open>read\<close>: each call gives at most the bytes still missing.\<close>

function read_loop :: "(nat \<Rightarrow> sys_read) \<Rightarrow> nat \<Rightarrow> byte list \<Rightarrow> read_result" where
  "read_loop r k acc =
     (if length acc < MESSAGE_SIZE then
        (case r k of
           Rd_Error \<Rightarrow> Read_Error
         | Rd_Never \<Rightarrow> Read_Blocks
         | Rd_Bytes chunk \<Rightarrow>
             (let got = take (MESSAGE_SIZE - length acc) chunk
              in if got = [] then Read_Eof else read_loop r (Suc k) (acc @ got)))
      else Read_Message acc)"
  by pat_completeness auto
termination
proof (relation "measure (\<lambda>(r, k, acc). MESSAGE_SIZE - length acc)")
  fix r :: "nat \<Rightarrow> sys_read" and k :: nat and acc chunk got :: "byte list"
  assume "length acc < MESSAGE_SIZE" and "got = take (MESSAGE_SIZE - length acc) chunk" and "got \<noteq> []"
  moreover have "0 < length got" using \<open>got \<noteq> []\<close> by simp
  ultimately have "MESSAGE_SIZE - length (acc @ got) < MESSAGE_SIZE - length acc"
    unfolding length_append by linarith
  then show "((r, Suc k, acc @ got), (r, k, acc)) \<in> measure (\<lambda>(r, k, acc). MESSAGE_SIZE - length acc)" by simp
qed simp

declare read_loop.simps [simp del]

text \<open>
  The connection of a descriptor is the first of the list with it: the list before it, the
  connection, the list after it.
\<close>

fun split_conn :: "int \<Rightarrow> device_connection list \<Rightarrow> (device_connection list \<times> device_connection \<times> device_connection list) option" where
  "split_conn fd [] = None"
| "split_conn fd (c # cs) =
     (if dc_fd c = fd then Some ([], c, cs)
      else map_option (\<lambda>(pre, d, post). (c # pre, d, post)) (split_conn fd cs))"

definition handle_connection :: "conn_env \<Rightarrow> int \<Rightarrow> base_station \<Rightarrow> exn + base_station res" where
  "handle_connection env fd bs =
     (if \<not> ce_readable env fd then Inr (bs, [])
      else case split_conn fd (m_connections bs) of
             None \<Rightarrow> Inr (bs, [])
           | Some (pre, conn, post) \<Rightarrow>
               (case read_loop (ce_read env fd) 0 [] of
                  Read_Error \<Rightarrow> Inr (bs, [])
                | Read_Blocks \<Rightarrow> Inl Blocked
                | Read_Eof \<Rightarrow> Inr (bs\<lparr>m_connections := pre @ post\<rparr>, [Close_Fd fd])
                | Read_Message data \<Rightarrow>
                    (case parseMessage env conn data bs of
                       Inl x \<Rightarrow> Inl x
                     | Inr ((bs', conn'), e) \<Rightarrow> Inr (bs'\<lparr>m_connections := pre @ conn' # post\<rparr>, e))))"

text \<open>The descriptors are those of the list when \<open>poll\<close> is called.\<close>

fun handle_fds :: "conn_env \<Rightarrow> int list \<Rightarrow> base_station \<Rightarrow> exn + base_station res" where
  "handle_fds env [] bs = Inr (bs, [])"
| "handle_fds env (fd # fds) bs =
     (case handle_connection env fd bs of
        Inl x \<Rightarrow> Inl x
      | Inr (bs1, e) \<Rightarrow>
          (case handle_fds env fds bs1 of Inl x \<Rightarrow> Inl x | Inr (bs2, e') \<Rightarrow> Inr (bs2, e @ e')))"

text \<open>\<open>poll_ret\<close>: the result of \<open>poll\<close>.\<close>

definition handleConnections :: "int \<Rightarrow> conn_env \<Rightarrow> base_station \<Rightarrow> exn + base_station res" where
  "handleConnections poll_ret env bs =
     (if m_connections bs = [] then Inr (bs, [])
      else if poll_ret \<le> 0 then Inr (bs, [])
      else handle_fds env (map dc_fd (m_connections bs)) bs)"

end
