(* ===== verification/Connection_Props.thy ===== *)
theory Connection_Props
  imports Connections
begin

text \<open>
  Laws of the conversation with the devices: a message is put together from whatever pieces
  \<open>read\<close> gives, a request is answered with the state its name is told, what is remembered
  of a device stays well formed, and which connections are closed.
\<close>

section \<open>Reading and writing\<close>

lemma read_loop_chunks:
  assumes "concat cs @ rest = data" and "length (acc @ concat cs) = MESSAGE_SIZE" and "\<forall>c\<in>set cs. c \<noteq> []"
    and "\<forall>i < length cs. r (k + i) = Rd_Bytes (cs ! i)"
  shows "read_loop r k acc = Read_Message (acc @ concat cs)"
  using assms(2-)
proof (induction cs arbitrary: k acc)
  case Nil
  then show ?case by (simp add: read_loop.simps)
next
  case (Cons c cs)
  have r: "r k = Rd_Bytes c" using Cons.prems(3) by (auto dest: spec [of _ 0])
  have len: "length acc + length c + length (concat cs) = MESSAGE_SIZE" using Cons.prems(1) by simp
  have c: "c \<noteq> []" using Cons.prems(2) by simp
  then have "length acc < MESSAGE_SIZE" using len by (simp add: add.assoc flip: length_greater_0_conv)
  moreover have "take (MESSAGE_SIZE - length acc) c = c" using len by simp
  moreover have "read_loop r (Suc k) (acc @ c) = Read_Message ((acc @ c) @ concat cs)"
  proof (rule Cons.IH)
    show "\<forall>i < length cs. r (Suc k + i) = Rd_Bytes (cs ! i)"
      using Cons.prems(3) by (auto dest: spec [of _ "Suc _"])
  qed (use Cons.prems in simp_all)
  ultimately show ?case using r c by (subst read_loop.simps) (simp add: Let_def)
qed

lemma read_loop_blocks:
  assumes "length (acc @ concat cs) < MESSAGE_SIZE" and "\<forall>c\<in>set cs. c \<noteq> []"
    and "\<forall>i < length cs. r (k + i) = Rd_Bytes (cs ! i)" and "r (k + length cs) = Rd_Never"
  shows "read_loop r k acc = Read_Blocks"
  using assms
proof (induction cs arbitrary: k acc)
  case Nil
  then show ?case by (subst read_loop.simps) simp
next
  case (Cons c cs)
  have r: "r k = Rd_Bytes c" using Cons.prems(3) by (auto dest: spec [of _ 0])
  have "read_loop r (Suc k) (acc @ c) = Read_Blocks"
  proof (rule Cons.IH)
    show "\<forall>i < length cs. r (Suc k + i) = Rd_Bytes (cs ! i)"
      using Cons.prems(3) by (auto dest: spec [of _ "Suc _"])
  qed (use Cons.prems in simp_all)
  moreover have "take (MESSAGE_SIZE - length acc) c = c" using Cons.prems(1) by simp
  ultimately show ?case using r Cons.prems by (subst read_loop.simps) (simp add: Let_def)
qed

lemma read_loop_length: "read_loop r k acc = Read_Message data \<Longrightarrow> length acc \<le> MESSAGE_SIZE \<Longrightarrow> length data = MESSAGE_SIZE"
proof (induction r k acc rule: read_loop.induct)
  case (1 r k acc)
  show ?case
  proof (cases "length acc < MESSAGE_SIZE")
    case True
    then obtain chunk where c: "r k = Rd_Bytes chunk"
      using 1(2) by (subst (asm) read_loop.simps) (auto split: sys_read.splits)
    let ?got = "take (MESSAGE_SIZE - length acc) chunk"
    have g: "?got \<noteq> []" using 1(2) True c by (subst (asm) read_loop.simps) (auto simp: Let_def)
    have "read_loop r (Suc k) (acc @ ?got) = Read_Message data"
      using 1(2) True c g by (subst (asm) read_loop.simps) (simp add: Let_def)
    then show ?thesis using 1(1) [OF True c refl g] True by simp
  next
    case False
    then show ?thesis using 1(2,3) by (subst (asm) read_loop.simps) simp
  qed
qed

text \<open>C35: a message of 64 bytes is read whole and unchanged, however the network cuts it
  into pieces.\<close>

theorem message_reassembled:
  assumes "concat pieces = data" and "length data = MESSAGE_SIZE" and "\<forall>c\<in>set pieces. c \<noteq> []"
    and "\<forall>i < length pieces. r i = Rd_Bytes (pieces ! i)"
  shows "read_loop r 0 [] = Read_Message data"
  using read_loop_chunks [of pieces "[]" data "[]" r 0] assms by simp

lemma message_reassembled_witness:
  "read_loop (\<lambda>i. Rd_Bytes ([replicate 10 1, replicate 54 2] ! i)) 0 [] = Read_Message (replicate 10 1 @ replicate 54 2)"
  by (rule message_reassembled [of "[replicate 10 1, replicate 54 2]"]) (simp_all add: MESSAGE_SIZE_def)

text \<open>A peer that takes the bytes it is sent.\<close>

definition takes_bytes :: "(nat \<Rightarrow> sys_write) \<Rightarrow> bool" where
  "takes_bytes w \<longleftrightarrow> (\<forall>k. case w k of Wr n \<Rightarrow> 0 < n | _ \<Rightarrow> False)"

lemma write_loop_all:
  assumes "takes_bytes w" and "sent \<le> goal"
  shows "write_loop w k goal sent = Wrote goal"
  using assms
proof (induction w k goal sent rule: write_loop.induct)
  case (1 w k goal sent)
  have "case w k of Wr n \<Rightarrow> 0 < n | _ \<Rightarrow> False" using 1(2) by (simp add: takes_bytes_def)
  then obtain n where w: "w k = Wr n" "0 < n" by (cases "w k") simp_all
  then have "sent < goal \<Longrightarrow> \<not> min n (int (goal - sent)) \<le> 0" by (auto simp: min_def not_le)
  with 1 w show ?case by (subst write_loop.simps) (auto simp: Let_def)
qed

section \<open>The reply\<close>

lemma header_of_reply:
  assumes "case own of Some m \<Rightarrow> length m = 6 | None \<Rightarrow> True"
  shows "header_ok \<lparr>hd_version = 1, hd_type = HEATER_STATE_REPLY,
      hd_mac_addr = (case own of Some m \<Rightarrow> m | None \<Rightarrow> replicate 6 0), hd_counter = c\<rparr>"
  using assms by (simp add: header_ok_def split: option.splits)

lemma state_message_reads:
  assumes "case own of Some m \<Rightarrow> length m = 6 | None \<Rightarrow> True"
  shows "length (state_message own c st) = MESSAGE_SIZE"
    and "hd_version (parse_header (state_message own c st)) = 1"
    and "hd_type (parse_header (state_message own c st)) = HEATER_STATE_REPLY"
    and "hd_counter (parse_header (state_message own c st)) = c"
    and "state_message own c st ! header_size = state_byte st"
proof -
  note ok = header_of_reply [OF assms, of c]
  show "length (state_message own c st) = MESSAGE_SIZE"
    using header_codec.length_enc [OF ok] by (simp add: state_message_def Let_def MESSAGE_SIZE_def header_size_def)
  show "hd_version (parse_header (state_message own c st)) = 1"
    "hd_type (parse_header (state_message own c st)) = HEATER_STATE_REPLY"
    "hd_counter (parse_header (state_message own c st)) = c"
    unfolding state_message_def Let_def by (simp_all only: header_codec.dec_enc [OF ok] message_header.select_convs)
  show "state_message own c st ! header_size = state_byte st"
    unfolding state_message_def Let_def header_size_def
    by (simp add: nth_append header_codec.length_enc [OF ok])
qed

section \<open>The name field\<close>

definition name_end :: "byte \<Rightarrow> bool" where
  "name_end b \<longleftrightarrow> b = 0xFF \<or> b = 0"

lemma parse_name_None: "parse_name bs = None \<longleftrightarrow> (\<forall>b\<in>set bs. \<not> name_end b)"
  by (induction bs) (auto simp: name_end_def)

lemma parse_name_word:
  assumes "\<forall>b\<in>set ws. \<not> name_end b" and "name_end b"
  shows "parse_name (ws @ b # rest) = Some (map (\<lambda>b. toupper (char_of (unat b))) ws)"
  using assms by (induction ws) (auto simp: name_end_def)

lemma parse_name_upper: "parse_name bs = Some n \<Longrightarrow> map toupper n = n"
  by (induction bs arbitrary: n) (auto split: if_splits)

section \<open>What the station knows of its devices\<close>

definition device_inv :: "base_station \<Rightarrow> bool" where
  "device_inv bs \<longleftrightarrow>
     map_inv (m_heaters bs) \<and> map_inv (m_heater_counter bs)
   \<and> fst ` set (m_heaters bs) \<subseteq> fst ` set (m_heater_counter bs)
   \<and> (\<forall>e\<in>set (m_heaters bs). fst e < 2 ^ 48 \<and> (getName (snd e) = [] \<or> stored_name (getName (snd e))))"

lemma accepted_name_eq: "accepted_name raw = (if check_heater_name raw then raw else [])"
  by (simp add: accepted_name_def check_heater_name_def)

lemma accepted_name_ok: "map toupper raw = raw \<Longrightarrow> accepted_name raw = [] \<or> stored_name (accepted_name raw)"
  by (simp add: accepted_name_eq stored_name_def)

definition request_heater :: "conn_env \<Rightarrow> int \<Rightarrow> string \<Rightarrow> base_station \<Rightarrow> heater" where
  "request_heater env fd raw bs =
     heater_update (ce_time env) (requested_state bs (accepted_name raw)) (heater_new (accepted_name raw) (ce_peer env fd))"

lemma requested_state_counter [simp]:
  "requested_state (bs\<lparr>m_heater_counter := c\<rparr>) = requested_state bs"
  "requested_state (bs\<lparr>m_heaters := hs\<rparr>) = requested_state bs"
  "requested_state (bs\<lparr>m_message_counter := n\<rparr>) = requested_state bs"
  "requested_state (bs\<lparr>m_connections := cs\<rparr>) = requested_state bs"
  by (simp_all add: requested_state_def fun_eq_iff Let_def)

text \<open>The state after a request, field by field.\<close>

definition after_request :: "conn_env \<Rightarrow> int \<Rightarrow> message_header \<Rightarrow> string \<Rightarrow> base_station \<Rightarrow> base_station" where
  "after_request env fd header raw bs
   = bs\<lparr>m_heater_counter := map_assign (mac_to_u64 (hd_mac_addr header)) (hd_counter header) (m_heater_counter bs),
        m_heaters := map_assign (mac_to_u64 (hd_mac_addr header)) (request_heater env fd raw bs) (m_heaters bs),
        m_message_counter := m_message_counter bs + 1\<rparr>"

definition reboot_report :: "message_header \<Rightarrow> string \<Rightarrow> base_station \<Rightarrow> effect list" where
  "reboot_report header raw bs =
     (let old = map_find (m_heater_counter bs) (mac_to_u64 (hd_mac_addr header))
      in if rebooted old (hd_counter header)
         then reboot_effects (accepted_name raw) (hd_mac_addr header) (hd_counter header) (the old) (m_emergency_phone bs)
         else [])"

lemma quiet_logs [simp]:
  "sms_of (request_logs raw mac) = []" "bytes_to fd (request_logs raw mac) = []" "closed_fds (request_logs raw mac) = []"
  "sms_of [sent_log n] = []" "bytes_to fd [sent_log n] = []" "closed_fds [sent_log n] = []"
  by (simp_all add: request_logs_def sent_log_def)

text \<open>Its effects, when \<open>n\<close> bytes of the reply are written.\<close>

definition request_effects :: "conn_env \<Rightarrow> int \<Rightarrow> message_header \<Rightarrow> string \<Rightarrow> nat \<Rightarrow> base_station \<Rightarrow> effect list" where
  "request_effects env fd header raw n bs
     = request_logs raw (hd_mac_addr header) @ reboot_report header raw bs
       @ [Write_Fd fd (take n (state_message (ce_own_mac env) (m_message_counter bs) (requested_state bs (accepted_name raw)))),
          sent_log n]"

lemma handle_request_eq:
  "handle_request env fd header raw bs =
     (case write_loop (ce_write env fd) 0 MESSAGE_SIZE 0 of
        Write_Blocks \<Rightarrow> Inl Blocked
      | Write_Killed \<Rightarrow> Inl Killed
      | Wrote n \<Rightarrow> Inr (after_request env fd header raw bs, request_effects env fd header raw n bs))"
  by (simp add: handle_request_def Let_def sendHeaterState_def after_request_def request_effects_def
      request_heater_def reboot_report_def split: write_result.split)

lemma reboot_report_quiet [simp]: "bytes_to fd (reboot_report h raw bs) = []" "closed_fds (reboot_report h raw bs) = []"
  by (simp_all add: reboot_report_def reboot_effects_def Let_def)

lemma parse_request:
  assumes "hd_version (parse_header data) = 1" and "hd_type (parse_header data) = REQ_HEATER_STATE"
    and "parse_name (drop header_size data) = Some raw"
  shows "parseMessage env conn data bs =
    (case write_loop (ce_write env (dc_fd conn)) 0 MESSAGE_SIZE 0 of
       Write_Blocks \<Rightarrow> Inl Blocked
     | Write_Killed \<Rightarrow> Inl Killed
     | Wrote n \<Rightarrow>
         Inr ((after_request env (dc_fd conn) (parse_header data) raw bs, conn\<lparr>dc_last_seen := ce_steady env\<rparr>),
              Log Debug (dump_message data) # request_effects env (dc_fd conn) (parse_header data) raw n bs))"
  using assms by (simp add: parseMessage_def Let_def handle_request_eq split: write_result.split)

lemma parse_request_Inr:
  assumes "hd_version (parse_header data) = 1" and "hd_type (parse_header data) = REQ_HEATER_STATE"
    and "parse_name (drop header_size data) = Some raw" and "parseMessage env conn data bs = Inr ((bs', conn'), e)"
  shows "bs' = after_request env (dc_fd conn) (parse_header data) raw bs \<and> conn' = conn\<lparr>dc_last_seen := ce_steady env\<rparr>
    \<and> (\<exists>n. write_loop (ce_write env (dc_fd conn)) 0 MESSAGE_SIZE 0 = Wrote n
         \<and> e = Log Debug (dump_message data) # request_effects env (dc_fd conn) (parse_header data) raw n bs)"
  using assms(4) by (auto simp: parse_request [OF assms(1-3)] split: write_result.splits)

section \<open>Requests\<close>

text \<open>A request as a device sends it: the header, the bytes of the name, an end byte.\<close>

definition request_data :: "byte list \<Rightarrow> u64 \<Rightarrow> byte list \<Rightarrow> byte \<Rightarrow> byte list \<Rightarrow> byte list" where
  "request_data mac counter name_bytes b rest =
     header_bytes \<lparr>hd_version = 1, hd_type = REQ_HEATER_STATE, hd_mac_addr = mac, hd_counter = counter\<rparr>
     @ name_bytes @ b # rest"

definition name_of_bytes :: "byte list \<Rightarrow> string" where
  "name_of_bytes ws = map (\<lambda>b. toupper (char_of (unat b))) ws"

lemma request_data_reads:
  assumes "length mac = 6" and "\<forall>b\<in>set ws. \<not> name_end b" and "name_end b"
  shows "parse_header (request_data mac c ws b rest)
      = \<lparr>hd_version = 1, hd_type = REQ_HEATER_STATE, hd_mac_addr = mac, hd_counter = c\<rparr>"
    and "parse_name (drop header_size (request_data mac c ws b rest)) = Some (name_of_bytes ws)"
proof -
  have ok: "header_ok \<lparr>hd_version = 1, hd_type = REQ_HEATER_STATE, hd_mac_addr = mac, hd_counter = c\<rparr>"
    using assms(1) by (simp add: header_ok_def)
  show "parse_header (request_data mac c ws b rest)
      = \<lparr>hd_version = 1, hd_type = REQ_HEATER_STATE, hd_mac_addr = mac, hd_counter = c\<rparr>"
    unfolding request_data_def by (rule header_codec.dec_enc [OF ok])
  show "parse_name (drop header_size (request_data mac c ws b rest)) = Some (name_of_bytes ws)"
    unfolding request_data_def header_size_def header_codec.drop_enc [OF ok] name_of_bytes_def
    by (rule parse_name_word [OF assms(2,3)])
qed

text \<open>C12: a request is answered with one message of 64 bytes that carries version 1, the reply
  type, the station's message counter and the state the given name is told; the device and
  its counter are remembered and the connection's time is renewed.\<close>

theorem request_answered:
  assumes "device_inv bs" and "length mac = 6" and "\<forall>b\<in>set ws. \<not> name_end b" and "name_end b"
    and "takes_bytes (ce_write env (dc_fd conn))" and "case ce_own_mac env of Some m \<Rightarrow> length m = 6 | None \<Rightarrow> True"
  shows "\<exists>bs' e reply.
      parseMessage env conn (request_data mac c ws b rest) bs = Inr ((bs', conn\<lparr>dc_last_seen := ce_steady env\<rparr>), e)
    \<and> bytes_to (dc_fd conn) e = reply \<and> length reply = MESSAGE_SIZE
    \<and> hd_version (parse_header reply) = 1 \<and> hd_type (parse_header reply) = HEATER_STATE_REPLY
    \<and> hd_counter (parse_header reply) = m_message_counter bs
    \<and> byte_state (reply ! header_size) = Some (requested_state bs (accepted_name (name_of_bytes ws)))
    \<and> m_message_counter bs' = m_message_counter bs + 1
    \<and> map_find (m_heaters bs') (mac_to_u64 mac) = Some (request_heater env (dc_fd conn) (name_of_bytes ws) bs)
    \<and> map_find (m_heater_counter bs') (mac_to_u64 mac) = Some c"
proof -
  note rd = request_data_reads [OF assms(2-4), of c rest]
  let ?st = "requested_state bs (accepted_name (name_of_bytes ws))"
  let ?reply = "state_message (ce_own_mac env) (m_message_counter bs) ?st"
  note reply = state_message_reads [OF assms(6), of "m_message_counter bs" ?st]
  have w: "write_loop (ce_write env (dc_fd conn)) 0 MESSAGE_SIZE 0 = Wrote MESSAGE_SIZE"
    using assms(5) by (intro write_loop_all) simp_all
  have inv: "map_inv (m_heaters bs)" "map_inv (m_heater_counter bs)"
    using assms(1) by (simp_all add: device_inv_def)
  have "bytes_to (dc_fd conn) [Write_Fd (dc_fd conn) (take MESSAGE_SIZE ?reply), sent_log MESSAGE_SIZE] = ?reply"
    using reply(1) by (simp add: sent_log_def)
  then show ?thesis
    by (simp add: parse_request rd after_request_def request_effects_def w reply sm.find_assign inv)
qed

definition sample_conn_env :: conn_env where
  "sample_conn_env = \<lparr>ce_steady = 5, ce_time = 1700000000, ce_readable = (\<lambda>_. True), ce_read = (\<lambda>_ _. Rd_Bytes []),
     ce_peer = (\<lambda>_. ''192.168.1.40''), ce_write = (\<lambda>_ _. Wr 40), ce_own_mac = Some [1, 2, 3, 4, 5, 6]\<rparr>"

lemma device_inv_init [simp]: "device_inv (station_init disk)"
  by (simp add: device_inv_def station_init_def)

lemma request_answered_witness:
  "\<exists>bs' c' e reply. parseMessage sample_conn_env \<lparr>dc_fd = 9, dc_last_seen = 0\<rparr>
      (request_data [10, 11, 12, 13, 14, 15] 77 [72, 97, 76, 76] 0xFF (replicate 43 0xFF)) (station_init None) = Inr ((bs', c'), e)
    \<and> bytes_to 9 e = reply \<and> length reply = MESSAGE_SIZE"
  using request_answered [of "station_init None" "[10, 11, 12, 13, 14, 15]" "[72, 97, 76, 76]" "0xFF" sample_conn_env
      "\<lparr>dc_fd = 9, dc_last_seen = 0\<rparr>" 77 "replicate 43 0xFF"]
  by (auto simp: sample_conn_env_def name_end_def takes_bytes_def)

lemma parseMessage_cases:
  obtains (over_read) "hd_version (parse_header data) = 1" "hd_type (parse_header data) = REQ_HEATER_STATE"
      "parse_name (drop header_size data) = None" "parseMessage env conn data bs = Inl Bad_Access"
    | (request) raw where "hd_version (parse_header data) = 1" "hd_type (parse_header data) = REQ_HEATER_STATE"
      "parse_name (drop header_size data) = Some raw"
    | (other) e where "parseMessage env conn data bs = Inr ((bs, conn), e)" "sms_of e = []" "closed_fds e = []"
      "\<forall>fd. bytes_to fd e = []" "\<not> (hd_version (parse_header data) = 1 \<and> hd_type (parse_header data) = REQ_HEATER_STATE)"
proof (cases "hd_version (parse_header data) = 1 \<and> hd_type (parse_header data) = REQ_HEATER_STATE")
  case True
  then show ?thesis using over_read request
    by (cases "parse_name (drop header_size data)") (simp_all add: parseMessage_def Let_def)
next
  case False
  have "\<exists>e. parseMessage env conn data bs = Inr ((bs, conn), e) \<and> sms_of e = [] \<and> closed_fds e = []
      \<and> (\<forall>fd. bytes_to fd e = [])"
    using False
    by (cases "hd_version (parse_header data) = 1"; cases "hd_type (parse_header data) = HEATER_STATE_REPLY")
       (simp_all add: parseMessage_def Let_def)
  then show ?thesis using other False by blast
qed

text \<open>C34: a message of 64 bytes makes the parser read past its buffer exactly when it is a
  request of version 1 whose 48 bytes after the header hold neither a 0 nor a 0xFF.\<close>

theorem over_read_iff:
  assumes "length data = MESSAGE_SIZE"
  shows "parseMessage env conn data bs = Inl Bad_Access
    \<longleftrightarrow> data ! 0 = 1 \<and> data ! 1 = REQ_HEATER_STATE \<and> (\<forall>i. 16 \<le> i \<and> i < 64 \<longrightarrow> data ! i \<noteq> 0 \<and> data ! i \<noteq> 0xFF)"
proof -
  have h: "hd_version (parse_header data) = data ! 0" "hd_type (parse_header data) = data ! 1"
    by (simp_all add: parse_header_def)
  have "(\<forall>b\<in>set (drop 16 data). \<not> name_end b) \<longleftrightarrow> (\<forall>i. 16 \<le> i \<and> i < 64 \<longrightarrow> \<not> name_end (data ! i))"
  proof
    assume a: "\<forall>b\<in>set (drop 16 data). \<not> name_end b"
    show "\<forall>i. 16 \<le> i \<and> i < 64 \<longrightarrow> \<not> name_end (data ! i)"
    proof (intro allI impI)
      fix i :: nat assume i: "16 \<le> i \<and> i < 64"
      have "i - 16 < 48" using i by linarith
      then have "data ! i = drop 16 data ! (i - 16)" and "i - 16 < length (drop 16 data)"
        using assms i by (simp_all add: MESSAGE_SIZE_def)
      then show "\<not> name_end (data ! i)" using a nth_mem by metis
    qed
  next
    assume a: "\<forall>i. 16 \<le> i \<and> i < 64 \<longrightarrow> \<not> name_end (data ! i)"
    then show "\<forall>b\<in>set (drop 16 data). \<not> name_end b"
      using assms by (auto simp: in_set_conv_nth MESSAGE_SIZE_def)
  qed
  then have n: "parse_name (drop header_size data) = None \<longleftrightarrow> (\<forall>i. 16 \<le> i \<and> i < 64 \<longrightarrow> data ! i \<noteq> 0 \<and> data ! i \<noteq> 0xFF)"
    unfolding parse_name_None header_size_def by (auto simp: name_end_def)
  show ?thesis
    by (rule parseMessage_cases [of data env conn bs]) (use n in \<open>auto simp: h parse_request split: write_result.splits\<close>)
qed

lemma over_read_iff_witness:
  "parseMessage sample_conn_env \<lparr>dc_fd = 9, dc_last_seen = 0\<rparr> ([1, 1] @ replicate 62 65) (station_init None) = Inl Bad_Access"
proof -
  have "\<forall>i. 16 \<le> i \<and> i < 64 \<longrightarrow> ([1, 1] @ replicate 62 65 :: byte list) ! i = 65"
    by (auto simp: nth_append)
  then show ?thesis
    by (subst over_read_iff) (auto simp: MESSAGE_SIZE_def REQ_HEATER_STATE_def)
qed

lemma sint_word_of_int_eq_range: "- (2 ^ 63) \<le> i \<Longrightarrow> i < 2 ^ 63 \<Longrightarrow> sint (word_of_int i :: u64) = i"
  by (simp add: signed_take_bit_int_eq_self sint_sbintrunc')

lemma rebooted_iff:
  assumes "w \<noteq> 2 ^ 63"
  shows "100 <s llabs w \<longleftrightarrow> 100 < \<bar>sint w\<bar>"
proof (cases "w <s 0")
  case True
  have lo: "- (2 ^ 63) \<le> sint w" using sint_ge [of w] by simp
  have "sint w \<noteq> - (2 ^ 63)"
  proof
    assume "sint w = - (2 ^ 63)"
    moreover have "word_of_int (sint w) = w" by simp
    ultimately have "w = word_of_int (- (2 ^ 63))" by (simp only:)
    then show False using assms by simp
  qed
  moreover have "sint w < 0" using True by (simp add: word_sless_alt)
  ultimately have "- (2 ^ 63) \<le> - sint w" and "- sint w < 2 ^ 63" using lo by linarith+
  then have "sint (word_of_int (- sint w) :: u64) = - sint w"
    by (rule sint_word_of_int_eq_range)
  then have "sint (- w) = - sint w" by simp
  then show ?thesis using True by (simp add: llabs_def word_sless_alt)
next
  case False
  then show ?thesis by (simp add: llabs_def word_sless_alt)
qed

text \<open>C22: the warning that a device rebooted goes out exactly when its counter, seen as a signed
  64-bit difference, moved by more than 100 since its last request; it goes to the emergency
  phone, whether one is set or not. A first request never warns. A difference of exactly 2 to
  the 63 is excluded: C leaves its absolute value undefined.\<close>

theorem reboot_warning_iff:
  assumes "length mac = 6" and "\<forall>b\<in>set ws. \<not> name_end b" and "name_end b"
    and "parseMessage env conn (request_data mac c ws b rest) bs = Inr (r, e)"
    and "\<forall>old. map_find (m_heater_counter bs) (mac_to_u64 mac) = Some old \<longrightarrow> c - old \<noteq> 2 ^ 63"
  shows "sms_of e = (case map_find (m_heater_counter bs) (mac_to_u64 mac) of
        None \<Rightarrow> []
      | Some old \<Rightarrow> if \<bar>sint (c - old)\<bar> \<le> 100 then []
          else [(m_emergency_phone bs, ''Warning!'' @ [NL] @ ''Device ''
                  @ device_label (accepted_name (name_of_bytes ws)) mac @ '' rebooted.'')])"
proof -
  note rd = request_data_reads [OF assms(1-3), of c rest]
  obtain bs' conn' where "parseMessage env conn (request_data mac c ws b rest) bs = Inr ((bs', conn'), e)"
    using assms(4) by (cases r) auto
  then obtain n where "e = Log Debug (dump_message (request_data mac c ws b rest))
      # request_effects env (dc_fd conn) (parse_header (request_data mac c ws b rest)) (name_of_bytes ws) n bs"
    using parse_request_Inr [of "request_data mac c ws b rest" "name_of_bytes ws" env conn bs] rd by auto
  then have "sms_of e = sms_of (reboot_report \<lparr>hd_version = 1, hd_type = REQ_HEATER_STATE, hd_mac_addr = mac, hd_counter = c\<rparr> (name_of_bytes ws) bs)"
    by (simp add: rd request_effects_def sent_log_def)
  then show ?thesis using assms(5) rebooted_iff [of "c - _"]
    by (auto simp: reboot_report_def reboot_effects_def rebooted_def Let_def split: option.splits)
qed

lemma sample_takes_bytes: "takes_bytes (ce_write sample_conn_env fd)"
  by (simp add: sample_conn_env_def takes_bytes_def)

lemma reboot_warning_iff_witness:
  "\<exists>r e. parseMessage sample_conn_env \<lparr>dc_fd = 9, dc_last_seen = 0\<rparr>
      (request_data [10, 11, 12, 13, 14, 15] 5 [] 0 []) (station_init None\<lparr>m_heater_counter := [(mac_to_u64 [10, 11, 12, 13, 14, 15], 106)]\<rparr>) = Inr (r, e)
    \<and> length (sms_of e) = 1"
proof -
  let ?bs = "station_init None\<lparr>m_heater_counter := [(mac_to_u64 [10, 11, 12, 13, 14, 15], 106)]\<rparr>"
  have w: "write_loop (ce_write sample_conn_env 9) 0 MESSAGE_SIZE 0 = Wrote MESSAGE_SIZE"
    by (rule write_loop_all [OF sample_takes_bytes]) simp
  obtain r e where x: "parseMessage sample_conn_env \<lparr>dc_fd = 9, dc_last_seen = 0\<rparr> (request_data [10, 11, 12, 13, 14, 15] 5 [] 0 []) ?bs = Inr (r, e)"
    by (subst (asm) parse_request) (simp_all add: request_data_reads name_end_def w)
  have "\<not> \<bar>sint (5 - 106 :: u64)\<bar> \<le> 100" and "(5 - 106 :: u64) \<noteq> 2 ^ 63" by code_simp+
  then show ?thesis using reboot_warning_iff [OF _ _ _ x] x by (auto simp: name_end_def map_find_def)
qed

end
