(* ===== verification/Device_Laws.thy ===== *)
theory Device_Laws
  imports Connection_Props
begin

text \<open>
  What holds over many messages: the tables of devices stay well formed, a descriptor is
  closed exactly when its connection leaves the list, and only silent connections are
  dropped as stale.
\<close>

section \<open>The tables of devices\<close>

lemma request_heater_name: "getName (request_heater env fd raw bs) = accepted_name raw"
  by (simp add: request_heater_def)

lemma after_request_inv:
  assumes "device_inv bs" and "map toupper raw = raw"
  shows "device_inv (after_request env fd header raw bs)"
proof -
  have "accepted_name raw = [] \<or> stored_name (accepted_name raw)" by (rule accepted_name_ok [OF assms(2)])
  then have "\<forall>e\<in>set (map_assign (mac_to_u64 (hd_mac_addr header)) (request_heater env fd raw bs) (m_heaters bs)).
      fst e < 2 ^ 48 \<and> (getName (snd e) = [] \<or> stored_name (getName (snd e)))"
    using assms(1) mac_to_u64_bound [of "hd_mac_addr header"] set_map_assign
    unfolding device_inv_def by (fastforce simp: request_heater_name)
  then show ?thesis
    using assms(1) by (auto simp: device_inv_def after_request_def map_assign_inv fst_map_assign)
qed

lemma request_effects_closed [simp]: "closed_fds (request_effects env fd header raw n bs) = []"
  by (simp add: request_effects_def sent_log_def)

lemma device_inv_fields [simp]:
  "device_inv (bs\<lparr>m_connections := cs\<rparr>) = device_inv bs"
  "device_inv (bs\<lparr>m_message_counter := n\<rparr>) = device_inv bs"
  by (simp_all add: device_inv_def)

lemma parseMessage_inv:
  assumes "device_inv bs" and "parseMessage env conn data bs = Inr ((bs', conn'), e)"
  shows "device_inv bs' \<and> dc_fd conn' = dc_fd conn \<and> closed_fds e = []"
proof (rule parseMessage_cases [of data env conn bs])
  fix raw assume r: "hd_version (parse_header data) = 1" "hd_type (parse_header data) = REQ_HEATER_STATE"
    "parse_name (drop header_size data) = Some raw"
  have "device_inv (after_request env (dc_fd conn) (parse_header data) raw bs)"
    using after_request_inv [OF assms(1)] parse_name_upper [OF r(3)] by blast
  then show ?thesis using parse_request_Inr [OF r assms(2)] by auto
qed (use assms in auto)

section \<open>Closing connections\<close>

definition stream_ended :: "conn_env \<Rightarrow> int \<Rightarrow> bool" where
  "stream_ended env fd \<longleftrightarrow> ce_readable env fd \<and> read_loop (ce_read env fd) 0 [] = Read_Eof"

definition conn_fds :: "base_station \<Rightarrow> int list" where
  "conn_fds bs = map dc_fd (m_connections bs)"

lemma split_conn_Some:
  "split_conn fd cs = Some (pre, c, post) \<Longrightarrow> cs = pre @ c # post \<and> dc_fd c = fd \<and> fd \<notin> dc_fd ` set pre"
  by (induction cs arbitrary: pre) (auto split: if_splits)

lemma split_conn_None: "split_conn fd cs = None \<longleftrightarrow> fd \<notin> dc_fd ` set cs"
  by (induction cs) auto

lemma handle_connection_fds:
  assumes "handle_connection env fd bs = Inr (bs', e)" and "distinct (conn_fds bs)" and "device_inv bs"
    and "fd \<in> set (conn_fds bs)"
  shows "conn_fds bs' = filter (\<lambda>f. \<not> (f = fd \<and> stream_ended env f)) (conn_fds bs)
    \<and> closed_fds e = (if stream_ended env fd then [fd] else []) \<and> device_inv bs'"
proof (cases "ce_readable env fd")
  case False
  then show ?thesis using assms by (auto simp: handle_connection_def stream_ended_def intro: filter_True [symmetric])
next
  case True
  obtain pre conn post where s: "split_conn fd (m_connections bs) = Some (pre, conn, post)"
    using assms(4) split_conn_None [of fd "m_connections bs"]
    by (cases "split_conn fd (m_connections bs)") (auto simp: conn_fds_def)
  note sp = split_conn_Some [OF s]
  have notin: "fd \<notin> dc_fd ` set pre" "fd \<notin> dc_fd ` set post"
    using sp assms(2) by (auto simp: conn_fds_def)
  then have keep: "filter (\<lambda>f. \<not> (f = fd \<and> stream_ended env f)) (map dc_fd pre) = map dc_fd pre"
    "filter (\<lambda>f. \<not> (f = fd \<and> stream_ended env f)) (map dc_fd post) = map dc_fd post"
    by (metis (mono_tags, lifting) filter_True list.set_map)+
  show ?thesis
  proof (cases "read_loop (ce_read env fd) 0 []")
    case Read_Error
    then show ?thesis using assms True s
      by (auto simp: handle_connection_def stream_ended_def intro!: filter_True [symmetric])
  next
    case Read_Eof
    then have se: "stream_ended env fd" using True by (simp add: stream_ended_def)
    have "conn_fds bs = map dc_fd pre @ fd # map dc_fd post" using sp by (simp add: conn_fds_def)
    then have "filter (\<lambda>f. \<not> (f = fd \<and> stream_ended env f)) (conn_fds bs) = map dc_fd pre @ map dc_fd post"
      using se keep by simp
    then show ?thesis using assms True s Read_Eof se by (auto simp: handle_connection_def conn_fds_def)
  next
    case Read_Blocks
    then show ?thesis using assms(1) True s by (simp add: handle_connection_def)
  next
    case (Read_Message data)
    then have se: "\<not> stream_ended env fd" by (simp add: stream_ended_def)
    obtain bs1 conn' e1 where p: "parseMessage env conn data bs = Inr ((bs1, conn'), e1)"
      using assms(1) True s Read_Message by (auto simp: handle_connection_def split: sum.splits)
    have "conn_fds bs' = conn_fds bs" "closed_fds e = []" "device_inv bs'"
      using parseMessage_inv [OF assms(3) p] assms(1) True s Read_Message p sp
      by (auto simp: handle_connection_def conn_fds_def)
    then show ?thesis using se by (auto intro!: filter_True [symmetric])
  qed
qed

lemma handle_fds_closes:
  assumes "handle_fds env fds bs = Inr (bs', e)" and "distinct (conn_fds bs)" and "device_inv bs"
    and "distinct fds" and "set fds \<subseteq> set (conn_fds bs)"
  shows "conn_fds bs' = filter (\<lambda>f. \<not> (f \<in> set fds \<and> stream_ended env f)) (conn_fds bs)
    \<and> closed_fds e = filter (stream_ended env) fds \<and> device_inv bs'"
  using assms
proof (induction fds arbitrary: bs e)
  case (Cons fd fds)
  obtain bs1 e1 e2 where h: "handle_connection env fd bs = Inr (bs1, e1)"
    and r: "handle_fds env fds bs1 = Inr (bs', e2)" and e: "e = e1 @ e2"
    using Cons.prems(1) by (auto split: sum.splits)
  have one: "conn_fds bs1 = filter (\<lambda>f. \<not> (f = fd \<and> stream_ended env f)) (conn_fds bs)"
    "closed_fds e1 = (if stream_ended env fd then [fd] else [])" "device_inv bs1"
    using handle_connection_fds [OF h Cons.prems(2,3)] Cons.prems(5) by auto
  have "conn_fds bs' = filter (\<lambda>f. \<not> (f \<in> set fds \<and> stream_ended env f)) (conn_fds bs1)
      \<and> closed_fds e2 = filter (stream_ended env) fds \<and> device_inv bs'"
    using one Cons.prems by (intro Cons.IH [OF r]) auto
  then show ?case using one e by (auto intro: filter_cong)
qed (auto intro: filter_True [symmetric])

text \<open>C17: a pass over the connections closes exactly the descriptors whose stream ended, each
  once, and removes exactly their connections; the others stay in order.\<close>

theorem ended_connections_closed:
  assumes "handleConnections poll_ret env bs = Inr (bs', e)" and "0 < poll_ret"
    and "distinct (conn_fds bs)" and "device_inv bs"
  shows "conn_fds bs' = filter (\<lambda>fd. \<not> stream_ended env fd) (conn_fds bs)
    \<and> closed_fds e = filter (stream_ended env) (conn_fds bs) \<and> device_inv bs'"
proof (cases "m_connections bs = []")
  case True
  then show ?thesis using assms by (auto simp: handleConnections_def conn_fds_def)
next
  case False
  then have "handle_fds env (conn_fds bs) bs = Inr (bs', e)"
    using assms by (simp add: handleConnections_def conn_fds_def)
  from handle_fds_closes [OF this assms(3,4,3)] show ?thesis by (auto intro: filter_cong)
qed

lemma ended_connections_closed_witness:
  "\<exists>bs' e. handleConnections 1 sample_conn_env (station_init None\<lparr>m_connections := [\<lparr>dc_fd = 9, dc_last_seen = 0\<rparr>]\<rparr>) = Inr (bs', e)
    \<and> conn_fds bs' = [] \<and> closed_fds e = [9]"
proof -
  let ?bs = "station_init None\<lparr>m_connections := [\<lparr>dc_fd = 9, dc_last_seen = 0\<rparr>]\<rparr>"
  have r: "read_loop (ce_read sample_conn_env 9) 0 [] = Read_Eof"
    by (subst read_loop.simps) (simp add: sample_conn_env_def MESSAGE_SIZE_def)
  then have x: "handleConnections 1 sample_conn_env ?bs = Inr (?bs\<lparr>m_connections := []\<rparr>, [Close_Fd 9])"
    by (simp add: handleConnections_def handle_connection_def) (simp add: sample_conn_env_def)
  have "device_inv ?bs" by simp
  then show ?thesis
    using ended_connections_closed [OF x] r x by (simp add: conn_fds_def stream_ended_def sample_conn_env_def)
qed

section \<open>Stale connections\<close>

lemma stale_iff: "is_stale t c \<longleftrightarrow> 11 * MINUTE_NS \<le> t - dc_last_seen c"
  using duration_cast_ge [of MINUTE_NS 11 "t - dc_last_seen c"] by (auto simp: is_stale_def MINUTE_NS_def)

lemma drop_stale_eq:
  "fst (drop_stale t cs) = filter (\<lambda>c. \<not> is_stale t c) cs"
  "closed_fds (snd (drop_stale t cs)) = map dc_fd (filter (is_stale t) cs)"
  "sms_of (snd (drop_stale t cs)) = []"
  by (induction cs) (auto split: prod.split)

text \<open>C40: when its timer fires, the station closes and removes exactly the connections that
  made no request for eleven full minutes (more than ten, truncated to minutes); otherwise
  it closes none.\<close>

theorem stale_connections_closed:
  "m_connections (fst (checkStaleConnections expired t bs))
     = filter (\<lambda>c. \<not> (expired \<and> 11 * MINUTE_NS \<le> t - dc_last_seen c)) (m_connections bs)
   \<and> closed_fds (snd (checkStaleConnections expired t bs))
     = map dc_fd (filter (\<lambda>c. expired \<and> 11 * MINUTE_NS \<le> t - dc_last_seen c) (m_connections bs))"
  using drop_stale_eq [of t "m_connections bs"]
  by (cases expired; cases "drop_stale t (m_connections bs)") (simp_all add: checkStaleConnections_def flip: stale_iff)

lemma checkStale_frame:
  "fst (checkStaleConnections expired t bs) = bs\<lparr>m_connections := m_connections (fst (checkStaleConnections expired t bs))\<rparr>"
  "sms_of (snd (checkStaleConnections expired t bs)) = []"
  using drop_stale_eq(3) [of t "m_connections bs"] by (auto simp: checkStaleConnections_def split: prod.split)

end
