(* ===== verification/Monitors.thy ===== *)
theory Monitors
  imports Station_State Protocol
begin

text \<open>
  The periodic checks of the main loop: the wireless interface (\<open>checkWifi\<close>), devices that
  fell silent (\<open>checkLostDevices\<close>), the modem (\<open>check3G\<close>, with the dialogue of
  \<open>check_3g_connection\<close> on its serial port), the SMS daemon (\<open>checkSMSDaemon\<close>, with the search
  through \<open>/proc\<close>), the message at start-up and the clean-up of sent messages. Each takes
  whether \<open>poll\<close> found its timer expired, and what the system calls answer.
\<close>

definition WIFI_ERROR_THRESHOLD :: u32 where "WIFI_ERROR_THRESHOLD = 15"
definition DEVICE_LOST_THRESHOLD :: u32 where "DEVICE_LOST_THRESHOLD = 24 * 60 * 60"
definition MODULE_3G_ERROR_THRESHOLD :: u32 where "MODULE_3G_ERROR_THRESHOLD = 6"
definition DAEMON_ERROR_THRESHOLD :: u32 where "DAEMON_ERROR_THRESHOLD = 6"
definition FALLBACK_HEATER_STATE :: heater_state where "FALLBACK_HEATER_STATE = HEATER_DEFROST"
definition NETWORK_INTERFACE_NAME :: string where "NETWORK_INTERFACE_NAME = ''wlan0''"

lemmas threshold_defs = WIFI_ERROR_THRESHOLD_def DEVICE_LOST_THRESHOLD_def MODULE_3G_ERROR_THRESHOLD_def
  DAEMON_ERROR_THRESHOLD_def FALLBACK_HEATER_STATE_def

text \<open>Seconds as hours, minutes and seconds.\<close>

definition hms :: "u32 \<Rightarrow> string" where
  "hms secs =
     (let hours = secs div 3600;
          secs = secs - hours * 3600;
          mins = secs div 60;
          secs = secs - mins * 60
      in dec (unat hours) @ ''h'' @ dec (unat mins) @ ''m'' @ dec (unat secs) @ ''s'')"

section \<open>The wireless interface\<close>

definition IFF_UP :: "16 word" where "IFF_UP = 0x1"
definition IFF_RUNNING :: "16 word" where "IFF_RUNNING = 0x40"

definition up_and_running :: "16 word \<Rightarrow> bool" where
  "up_and_running flags \<longleftrightarrow> flags AND (IFF_UP OR IFF_RUNNING) = IFF_UP OR IFF_RUNNING"

text \<open>\<open>flags\<close>: what \<open>SIOCGIFFLAGS\<close> gives, \<open>None\<close> when it fails.\<close>

definition checkWifi :: "bool \<Rightarrow> 16 word option \<Rightarrow> base_station \<Rightarrow> base_station res" where
  "checkWifi expired flags bs =
     (if \<not> expired then (bs, [])
      else case flags of
        None \<Rightarrow> (bs, [Log Err (''Cannot check connection status of network interface '' @ NETWORK_INTERFACE_NAME)])
      | Some fl \<Rightarrow>
          if \<not> up_and_running fl then
            (let n = m_wifi_error_counter bs + 1;
                 lost = hms (WIFI_ERROR_THRESHOLD * CHECK_WIFI_PERIOD div 1000)
             in (bs\<lparr>m_wifi_error_counter := n\<rparr>,
                 if n = WIFI_ERROR_THRESHOLD then
                   Log Err (''Lost WiFi connection for past '' @ lost)
                   # (if m_emergency_phone bs \<noteq> [] then
                        [Sms (m_emergency_phone bs)
                          (''Error! Base station lost WiFi connection for past '' @ lost @ ''. ''
                           @ ''Heaters cannot be controlled (they will switch to DEFROST mode automatically).'')]
                      else [])
                 else []))
          else
            (bs\<lparr>m_wifi_error_counter := 0\<rparr>,
             if m_wifi_error_counter bs \<noteq> 0 then
               Log Info ''WiFi connection restored''
               # (if m_emergency_phone bs \<noteq> [] then
                    [Sms (m_emergency_phone bs) ''Base station restored WiFi connection. System is now running ok.'']
                  else [])
             else []))"

section \<open>Lost devices\<close>

definition is_lost :: "int \<Rightarrow> heater \<Rightarrow> bool" where
  "is_lost now h \<longleftrightarrow> \<not> now - getLastRequestTimestamp h < uint DEVICE_LOST_THRESHOLD"

text \<open>The loop over the map: the devices that stay, and those erased from it with their names.\<close>

fun take_lost :: "int \<Rightarrow> (u64, heater) std_map \<Rightarrow> (u64, heater) std_map \<times> (u64, string) std_map" where
  "take_lost now [] = ([], [])"
| "take_lost now ((mac, h) # hs) =
     (case take_lost now hs of (kept, lost) \<Rightarrow>
        if \<not> is_lost now h then ((mac, h) # kept, lost)
        else (kept, map_assign mac (getName h) lost))"

definition lost_log :: "u64 \<times> string \<Rightarrow> effect" where
  "lost_log d = Log Warn (''Did not receive valid message from device ''
     @ (if snd d \<noteq> [] then snd d @ '' '' else []) @ ''MAC='' @ macToStr (u64_to_mac (fst d))
     @ '' for more than '' @ hms DEVICE_LOST_THRESHOLD)"

fun lost_list :: "(u64 \<times> string) list \<Rightarrow> string" where
  "lost_list [] = []"
| "lost_list (d # ds) =
     (if snd d \<noteq> [] then snd d else macToStr (u64_to_mac (fst d)))
     @ (if ds \<noteq> [] then '', '' else []) @ lost_list ds"

definition checkLostDevices :: "bool \<Rightarrow> int \<Rightarrow> base_station \<Rightarrow> base_station res" where
  "checkLostDevices expired now bs =
     (if \<not> expired then (bs, [])
      else case take_lost now (m_heaters bs) of (kept, lost) \<Rightarrow>
        (bs\<lparr>m_heaters := kept\<rparr>,
         map lost_log lost
         @ (if m_emergency_phone bs \<noteq> [] \<and> lost \<noteq> [] then
              [Sms (m_emergency_phone bs)
                ((if length lost > 1 then ''WARNING! Lost connection with %d devices: ''
                  else ''WARNING! Lost connection with one device: '') @ lost_list lost)]
            else [])))"

section \<open>The modem\<close>

datatype modem_status_t =
    MODEM_COMS_FAILURE
  | MODEM_SIM_ERROR
  | MODEM_NETWORK_NOT_REGISTERED
  | MODEM_NETWORK_DENIED
  | MODEM_NETWORK_REGISTERED
  | MODEM_NETWORK_SEARCHING
  | MODEM_NETWORK_UNKNOWN
  | MODEM_NETWORK_ROAMING

text \<open>
  The serial port. \<open>me_reads k\<close> are the results of \<open>read\<close> in the k-th exchange, up to the
  first that gives nothing; \<open>me_sent\<close> is what \<open>write\<close> returns for a command.
\<close>

record modem_env =
  me_present :: bool
  me_open :: int
  me_getattr_old :: int
  me_getattr_new :: int
  me_configured :: bool
  me_sent :: "string \<Rightarrow> int"
  me_reads :: "nat \<Rightarrow> string list"

text \<open>\<open>buf\<close> holds 31 characters and a terminator.\<close>

definition modem_reply :: "string list \<Rightarrow> string" where
  "modem_reply reads = concat (map (\<lambda>r. c_str (take 31 r)) reads)"

definition CRLF :: string where "CRLF = [CHR 0x0D, CHR 0x0A]"

definition sent_whole :: "modem_env \<Rightarrow> string \<Rightarrow> bool" where
  "sent_whole env cmd \<longleftrightarrow> me_sent env cmd = int (length cmd)"

definition creg_status :: "string \<Rightarrow> modem_status_t" where
  "creg_status reply =
     (if str_contains reply ''+CREG: 0,0'' then MODEM_NETWORK_NOT_REGISTERED
      else if str_contains reply ''+CREG: 0,1'' then MODEM_NETWORK_REGISTERED
      else if str_contains reply ''+CREG: 0,2'' then MODEM_NETWORK_SEARCHING
      else if str_contains reply ''+CREG: 0,3'' then MODEM_NETWORK_DENIED
      else if str_contains reply ''+CREG: 0,4'' then MODEM_NETWORK_UNKNOWN
      else if str_contains reply ''+CREG: 0,5'' then MODEM_NETWORK_ROAMING
      else MODEM_NETWORK_UNKNOWN)"

definition check_3g_connection :: "modem_env \<Rightarrow> modem_status_t" where
  "check_3g_connection env =
     (let status = MODEM_COMS_FAILURE
      in if me_open env < 0 then status
         else if me_getattr_old env < 0 then status
         else if me_getattr_new env < 0 then status
         else if \<not> me_configured env then status
         else if \<not> sent_whole env (''AT'' @ CRLF) then status
         else if \<not> str_contains (modem_reply (me_reads env 0)) ''OK'' then status
         else if \<not> sent_whole env (''AT+CPIN?'' @ CRLF) then status
         else if \<not> str_contains (modem_reply (me_reads env 1)) ''+CPIN: READY'' then status
         else if \<not> sent_whole env (''AT+CREG?'' @ CRLF) then status
         else creg_status (modem_reply (me_reads env 2)))"

definition fallback_all :: "base_station \<Rightarrow> base_station" where
  "fallback_all bs = bs\<lparr>m_heater_default_state := FALLBACK_HEATER_STATE,
     m_heater_state := map_set_all FALLBACK_HEATER_STATE (m_heater_state bs)\<rparr>"

definition recovered_text :: string where
  "recovered_text = ''INFO! All heaters were set to '' @ state_label FALLBACK_HEATER_STATE
     @ '' mode due to earlier 3G module errors''"

definition check3G :: "bool \<Rightarrow> modem_env \<Rightarrow> base_station \<Rightarrow> base_station res" where
  "check3G expired env bs =
     (if \<not> expired then (bs, [])
      else if \<not> me_present env then
        (let n = m_3g_error_counter bs + 1;
             bs1 = bs\<lparr>m_3g_error_counter := n\<rparr>
         in if n = MODULE_3G_ERROR_THRESHOLD then
              (fallback_all bs1,
               [Log Err (''3G module not detected for the last ''
                  @ hms (CHECK_3G_PERIOD * MODULE_3G_ERROR_THRESHOLD div 1000)),
                Log Info (''Setting all heaters to '' @ state_label FALLBACK_HEATER_STATE
                  @ '' mode due to 3G module not being detected.'')])
            else (bs1, []))
      else
        (let status = check_3g_connection env
         in if status = MODEM_NETWORK_REGISTERED \<or> status = MODEM_NETWORK_ROAMING then
              (bs\<lparr>m_3g_error_counter := 0\<rparr>,
               if m_3g_error_counter bs \<ge> MODULE_3G_ERROR_THRESHOLD
               then [Log Info recovered_text, Sms (m_emergency_phone bs) recovered_text] else [])
            else (bs, [])))"

section \<open>The SMS daemon\<close>

text \<open>An entry of \<open>/proc\<close>: \<open>atol\<close> of its name, and what reading its \<open>stat\<close> file gives.\<close>

datatype stat_file = Stat_Missing | Stat_Malformed | Stat_Name string

fun find_process :: "string \<Rightarrow> (int \<times> stat_file) list \<Rightarrow> bool" where
  "find_process name [] = False"
| "find_process name ((lpid, st) # entries) =
     (if lpid < 0 then find_process name entries
      else case st of
        Stat_Missing \<Rightarrow> find_process name entries
      | Stat_Malformed \<Rightarrow> False
      | Stat_Name pname \<Rightarrow> if pname = name then True else find_process name entries)"

definition is_process_running :: "(int \<times> stat_file) list option \<Rightarrow> string \<Rightarrow> bool" where
  "is_process_running proc name =
     (case proc of None \<Rightarrow> False | Some entries \<Rightarrow> find_process name entries)"

definition proc_log :: "(int \<times> stat_file) list option \<Rightarrow> effect list" where
  "proc_log proc = (case proc of None \<Rightarrow> [Log Err ''can't open /proc''] | Some _ \<Rightarrow> [])"

definition checkSMSDaemon :: "bool \<Rightarrow> (int \<times> stat_file) list option \<Rightarrow> base_station \<Rightarrow> base_station res" where
  "checkSMSDaemon expired proc bs =
     (if \<not> expired then (bs, [])
      else if \<not> is_process_running proc ''smsd'' then
        (let n = m_daemon_error_counter bs + 1;
             bs1 = bs\<lparr>m_daemon_error_counter := n\<rparr>
         in if n = DAEMON_ERROR_THRESHOLD then
              (fallback_all bs1,
               proc_log proc
               @ [Log Err (''smstools not running for the last ''
                    @ hms (CHECK_DAEMON_PERIOD * DAEMON_ERROR_THRESHOLD div 1000)),
                  Log Info (''Setting all heaters to '' @ state_label FALLBACK_HEATER_STATE
                    @ '' mode due to SMS daemon not running.'')])
            else (bs1, proc_log proc))
      else
        (bs\<lparr>m_daemon_error_counter := 0\<rparr>,
         if m_daemon_error_counter bs \<noteq> 0 then
           Log Info recovered_text
           # (if m_emergency_phone bs \<noteq> [] then [Sms (m_emergency_phone bs) recovered_text] else [])
         else []))"

section \<open>The message at start-up and the clean-up\<close>

definition boot_text :: "base_station \<Rightarrow> string" where
  "boot_text bs =
     ''INFO! Base station software started'' @ [NL]
     @ ''Default heater state: '' @ state_label (m_heater_default_state bs) @ [NL]
     @ concat (map (\<lambda>e. ''Heater '' @ fst e @ '' state: '' @ state_label (snd e) @ [NL]) (m_heater_state bs))"

definition sendBootMsg :: "bool \<Rightarrow> base_station \<Rightarrow> base_station res" where
  "sendBootMsg expired bs =
     (if \<not> expired then (bs, [])
      else (bs, if m_emergency_phone bs \<noteq> [] then [Sms (m_emergency_phone bs) (boot_text bs)] else []))"

definition cleanupSMS_tick :: "bool \<Rightarrow> base_station \<Rightarrow> base_station res" where
  "cleanupSMS_tick expired bs = (bs, if expired then [Cleanup_Sms] else [])"

end
