(* ===== verification/Error_Monitor.thy ===== *)
theory Error_Monitor
  imports Effects
begin

text \<open>
  The contract of a check that counts failures and acts when the count reaches a threshold.
  The base station has three such checks (the wireless interface, the modem, the SMS daemon)
  and the heater firmware one (the requests to the base station); each is an instance in the
  theory of its laws. \<open>error_monitor\<close> gives the messages a run of failures sends,
  \<open>fallback_monitor\<close> the state it forces.
\<close>

locale error_monitor =
  fixes tick :: "'o \<Rightarrow> 's \<Rightarrow> 's res"
    and counter :: "'s \<Rightarrow> u32"
    and failing :: "'o \<Rightarrow> bool"
    and keep :: "'s \<Rightarrow> 'k"
    and alarm :: "'k \<Rightarrow> (string \<times> string) list"
    and threshold :: u32
  assumes fail_counter: "failing ob \<Longrightarrow> counter (fst (tick ob s)) = counter s + 1"
    and fail_keep: "failing ob \<Longrightarrow> keep (fst (tick ob s)) = keep s"
    and fail_sms: "failing ob \<Longrightarrow> sms_of (snd (tick ob s)) = (if counter s + 1 = threshold then alarm (keep s) else [])"
    and threshold_pos: "0 < threshold"
begin

lemma run_counter:
  assumes "\<forall>ob\<in>set obs. failing ob"
  shows "counter (fst (run_ops tick obs s)) = counter s + of_nat (length obs)"
    and "keep (fst (run_ops tick obs s)) = keep s"
  using assms by (induction obs arbitrary: s) (simp_all add: fst_then_do fail_counter fail_keep)

text \<open>A run of failures that starts at a count below the threshold alarms once, when it gets there.\<close>

lemma run_alarm:
  assumes "\<forall>ob\<in>set obs. failing ob" and "unat (counter s) + length obs < 2 ^ 32"
  shows "sms_of (snd (run_ops tick obs s))
    = (if unat (counter s) < unat threshold \<and> unat threshold \<le> unat (counter s) + length obs then alarm (keep s) else [])"
  using assms
proof (induction obs arbitrary: s)
  case (Cons ob obs)
  let ?s = "fst (tick ob s)"
  have f: "failing ob" using Cons.prems(1) by simp
  have lt: "unat (counter s) + 1 < 2 ^ 32" using Cons.prems(2) by simp
  then have c: "unat (counter ?s) = unat (counter s) + 1"
    unfolding fail_counter [OF f] by (simp add: unat_word_ariths)
  have hit: "counter s + 1 = threshold \<longleftrightarrow> unat (counter s) + 1 = unat threshold"
    using c fail_counter [OF f] by (metis word_unat_eq_iff)
  have "sms_of (snd (run_ops tick obs ?s)) = (if unat (counter ?s) < unat threshold
      \<and> unat threshold \<le> unat (counter ?s) + length obs then alarm (keep ?s) else [])"
    using Cons.prems c by (intro Cons.IH) simp_all
  then show ?case
    using hit by (auto simp: snd_then_do fail_sms [OF f] fail_keep [OF f] c)
qed auto

lemma run_alarm_once:
  assumes "\<forall>ob\<in>set obs. failing ob" and "counter s = 0" and "length obs < 2 ^ 32"
  shows "sms_of (snd (run_ops tick obs s)) = (if unat threshold \<le> length obs then alarm (keep s) else [])"
  using run_alarm [OF assms(1), of s] assms(2,3) threshold_pos by (simp add: word_less_nat_alt)

end

locale fallback_monitor = error_monitor +
  fixes forced :: "'b \<Rightarrow> bool"
  assumes fail_forces: "failing ob \<Longrightarrow> counter s + 1 = threshold \<Longrightarrow> forced (fst (tick ob s))"
    and fail_stays: "failing ob \<Longrightarrow> forced s \<Longrightarrow> forced (fst (tick ob s))"
begin

lemma run_stays: "\<forall>ob\<in>set obs. failing ob \<Longrightarrow> forced s \<Longrightarrow> forced (fst (run_ops tick obs s))"
  by (induction obs arbitrary: s) (simp_all add: fst_then_do fail_stays)

lemma run_forces:
  assumes "\<forall>ob\<in>set obs. failing ob" and "unat (counter s) < unat threshold"
    and "unat threshold \<le> unat (counter s) + length obs"
  shows "forced (fst (run_ops tick obs s))"
  using assms
proof (induction obs arbitrary: s)
  case (Cons ob obs)
  let ?s = "fst (tick ob s)"
  have f: "failing ob" using Cons.prems(1) by simp
  have "unat threshold < 2 ^ LENGTH(32)" by (rule unsigned_less)
  then have "unat (counter s) + 1 < 2 ^ 32" using Cons.prems(2) by simp
  then have c: "unat (counter ?s) = unat (counter s) + 1"
    unfolding fail_counter [OF f] by (simp add: unat_word_ariths)
  show ?case
  proof (cases "counter s + 1 = threshold")
    case True
    then show ?thesis using fail_forces [OF f True] run_stays Cons.prems(1) by (simp add: fst_then_do)
  next
    case False
    then have "unat (counter ?s) \<noteq> unat threshold" using fail_counter [OF f, of s] by (metis word_unat_eq_iff)
    then show ?thesis using Cons.IH [of ?s] Cons.prems c by (simp add: fst_then_do)
  qed
qed simp

end

end
