(* ===== verification/Commands.thy ===== *)
theory Commands
  imports Station_State
begin

text \<open>
  The SMS commands: \<open>handleSMSCommand\<close> queues a message, \<open>parseCommands\<close> takes the messages
  off the queue, drops those of unknown phones while the station is locked, normalises the
  text and runs the command. One definition per group of branches, in the order of the
  source. A reply is an \<open>Sms\<close> effect. What a command reads from the system (the outputs of
  the shell commands, the uptime, whether the state file can be written) is the record
  \<open>cmd_env\<close>; each message of the queue has its own. An index or a \<open>substr\<close> past the end is
  a failure \<open>Inl\<close>, and the lemmas show that no message reaches one.
\<close>

record cmd_env =
  ce_git_hash :: string
  ce_build_time :: string
  ce_writable :: bool
  ce_ifconfig :: "string option"
  ce_iwconfig :: "string option"
  ce_journal :: "string option"
  ce_sysinfo :: "int option"

type_synonym cmd_result = "exn + base_station res"

definition BASE_STATION_PIN :: string where "BASE_STATION_PIN = ''1234''"

definition get_version_str :: "string \<Rightarrow> string \<Rightarrow> string" where
  "get_version_str git_hash build_time = ''base_station-'' @ git_hash @ ''.'' @ build_time"

definition handleSMSCommand :: "string \<Rightarrow> string \<Rightarrow> base_station \<Rightarrow> base_station" where
  "handleSMSCommand from content bs = bs\<lparr>m_commands := m_commands bs @ [(from, content)]\<rparr>"

definition sendVersion :: "cmd_env \<Rightarrow> string \<Rightarrow> effect list" where
  "sendVersion env to = [Sms to (get_version_str (ce_git_hash env) (ce_build_time env))]"

text \<open>\<open>ALL <state>\<close>\<close>

definition cmd_all :: "cmd_env \<Rightarrow> heater_state \<Rightarrow> string \<Rightarrow> string \<Rightarrow> base_station \<Rightarrow> cmd_result" where
  "cmd_all env st answer from bs =
     (let bs1 = bs\<lparr>m_heater_default_state := st, m_heater_state := map_set_all st (m_heater_state bs)\<rparr>
      in case saveState (ce_writable env) bs1 of (bs2, e) \<Rightarrow> Inr (bs2, e @ [Sms from answer]))"

text \<open>
  \<open>HEATER <name> <state>\<close>: \<open>suffix\<close> is the blank and the word of the state, whose length is
  subtracted from the length of the rest in \<open>size_t\<close>.
\<close>

definition cmd_heater :: "cmd_env \<Rightarrow> heater_state \<Rightarrow> string \<Rightarrow> bool \<Rightarrow> string \<Rightarrow> string \<Rightarrow> base_station \<Rightarrow> cmd_result" where
  "cmd_heater env st suffix trace from content bs =
     (case substr_from content 7 of
        None \<Rightarrow> Inl Out_Of_Range
      | Some rest \<Rightarrow>
          let name = take (size_sub (length rest) (length suffix)) rest;
              e0 = (if trace then [Log Debug ([DQ] @ name @ [DQ, NL])] else [])
          in if check_heater_name name then
               (case saveState (ce_writable env) (bs\<lparr>m_heater_state := map_assign name st (m_heater_state bs)\<rparr>) of
                  (bs1, e) \<Rightarrow> Inr (bs1, e0 @ e @ [Sms from (''HEATER '' @ name @ suffix)]))
             else Inr (bs, e0 @ [Sms from ''Invalid heater name'']))"

definition cmd_get_default :: "string \<Rightarrow> base_station \<Rightarrow> cmd_result" where
  "cmd_get_default from bs = Inr (bs, [Sms from (''DEFAULT: '' @ state_label (m_heater_default_state bs))])"

definition cmd_get_heater :: "string \<Rightarrow> string \<Rightarrow> base_station \<Rightarrow> cmd_result" where
  "cmd_get_heater from content bs =
     (case substr_from content 11 of
        None \<Rightarrow> Inl Out_Of_Range
      | Some name \<Rightarrow>
          if check_heater_name name then
            let name = map toupper name;
                state = (case map_find (m_heater_state bs) name of
                           Some st \<Rightarrow> st | None \<Rightarrow> m_heater_default_state bs)
            in Inr (bs, [Sms from (''HEATER '' @ name @ '' '' @ state_label state)])
          else Inr (bs, [Sms from ''Invalid name'']))"

definition cmd_get_ip :: "cmd_env \<Rightarrow> string \<Rightarrow> base_station \<Rightarrow> cmd_result" where
  "cmd_get_ip env from bs =
     (case ce_ifconfig env of
        None \<Rightarrow> Inr (bs, [Sms from ''Fail to get public IP''])
      | Some out \<Rightarrow>
          let result = read_pipe None 128 [] out;
              result = (if length result > 64 then take 64 result else result)
          in if result = [] then Inr (bs, [Sms from ''Unable to get public IP''])
             else Inr (bs, [Sms from result]))"

definition cmd_lock :: "string \<Rightarrow> base_station \<Rightarrow> cmd_result" where
  "cmd_lock from bs =
     (if set_mem (m_phone_whitelist bs) from then Inr (bs\<lparr>m_locked := True\<rparr>, [Sms from ''LOCKED''])
      else Inr (bs, [Sms from ''Cannot lock: phone number is not whitelisted. Use ADD PHONE command.'']))"

definition cmd_unlock :: "string \<Rightarrow> string \<Rightarrow> base_station \<Rightarrow> cmd_result" where
  "cmd_unlock from content bs =
     (let ts = tokens content
      in if length ts \<le> 1 then Inl Bad_Access
         else if 2 \<le> length ts then
           (if ts ! 1 = BASE_STATION_PIN
            then Inr (bs\<lparr>m_locked := False\<rparr>, [Log Debug (ts ! 1), Sms from ''UNLOCKED''])
            else Inr (bs, [Log Debug (ts ! 1), Sms from ''Wrong PIN'']))
         else Inr (bs, [Log Debug (ts ! 1)]))"

definition phone_not_valid :: "string \<Rightarrow> string" where
  "phone_not_valid phone_number = ''Phone number '' @ [DQ] @ phone_number @ [DQ]
     @ '' is not valid. Phone numbers must follow this format: (country code)(9-10 digits). Example: 3310203040506''"

definition cmd_add_phone :: "cmd_env \<Rightarrow> string \<Rightarrow> string \<Rightarrow> base_station \<Rightarrow> cmd_result" where
  "cmd_add_phone env from content bs =
     (if \<not> m_locked bs then
        let ts = tokens content
        in if length ts = 3 then
             let phone_number = ts ! 2
             in if check_phone_number_format phone_number then
                  (case saveState (ce_writable env) (bs\<lparr>m_phone_whitelist := set_insert phone_number (m_phone_whitelist bs)\<rparr>) of
                     (bs1, e) \<Rightarrow> Inr (bs1, Sms from (''Phone number '' @ [DQ] @ phone_number @ [DQ] @ '' added to whitelist'') # e))
                else Inr (bs, [Sms from (phone_not_valid phone_number)])
           else Inr (bs, [])
      else Inr (bs, []))"

definition cmd_remove_phone :: "cmd_env \<Rightarrow> string \<Rightarrow> string \<Rightarrow> base_station \<Rightarrow> cmd_result" where
  "cmd_remove_phone env from content bs =
     (if \<not> m_locked bs then
        let ts = tokens content
        in if length ts = 3 then
             (case saveState (ce_writable env) (bs\<lparr>m_phone_whitelist := set_erase (ts ! 2) (m_phone_whitelist bs)\<rparr>) of
                (bs1, e) \<Rightarrow> Inr (bs1, Sms from (''Phone number '' @ [DQ] @ (ts ! 2) @ [DQ] @ '' removed from whitelist'') # e))
           else Inr (bs, [])
      else Inr (bs, []))"

definition cmd_set_emergency :: "cmd_env \<Rightarrow> string \<Rightarrow> string \<Rightarrow> base_station \<Rightarrow> cmd_result" where
  "cmd_set_emergency env from content bs =
     (let ts = tokens content
      in if length ts = 4 then
           let phone_number = ts ! 3
           in if check_phone_number_format phone_number then
                (case saveState (ce_writable env) (bs\<lparr>m_emergency_phone := phone_number\<rparr>) of
                   (bs1, e) \<Rightarrow> Inr (bs1, Sms from (phone_number @ '' set as emergency phone number.'') # e))
              else Inr (bs, [Sms from (phone_not_valid phone_number)])
         else Inr (bs, []))"

definition cmd_remove_emergency :: "string \<Rightarrow> base_station \<Rightarrow> cmd_result" where
  "cmd_remove_emergency from bs =
     Inr (bs\<lparr>m_emergency_phone := []\<rparr>,
          if m_emergency_phone bs \<noteq> []
          then [Log Info ''Removed emergency phone'', Sms from ''Emergency phone removed''] else [])"

definition cmd_help :: "string \<Rightarrow> base_station \<Rightarrow> cmd_result" where
  "cmd_help from bs =
     Inr (bs, [Sms from (''Basic commands:'' @ [NL] @ ''ALL OFF'' @ [NL] @ ''ALL ECO'' @ [NL]
                         @ ''ALL COMFORT'' @ [NL] @ ''ALL DEFROST'' @ [NL])])"

definition cmd_debug_filestate :: "string \<Rightarrow> base_station \<Rightarrow> cmd_result" where
  "cmd_debug_filestate from bs =
     (let ls = (case m_state_file bs of None \<Rightarrow> [] | Some content \<Rightarrow> getlines NL content)
      in Inr (bs, [Sms from (concat (map (\<lambda>l. l @ [NL]) ls))]))"

definition cmd_debug_state :: "string \<Rightarrow> base_station \<Rightarrow> cmd_result" where
  "cmd_debug_state from bs =
     Inr (bs, [Sms from (''DEFAULT: '' @ state_label (m_heater_default_state bs) @ [NL]
       @ concat (map (\<lambda>e. ''HEATER '' @ fst e @ '': '' @ state_label (snd e) @ [NL]) (m_heater_state bs)))])"

definition cmd_debug_wifi :: "cmd_env \<Rightarrow> string \<Rightarrow> base_station \<Rightarrow> cmd_result" where
  "cmd_debug_wifi env from bs =
     (case ce_iwconfig env of
        None \<Rightarrow> Inr (bs, [Sms from ''Fail to get wifi connection info''])
      | Some out \<Rightarrow>
          let result = read_pipe None 512 [] out;
              result = (if length result > 512 then take 512 result else result)
          in if result = [] then Inr (bs, [Sms from ''Unable to get wifi connection info''])
             else Inr (bs, [Sms from result]))"

definition cmd_debug_log :: "cmd_env \<Rightarrow> string \<Rightarrow> base_station \<Rightarrow> cmd_result" where
  "cmd_debug_log env from bs =
     (case ce_journal env of
        None \<Rightarrow> Inr (bs, [Sms from ''Fail to get basestation logs''])
      | Some out \<Rightarrow>
          let result = read_pipe (Some 1024) 1024 [] out
          in if result = [] then Inr (bs, [Sms from ''Unable to get basestation logs''])
             else Inr (bs, map (Sms from) (chunks 512 result)))"

definition cmd_unknown :: "string \<Rightarrow> base_station \<Rightarrow> cmd_result" where
  "cmd_unknown from bs =
     Inr (bs, [Log Warn (''Received invalid message from: '' @ from), Sms from ''Received invalid command''])"

text \<open>
  The chain of tests of \<open>parseCommands\<close>. The call \<open>reboot\<close> comes back only when it fails;
  what follows a \<open>Reboot\<close> among the effects happens in that case alone.
\<close>

definition exec_command :: "cmd_env \<Rightarrow> string \<Rightarrow> string \<Rightarrow> base_station \<Rightarrow> cmd_result" where
  "exec_command env from content bs =
     (if content = ''PING'' then Inr (bs, [Sms from ''PONG''])
      else if content = ''VERSION'' then Inr (bs, sendVersion env from)
      else if content = ''ALL OFF'' then cmd_all env HEATER_OFF ''ALL OFF'' from bs
      else if content = ''ALL ECO'' then cmd_all env HEATER_ECO ''ALL ECO'' from bs
      else if content = ''ALL DEFROST'' then cmd_all env HEATER_DEFROST ''ALL DEFROST'' from bs
      else if content = ''ALL COMFORT'' then cmd_all env HEATER_COMFORT ''ALL COMFORT'' from bs
      else if content = ''ALL ON'' then cmd_all env HEATER_COMFORT ''ALL ON'' from bs
      else if starts_with content ''HEATER '' \<and> ends_with content '' OFF''
        then cmd_heater env HEATER_OFF '' OFF'' False from content bs
      else if starts_with content ''HEATER '' \<and> ends_with content '' ECO''
        then cmd_heater env HEATER_ECO '' ECO'' True from content bs
      else if starts_with content ''HEATER '' \<and> ends_with content '' DEFROST''
        then cmd_heater env HEATER_DEFROST '' DEFROST'' False from content bs
      else if starts_with content ''HEATER '' \<and> ends_with content '' COMFORT''
        then cmd_heater env HEATER_COMFORT '' COMFORT'' False from content bs
      else if starts_with content ''HEATER '' \<and> ends_with content '' ON''
        then cmd_heater env HEATER_COMFORT '' ON'' False from content bs
      else if content = ''GET DEFAULT'' then cmd_get_default from bs
      else if starts_with content ''GET HEATER '' then cmd_get_heater from content bs
      else if content = ''GET IP'' then cmd_get_ip env from bs
      else if content = ''LOCK'' then cmd_lock from bs
      else if starts_with content ''UNLOCK '' then cmd_unlock from content bs
      else if starts_with content ''ADD PHONE '' then cmd_add_phone env from content bs
      else if starts_with content ''REMOVE PHONE '' then cmd_remove_phone env from content bs
      else if starts_with content ''SET EMERGENCY PHONE '' then cmd_set_emergency env from content bs
      else if content = ''REMOVE EMERGENCY PHONE'' then cmd_remove_emergency from bs
      else if str_rfind content ''HELP'' = Some 0 then cmd_help from bs
      else if content = ''DEBUG FILESTATE'' then cmd_debug_filestate from bs
      else if content = ''DEBUG STATE'' then cmd_debug_state from bs
      else if content = ''DEBUG REBOOT'' then Inr (bs, [Sync, Reboot])
      else if content = ''DEBUG WIFI'' then cmd_debug_wifi env from bs
      else if content = ''DEBUG LOG'' then cmd_debug_log env from bs
      else if content = ''DEBUG UPTIME'' then Inr (bs, [Sms from (get_uptime_str (ce_sysinfo env))])
      else cmd_unknown from bs)"

text \<open>The whitelist test and the normalisation at the top of the loop.\<close>

definition dropped :: "base_station \<Rightarrow> string \<Rightarrow> bool" where
  "dropped bs from \<longleftrightarrow> m_locked bs \<and> m_phone_whitelist bs \<noteq> [] \<and> \<not> set_mem (m_phone_whitelist bs) from"

definition normalise :: "string \<Rightarrow> string" where
  "normalise content = map toupper (trim content)"

text \<open>
  The loop. The test that drops a message leaves the function, and with it the messages
  behind it, which stay queued. \<open>env k\<close> is what the k-th message reads from the system.
\<close>

fun parse_queue :: "(nat \<Rightarrow> cmd_env) \<Rightarrow> (string \<times> string) list \<Rightarrow> base_station \<Rightarrow> cmd_result" where
  "parse_queue env [] bs = Inr (bs, [])"
| "parse_queue env ((from, content) # q) bs =
     (let bs1 = bs\<lparr>m_commands := q\<rparr>
      in if dropped bs1 from
         then Inr (bs1, [Log Warn (''Received SMS from phone number '' @ [DQ] @ from @ [DQ] @ '' not in whitelist'')])
         else case exec_command (env 0) from (normalise content) bs1 of
                Inl x \<Rightarrow> Inl x
              | Inr (bs2, e) \<Rightarrow>
                  (case parse_queue (\<lambda>k. env (Suc k)) q bs2 of
                     Inl x \<Rightarrow> Inl x
                   | Inr (bs3, e') \<Rightarrow> Inr (bs3, e @ e')))"

definition parseCommands :: "(nat \<Rightarrow> cmd_env) \<Rightarrow> base_station \<Rightarrow> cmd_result" where
  "parseCommands env bs = parse_queue env (m_commands bs) bs"

end
