(* ===== verification/Command_Spec.thy ===== *)
theory Command_Spec
  imports Command_Laws
begin

text \<open>
  The abstract view of the heater commands. To the outside the configuration is the function
  from heater names to the state a heater of that name is told; \<open>ALL\<close> sets it everywhere,
  \<open>HEATER\<close> at one name. The locale \<open>heater_registry\<close> is that contract, interpreted on the
  station's default state and map of states; the refinement lemma runs a queue of messages
  against it.
\<close>

datatype registry_op = Set_All heater_state | Set_One string heater_state

fun spec_step :: "registry_op \<Rightarrow> (string \<Rightarrow> heater_state) \<Rightarrow> (string \<Rightarrow> heater_state)" where
  "spec_step (Set_All st) f = (\<lambda>_. st)"
| "spec_step (Set_One n st) f = f(n := st)"

locale heater_registry =
  fixes set_all :: "heater_state \<Rightarrow> 's \<Rightarrow> 's"
    and set_one :: "string \<Rightarrow> heater_state \<Rightarrow> 's \<Rightarrow> 's"
    and target :: "'s \<Rightarrow> string \<Rightarrow> heater_state"
    and inv :: "'s \<Rightarrow> bool"
    and valid :: "string \<Rightarrow> bool"
  assumes target_set_all: "inv s \<Longrightarrow> target (set_all st s) = (\<lambda>_. st)"
    and target_set_one: "inv s \<Longrightarrow> valid n \<Longrightarrow> target (set_one n st s) = (target s)(n := st)"
    and inv_set_all: "inv s \<Longrightarrow> inv (set_all st s)"
    and inv_set_one: "inv s \<Longrightarrow> valid n \<Longrightarrow> inv (set_one n st s)"
begin

fun op_ok :: "registry_op \<Rightarrow> bool" where
  "op_ok (Set_All st) = True"
| "op_ok (Set_One n st) = valid n"

fun perform :: "registry_op \<Rightarrow> 's \<Rightarrow> 's" where
  "perform (Set_All st) s = set_all st s"
| "perform (Set_One n st) s = set_one n st s"

lemma perform_inv: "inv s \<Longrightarrow> op_ok op \<Longrightarrow> inv (perform op s)"
  by (cases op) (simp_all add: inv_set_all inv_set_one)

lemma perform_target: "inv s \<Longrightarrow> op_ok op \<Longrightarrow> target (perform op s) = spec_step op (target s)"
  by (cases op) (simp_all add: target_set_all target_set_one)

lemma fold_perform:
  assumes "inv s" and "\<forall>op\<in>set ops. op_ok op"
  shows "inv (fold perform ops s)" and "target (fold perform ops s) = fold spec_step ops (target s)"
  using assms by (induction ops arbitrary: s) (simp_all add: perform_inv perform_target)

end

section \<open>The station's configuration is a registry\<close>

definition set_all_states :: "heater_state \<Rightarrow> base_station \<Rightarrow> base_station" where
  "set_all_states st bs = bs\<lparr>m_heater_default_state := st, m_heater_state := map_set_all st (m_heater_state bs)\<rparr>"

definition set_one_state :: "string \<Rightarrow> heater_state \<Rightarrow> base_station \<Rightarrow> base_station" where
  "set_one_state n st bs = bs\<lparr>m_heater_state := map_assign n st (m_heater_state bs)\<rparr>"

lemma set_all_target: "requested_state (set_all_states st bs) = (\<lambda>_. st)"
  by (auto simp: fun_eq_iff requested_state_def set_all_states_def map_set_all_find Let_def split: option.splits)

lemma stored_name_nonempty: "stored_name n \<Longrightarrow> n \<noteq> []"
  by (simp add: stored_name_def check_name_iff)

lemma set_one_target:
  assumes "config_inv bs" and "stored_name n"
  shows "requested_state (set_one_state n st bs) = (requested_state bs)(n := st)"
proof -
  have "map_inv (m_heater_state bs)" using assms(1) by (simp add: config_inv_def)
  then show ?thesis using stored_name_nonempty [OF assms(2)]
    by (auto simp: fun_eq_iff requested_state_def set_one_state_def sm.find_assign Let_def)
qed

interpretation registry: heater_registry set_all_states set_one_state requested_state config_inv stored_name
  by unfold_locales
     (simp_all add: set_all_target set_one_target, simp_all add: set_all_states_def set_one_state_def
       config_inv_set_all config_inv_assign)

section \<open>Messages and the operations they stand for\<close>

fun state_words :: "heater_state \<Rightarrow> string list" where
  "state_words HEATER_OFF = [''OFF'']"
| "state_words HEATER_DEFROST = [''DEFROST'']"
| "state_words HEATER_ECO = [''ECO'']"
| "state_words HEATER_COMFORT = [''COMFORT'', ''ON'']"

fun stands_for :: "string \<Rightarrow> registry_op \<Rightarrow> bool" where
  "stands_for t (Set_All st) = (t \<in> set (map (\<lambda>w. ''ALL '' @ w) (state_words st)))"
| "stands_for t (Set_One n st) =
     (stored_name n \<and> t \<in> set (map (\<lambda>w. ''HEATER '' @ n @ SP # w) (state_words st)))"

definition saved :: "bool \<Rightarrow> base_station \<Rightarrow> base_station" where
  "saved w bs = (if w then bs\<lparr>m_state_file := Some (save_text bs)\<rparr> else bs)"

definition save_log :: "bool \<Rightarrow> effect list" where
  "save_log w = (if w then [Log Debug (''Saved state to file '' @ STATE_FILE_PATH)]
                 else [Log Err (''Could not save state to file '' @ STATE_FILE_PATH)])"

lemma saveState_eq: "saveState w bs = (saved w bs, save_log w)"
  by (simp add: saveState_def saved_def save_log_def)

lemma quiet_save_log [simp]: "sms_of (save_log w) = []" "Reboot \<notin> set (save_log w)"
  by (simp_all add: save_log_def)

lemma saved_simps [simp]:
  "config_inv (saved w bs) = config_inv bs" "requested_state (saved w bs) = requested_state bs"
  "m_locked (saved w bs) = m_locked bs" "m_commands (saved w bs) = m_commands bs"
  "config_of (saved w bs) = config_of bs" "m_phone_whitelist (saved w bs) = m_phone_whitelist bs"
  "save_text (saved w bs) = save_text bs"
  by (cases w; simp add: saved_def requested_state_def config_of_def save_text_def fun_eq_iff Let_def)+

lemma cmd_all_eq: "cmd_all env st answer from bs = Inr (saved (ce_writable env) (set_all_states st bs), save_log (ce_writable env) @ [Sms from answer])"
  by (simp add: cmd_all_def saveState_eq set_all_states_def Let_def)

lemma cmd_heater_eq:
  assumes "stored_name n"
  shows "\<exists>l. sms_of l = [] \<and> Reboot \<notin> set l \<and> cmd_heater env st suffix trace from (''HEATER '' @ n @ suffix) bs
    = Inr (saved (ce_writable env) (set_one_state n st bs), l @ [Sms from (''HEATER '' @ n @ suffix)])"
proof -
  have r: "substr_from (''HEATER '' @ n @ suffix) 7 = Some (n @ suffix)" by (simp add: substr_from_def)
  have t: "take (size_sub (length (n @ suffix)) (length suffix)) (n @ suffix) = n" by simp
  have "check_heater_name n" using assms by (simp add: stored_name_def)
  then show ?thesis
    unfolding cmd_heater_def r option.case Let_def t saveState_eq prod.case set_one_state_def
    by (intro exI [of _ "(if trace then [Log Debug ([DQ] @ n @ [DQ, NL])] else []) @ save_log (ce_writable env)"]) simp
qed

text \<open>Which branch of the chain a message reaches.\<close>

lemma exec_all:
  "exec_command env from ''ALL OFF'' bs = cmd_all env HEATER_OFF ''ALL OFF'' from bs"
  "exec_command env from ''ALL ECO'' bs = cmd_all env HEATER_ECO ''ALL ECO'' from bs"
  "exec_command env from ''ALL DEFROST'' bs = cmd_all env HEATER_DEFROST ''ALL DEFROST'' from bs"
  "exec_command env from ''ALL COMFORT'' bs = cmd_all env HEATER_COMFORT ''ALL COMFORT'' from bs"
  "exec_command env from ''ALL ON'' bs = cmd_all env HEATER_COMFORT ''ALL ON'' from bs"
  by (simp_all add: exec_command_def)

lemma heater_not_all:
  "''HEATER '' @ x \<noteq> ''PING''" "''HEATER '' @ x \<noteq> ''VERSION''" "''HEATER '' @ x \<noteq> ''ALL OFF''"
  "''HEATER '' @ x \<noteq> ''ALL ECO''" "''HEATER '' @ x \<noteq> ''ALL DEFROST''"
  "''HEATER '' @ x \<noteq> ''ALL COMFORT''" "''HEATER '' @ x \<noteq> ''ALL ON''"
  by simp_all

lemma heater_ends:
  "ends_with (''HEATER '' @ n @ '' OFF'') '' OFF''"
  "ends_with (''HEATER '' @ n @ '' ECO'') '' ECO''" "\<not> ends_with (''HEATER '' @ n @ '' ECO'') '' OFF''"
  "ends_with (''HEATER '' @ n @ '' DEFROST'') '' DEFROST''" "\<not> ends_with (''HEATER '' @ n @ '' DEFROST'') '' OFF''"
  "\<not> ends_with (''HEATER '' @ n @ '' DEFROST'') '' ECO''"
  "ends_with (''HEATER '' @ n @ '' COMFORT'') '' COMFORT''" "\<not> ends_with (''HEATER '' @ n @ '' COMFORT'') '' OFF''"
  "\<not> ends_with (''HEATER '' @ n @ '' COMFORT'') '' ECO''" "\<not> ends_with (''HEATER '' @ n @ '' COMFORT'') '' DEFROST''"
  "ends_with (''HEATER '' @ n @ '' ON'') '' ON''" "\<not> ends_with (''HEATER '' @ n @ '' ON'') '' OFF''"
  "\<not> ends_with (''HEATER '' @ n @ '' ON'') '' ECO''" "\<not> ends_with (''HEATER '' @ n @ '' ON'') '' DEFROST''"
  "\<not> ends_with (''HEATER '' @ n @ '' ON'') '' COMFORT''"
  by (simp_all add: ends_with_def)

lemma exec_heater:
  "exec_command env from (''HEATER '' @ n @ '' OFF'') bs = cmd_heater env HEATER_OFF '' OFF'' False from (''HEATER '' @ n @ '' OFF'') bs"
  "exec_command env from (''HEATER '' @ n @ '' ECO'') bs = cmd_heater env HEATER_ECO '' ECO'' True from (''HEATER '' @ n @ '' ECO'') bs"
  "exec_command env from (''HEATER '' @ n @ '' DEFROST'') bs = cmd_heater env HEATER_DEFROST '' DEFROST'' False from (''HEATER '' @ n @ '' DEFROST'') bs"
  "exec_command env from (''HEATER '' @ n @ '' COMFORT'') bs = cmd_heater env HEATER_COMFORT '' COMFORT'' False from (''HEATER '' @ n @ '' COMFORT'') bs"
  "exec_command env from (''HEATER '' @ n @ '' ON'') bs = cmd_heater env HEATER_COMFORT '' ON'' False from (''HEATER '' @ n @ '' ON'') bs"
  unfolding exec_command_def
  by (simp_all only: heater_not_all heater_ends starts_with_self if_False if_True simp_thms)

text \<open>
  A message that stands for an operation performs it on the configuration, saves the result
  and answers with its own normalised text.
\<close>

lemma exec_stands_for:
  assumes "stands_for t op"
  shows "\<exists>l. sms_of l = [] \<and> Reboot \<notin> set l \<and> exec_command env from t bs
    = Inr (saved (ce_writable env) (registry.perform op bs), l @ [Sms from t])"
proof (cases op)
  case (Set_All st)
  have c: "\<exists>l. sms_of l = [] \<and> Reboot \<notin> set l \<and> cmd_all env st t from bs
    = Inr (saved (ce_writable env) (registry.perform op bs), l @ [Sms from t])"
    using cmd_all_eq Set_All by auto
  have "exec_command env from t bs = cmd_all env st t from bs"
    using assms Set_All exec_all [of env "from" bs] by (cases st) auto
  then show ?thesis using c by simp
next
  case (Set_One n st)
  have n: "stored_name n" using assms Set_One by simp
  have c: "\<exists>l. sms_of l = [] \<and> Reboot \<notin> set l \<and> cmd_heater env st suffix trace from (''HEATER '' @ n @ suffix) bs
    = Inr (saved (ce_writable env) (registry.perform op bs), l @ [Sms from (''HEATER '' @ n @ suffix)])"
    for suffix trace using cmd_heater_eq [OF n] Set_One by simp
  have "\<exists>suffix trace. t = ''HEATER '' @ n @ suffix
      \<and> exec_command env from t bs = cmd_heater env st suffix trace from t bs"
  proof -
    consider "st = HEATER_OFF" "t = ''HEATER '' @ n @ '' OFF''"
      | "st = HEATER_DEFROST" "t = ''HEATER '' @ n @ '' DEFROST''"
      | "st = HEATER_ECO" "t = ''HEATER '' @ n @ '' ECO''"
      | "st = HEATER_COMFORT" "t = ''HEATER '' @ n @ '' COMFORT''"
      | "st = HEATER_COMFORT" "t = ''HEATER '' @ n @ '' ON''"
      using assms Set_One by (cases st) auto
    then show ?thesis by cases (blast intro: exec_heater)+
  qed
  then show ?thesis using c by metis
qed

text \<open>The refinement: a queue of such messages runs the operations in order.\<close>

definition queue_for :: "(string \<times> string) list \<Rightarrow> registry_op list \<Rightarrow> bool" where
  "queue_for msgs ops \<longleftrightarrow> list_all2 (\<lambda>m op. stands_for (normalise (snd m)) op) msgs ops"

lemma stands_for_ok: "stands_for t op \<Longrightarrow> registry.op_ok op"
  by (cases op) auto

lemma perform_frame [simp]:
  "m_locked (registry.perform op bs) = m_locked bs"
  "m_phone_whitelist (registry.perform op bs) = m_phone_whitelist bs"
  "m_commands (registry.perform op bs) = m_commands bs"
  by (cases op; simp add: set_all_states_def set_one_state_def)+

lemma requested_state_commands [simp]: "requested_state (bs\<lparr>m_commands := q\<rparr>) = requested_state bs"
  by (simp add: requested_state_def fun_eq_iff Let_def)

lemma saved_file: "w \<Longrightarrow> m_state_file (saved w bs) = Some (save_text (saved w bs))"
  by (simp add: saved_def save_text_def)

lemma parse_queue_refines:
  assumes "queue_for msgs ops" and "config_inv bs" and "\<not> m_locked bs"
  shows "\<exists>bs' e. parse_queue env msgs bs = Inr (bs', e)
    \<and> requested_state bs' = fold spec_step ops (requested_state bs)
    \<and> sms_of e = map (\<lambda>m. (fst m, normalise (snd m))) msgs \<and> Reboot \<notin> set e
    \<and> config_inv bs' \<and> \<not> m_locked bs'
    \<and> ((\<forall>k. ce_writable (env k)) \<longrightarrow> (msgs \<noteq> [] \<or> m_state_file bs = Some (save_text bs))
         \<longrightarrow> m_state_file bs' = Some (save_text bs'))"
  using assms unfolding queue_for_def
proof (induction msgs ops arbitrary: bs env rule: list_all2_induct)
  case (Cons m msgs op ops)
  obtain sender content where m: "m = (sender, content)" by (cases m)
  let ?t = "normalise content" and ?bs1 = "bs\<lparr>m_commands := msgs\<rparr>"
  have st: "stands_for ?t op" using Cons.hyps(1) m by simp
  obtain l where l: "sms_of l = []" "Reboot \<notin> set l" and x: "exec_command (env 0) sender ?t ?bs1
      = Inr (saved (ce_writable (env 0)) (registry.perform op ?bs1), l @ [Sms sender ?t])"
    using exec_stands_for [OF st] by blast
  let ?bs2 = "saved (ce_writable (env 0)) (registry.perform op ?bs1)"
  have inv2: "config_inv ?bs2" "\<not> m_locked ?bs2"
    using registry.perform_inv [of ?bs1 op] stands_for_ok [OF st] Cons.prems by simp_all
  have tgt: "requested_state ?bs2 = spec_step op (requested_state bs)"
    using registry.perform_target [of ?bs1 op] stands_for_ok [OF st] Cons.prems by simp
  obtain bs' e where p: "parse_queue (\<lambda>k. env (Suc k)) msgs ?bs2 = Inr (bs', e)"
    and r: "requested_state bs' = fold spec_step ops (requested_state ?bs2)"
    and s: "sms_of e = map (\<lambda>m. (fst m, normalise (snd m))) msgs" "Reboot \<notin> set e"
    and i: "config_inv bs' \<and> \<not> m_locked bs'"
    and f: "(\<forall>k. ce_writable (env (Suc k))) \<longrightarrow> (msgs \<noteq> [] \<or> m_state_file ?bs2 = Some (save_text ?bs2))
         \<longrightarrow> m_state_file bs' = Some (save_text bs')"
    using Cons.IH [OF inv2, of "\<lambda>k. env (Suc k)"] by blast
  have "(\<forall>k. ce_writable (env k)) \<longrightarrow> m_state_file bs' = Some (save_text bs')"
    using f saved_file by blast
  have "parse_queue env (m # msgs) bs = Inr (bs', (l @ [Sms sender ?t]) @ e)"
    using x p Cons.prems m by (simp add: dropped_def Let_def)
  then show ?case using r s i tgt l m \<open>_ \<longrightarrow> m_state_file bs' = _\<close> by simp
qed simp

section \<open>Properties of the heater commands\<close>

text \<open>C3: queued \<open>ALL\<close> and \<open>HEATER\<close> messages, in any case and with blanks around them, run
  against an unlocked station as the abstract operations they stand for, in order; each is
  answered to its sender with its normalised text, and when the state file can be written it
  holds the resulting configuration.\<close>

theorem heater_commands_refine:
  assumes "queue_for (m_commands bs) ops" and "m_commands bs \<noteq> []"
    and "config_inv bs" and "\<not> m_locked bs" and "\<forall>k. ce_writable (env k)"
  shows "\<exists>bs' e. parseCommands env bs = Inr (bs', e)
    \<and> requested_state bs' = fold spec_step ops (requested_state bs)
    \<and> sms_of e = map (\<lambda>m. (fst m, normalise (snd m))) (m_commands bs)
    \<and> m_state_file bs' = Some (save_text bs')"
  using parse_queue_refines [OF assms(1,3,4), of env] assms(2,5) by (auto simp: parseCommands_def)

definition sample_env :: cmd_env where
  "sample_env = \<lparr>ce_git_hash = ''development'', ce_build_time = ''unknown-time'', ce_writable = True,
     ce_ifconfig = None, ce_iwconfig = None, ce_journal = None, ce_sysinfo = None\<rparr>"

lemma heater_commands_refine_witness:
  "\<exists>bs' e. parseCommands (\<lambda>_. sample_env)
      (station_init None\<lparr>m_commands := [(''33102030405'', '' all eco ''), (''33102030405'', ''Heater Desk on'')]\<rparr>) = Inr (bs', e)
    \<and> requested_state bs' ''DESK'' = HEATER_COMFORT \<and> requested_state bs' ''HALL'' = HEATER_ECO
    \<and> sms_of e = [(''33102030405'', ''ALL ECO''), (''33102030405'', ''HEATER DESK ON'')]"
proof -
  let ?q = "[(''33102030405'', '' all eco ''), (''33102030405'', ''Heater Desk on'')]"
  let ?bs = "station_init None\<lparr>m_commands := ?q\<rparr>"
  let ?ops = "[Set_All HEATER_ECO, Set_One ''DESK'' HEATER_COMFORT]"
  have n: "normalise '' all eco '' = ''ALL ECO''" "normalise ''Heater Desk on'' = ''HEATER DESK ON''"
    by code_simp+
  have d: "stored_name ''DESK''"
    by code_simp
  have q: "queue_for (m_commands ?bs) ?ops" by (simp add: queue_for_def n d)
  have "\<exists>bs' e. parseCommands (\<lambda>_. sample_env) ?bs = Inr (bs', e)
    \<and> requested_state bs' = fold spec_step ?ops (requested_state ?bs)
    \<and> sms_of e = map (\<lambda>m. (fst m, normalise (snd m))) (m_commands ?bs)
    \<and> m_state_file bs' = Some (save_text bs')"
    by (rule heater_commands_refine [OF q]) (simp_all add: sample_env_def, simp add: station_init_def)
  then show ?thesis by (auto simp: n)
qed

end
