(* ===== verification/Monitor_Props.thy ===== *)
theory Monitor_Props
  imports Monitors Error_Monitor Command_Spec Connection_Props
begin

text \<open>
  Laws of the periodic checks. Three of them count failures: they are instances of the
  locales of \<open>Error_Monitor\<close>.
\<close>

section \<open>The wireless interface\<close>

definition wifi_down :: "16 word option \<Rightarrow> bool" where
  "wifi_down flags = (case flags of None \<Rightarrow> False | Some fl \<Rightarrow> \<not> up_and_running fl)"

definition wifi_alarm :: "string \<Rightarrow> (string \<times> string) list" where
  "wifi_alarm phone = (if phone = [] then [] else
     [(phone, ''Error! Base station lost WiFi connection for past '' @ hms (WIFI_ERROR_THRESHOLD * CHECK_WIFI_PERIOD div 1000)
        @ ''. '' @ ''Heaters cannot be controlled (they will switch to DEFROST mode automatically).'')])"

interpretation wifi: error_monitor "checkWifi True" m_wifi_error_counter wifi_down m_emergency_phone wifi_alarm WIFI_ERROR_THRESHOLD
proof unfold_locales
  fix flags bs assume "wifi_down flags"
  then obtain fl where f: "flags = Some fl" "\<not> up_and_running fl" by (auto simp: wifi_down_def split: option.splits)
  show "m_wifi_error_counter (fst (checkWifi True flags bs)) = m_wifi_error_counter bs + 1"
    "m_emergency_phone (fst (checkWifi True flags bs)) = m_emergency_phone bs"
    using f by (simp_all add: checkWifi_def Let_def)
  show "sms_of (snd (checkWifi True flags bs))
      = (if m_wifi_error_counter bs + 1 = WIFI_ERROR_THRESHOLD then wifi_alarm (m_emergency_phone bs) else [])"
    using f by (simp add: checkWifi_def Let_def wifi_alarm_def)
qed (simp add: WIFI_ERROR_THRESHOLD_def)

text \<open>C31: while the interface stays down, the emergency phone gets one message, at the
  fifteenth failing check, and none before or after (as long as the 32-bit counter does not
  wrap).\<close>

theorem wifi_alarm_once:
  assumes "\<forall>fl\<in>set checks. \<not> up_and_running fl" and "m_wifi_error_counter bs = 0"
    and "m_emergency_phone bs \<noteq> []" and "length checks < 2 ^ 32"
  shows "sms_of (snd (run_ops (checkWifi True) (map Some checks) bs))
    = (if 15 \<le> length checks then
         [(m_emergency_phone bs, ''Error! Base station lost WiFi connection for past 0h15m0s. Heaters cannot be controlled (they will switch to DEFROST mode automatically).'')]
       else [])"
proof -
  have "\<forall>ob\<in>set (map Some checks). wifi_down ob" using assms(1) by (simp add: wifi_down_def)
  moreover have "hms (WIFI_ERROR_THRESHOLD * CHECK_WIFI_PERIOD div 1000) = ''0h15m0s''" by code_simp
  ultimately show ?thesis
    using wifi.run_alarm_once [of "map Some checks" bs] assms(2-4)
    by (simp add: wifi_alarm_def WIFI_ERROR_THRESHOLD_def)
qed

lemma wifi_alarm_once_witness:
  "length (sms_of (snd (run_ops (checkWifi True) (map Some (replicate 20 0x01)) (station_init None\<lparr>m_emergency_phone := ''33102030405''\<rparr>)))) = 1"
proof -
  have "\<not> up_and_running 0x01" by (simp add: up_and_running_def IFF_UP_def IFF_RUNNING_def)
  then show ?thesis
    using wifi_alarm_once [of "replicate 20 0x01" "station_init None\<lparr>m_emergency_phone := ''33102030405''\<rparr>"]
    by (simp add: station_init_def)
qed

section \<open>The modem and the daemon force the fallback\<close>

lemma fallback_target: "requested_state (fallback_all bs) = (\<lambda>_. HEATER_DEFROST)"
  using set_all_target [of FALLBACK_HEATER_STATE bs]
  by (simp add: fallback_all_def set_all_states_def FALLBACK_HEATER_STATE_def)

lemma requested_state_counters [simp]:
  "requested_state (bs\<lparr>m_3g_error_counter := n\<rparr>) = requested_state bs"
  "requested_state (bs\<lparr>m_daemon_error_counter := n\<rparr>) = requested_state bs"
  "requested_state (bs\<lparr>m_wifi_error_counter := n\<rparr>) = requested_state bs"
  by (simp_all add: requested_state_def fun_eq_iff Let_def)

definition all_defrost :: "base_station \<Rightarrow> bool" where
  "all_defrost bs \<longleftrightarrow> requested_state bs = (\<lambda>_. HEATER_DEFROST)"

lemma all_defrost_fallback [simp]: "all_defrost (fallback_all bs)"
  by (simp add: all_defrost_def fallback_target)

lemma fallback_fields [simp]:
  "m_3g_error_counter (fallback_all bs) = m_3g_error_counter bs"
  "m_daemon_error_counter (fallback_all bs) = m_daemon_error_counter bs"
  "m_state_file (fallback_all bs) = m_state_file bs"
  by (simp_all add: fallback_all_def)

interpretation modem: fallback_monitor "check3G True" m_3g_error_counter "\<lambda>env. \<not> me_present env" m_state_file "\<lambda>_. []" MODULE_3G_ERROR_THRESHOLD all_defrost
  by unfold_locales
     (auto simp: check3G_def Let_def MODULE_3G_ERROR_THRESHOLD_def all_defrost_def fallback_target)

interpretation daemon: fallback_monitor "checkSMSDaemon True" m_daemon_error_counter "\<lambda>p. \<not> is_process_running p ''smsd''" m_state_file "\<lambda>_. []" DAEMON_ERROR_THRESHOLD all_defrost
  by unfold_locales
     (auto simp: checkSMSDaemon_def Let_def DAEMON_ERROR_THRESHOLD_def all_defrost_def fallback_target proc_log_def split: option.split)

text \<open>C23: after six checks in a row without the modem every heater is told DEFROST, whatever
  was set; the state file keeps the old configuration.\<close>

theorem lost_modem_forces_defrost:
  assumes "\<forall>env\<in>set checks. \<not> me_present env" and "m_3g_error_counter bs = 0" and "6 \<le> length checks"
  shows "requested_state (fst (run_ops (check3G True) checks bs)) name = HEATER_DEFROST
    \<and> m_state_file (fst (run_ops (check3G True) checks bs)) = m_state_file bs"
  using modem.run_forces [of checks bs] modem.run_counter(2) [of checks bs] assms
  by (simp add: all_defrost_def MODULE_3G_ERROR_THRESHOLD_def)

definition sample_modem :: modem_env where
  "sample_modem = \<lparr>me_present = True, me_open = 3, me_getattr_old = 0, me_getattr_new = 0, me_configured = True,
     me_sent = (\<lambda>c. int (length c)),
     me_reads = (\<lambda>k. [[''OK''], [''+CPIN: READY''], [''+CREG: 0,'', ''5'']] ! k)\<rparr>"

lemma lost_modem_forces_defrost_witness:
  "requested_state (fst (run_ops (check3G True) (replicate 6 (sample_modem\<lparr>me_present := False\<rparr>))
     (station_init None\<lparr>m_heater_default_state := HEATER_COMFORT\<rparr>))) ''DESK'' = HEATER_DEFROST"
  using lost_modem_forces_defrost [of "replicate 6 (sample_modem\<lparr>me_present := False\<rparr>)"
      "station_init None\<lparr>m_heater_default_state := HEATER_COMFORT\<rparr>" "''DESK''"]
  by (simp add: station_init_def)

text \<open>After six checks in a row without the SMS daemon every heater is told DEFROST.\<close>

theorem lost_daemon_forces_defrost:
  assumes "\<forall>p\<in>set checks. \<not> is_process_running p ''smsd''" and "m_daemon_error_counter bs = 0" and "6 \<le> length checks"
  shows "requested_state (fst (run_ops (checkSMSDaemon True) checks bs)) name = HEATER_DEFROST"
  using daemon.run_forces [of checks bs] assms
  by (simp add: all_defrost_def DAEMON_ERROR_THRESHOLD_def)

lemma lost_daemon_forces_defrost_witness:
  "requested_state (fst (run_ops (checkSMSDaemon True) (replicate 6 (Some [(1, Stat_Name ''init'')]))
     (station_init None\<lparr>m_heater_default_state := HEATER_ECO\<rparr>))) ''DESK'' = HEATER_DEFROST"
  using lost_daemon_forces_defrost [of "replicate 6 (Some [(1, Stat_Name ''init'')])"
      "station_init None\<lparr>m_heater_default_state := HEATER_ECO\<rparr>" "''DESK''"]
  by (simp add: station_init_def is_process_running_def)

text \<open>One failed look at the daemon is enough for the message that all heaters were set to
  DEFROST, which is not so: no heater was set, and the message blames the modem.\<close>

theorem daemon_recovery_message_false:
  assumes "\<not> is_process_running p ''smsd''" and "is_process_running q ''smsd''"
    and "m_daemon_error_counter bs = 0" and "m_emergency_phone bs \<noteq> []"
  shows "sms_of (snd (run_ops (checkSMSDaemon True) [p, q] bs))
      = [(m_emergency_phone bs, ''INFO! All heaters were set to DEFROST mode due to earlier 3G module errors'')]
    \<and> requested_state (fst (run_ops (checkSMSDaemon True) [p, q] bs)) = requested_state bs"
  using assms
  by (simp add: then_do_def checkSMSDaemon_def Let_def DAEMON_ERROR_THRESHOLD_def recovered_text_def
      FALLBACK_HEATER_STATE_def proc_log_def split: option.split)

lemma daemon_recovery_message_false_witness:
  "sms_of (snd (run_ops (checkSMSDaemon True) [Some [(1, Stat_Malformed), (2, Stat_Name ''smsd'')], Some [(2, Stat_Name ''smsd'')]]
      (station_init None\<lparr>m_emergency_phone := ''33102030405''\<rparr>)))
   = [(''33102030405'', ''INFO! All heaters were set to DEFROST mode due to earlier 3G module errors'')]"
  using daemon_recovery_message_false [of "Some [(1, Stat_Malformed), (2, Stat_Name ''smsd'')]" "Some [(2, Stat_Name ''smsd'')]"
      "station_init None\<lparr>m_emergency_phone := ''33102030405''\<rparr>"]
  by (simp add: station_init_def is_process_running_def)

section \<open>Lost devices\<close>

lemma map_assign_front: "\<forall>e\<in>set m. k < fst e \<Longrightarrow> map_assign k v m = (k, v) # m"
  by (cases m) auto

lemma take_lost_eq:
  assumes "map_inv hs"
  shows "take_lost now hs = (filter (\<lambda>e. \<not> is_lost now (snd e)) hs,
     map (\<lambda>e. (fst e, getName (snd e))) (filter (\<lambda>e. is_lost now (snd e)) hs))"
  using assms
proof (induction hs)
  case (Cons e hs)
  obtain mac h where e: "e = (mac, h)" by (cases e)
  have "map_inv hs" and "\<forall>e\<in>set hs. mac < fst e" using Cons.prems e by (auto simp: map_inv_def)
  then have "map_assign mac (getName h) (map (\<lambda>e. (fst e, getName (snd e))) (filter (\<lambda>e. is_lost now (snd e)) hs))
      = (mac, getName h) # map (\<lambda>e. (fst e, getName (snd e))) (filter (\<lambda>e. is_lost now (snd e)) hs)"
    by (intro map_assign_front) auto
  then show ?case using Cons.IH [OF \<open>map_inv hs\<close>] e by simp
qed simp

lemma lost_iff: "is_lost now h \<longleftrightarrow> 24 * 60 * 60 \<le> now - getLastRequestTimestamp h"
  by (auto simp: is_lost_def DEVICE_LOST_THRESHOLD_def)

lemma sms_of_lost_logs [simp]: "sms_of (map lost_log ds) = []"
  by (induction ds) (auto simp: lost_log_def)

text \<open>C24: when its timer fires, the station forgets exactly the devices without a request for
  24 hours, and the emergency phone, if one is set, gets one message that lists those and
  no others, in the order of their addresses; with none lost it gets none. For several
  devices the message says \<open>%d\<close> and not their number.\<close>

theorem lost_devices_reported:
  assumes "device_inv bs"
    and "lost = map (\<lambda>e. (fst e, getName (snd e))) (filter (\<lambda>e. 24 * 60 * 60 \<le> now - getLastRequestTimestamp (snd e)) (m_heaters bs))"
  shows "m_heaters (fst (checkLostDevices True now bs))
      = filter (\<lambda>e. now - getLastRequestTimestamp (snd e) < 24 * 60 * 60) (m_heaters bs)
    \<and> sms_of (snd (checkLostDevices True now bs))
      = (if m_emergency_phone bs = [] \<or> lost = [] then []
         else [(m_emergency_phone bs, ''WARNING! Lost connection with ''
                  @ (if length lost = 1 then ''one device: '' else ''%d devices: '') @ lost_list lost)])"
proof -
  have "map_inv (m_heaters bs)" using assms(1) by (simp add: device_inv_def)
  note t = take_lost_eq [OF this, of now, unfolded lost_iff not_le, folded assms(2)]
  have "lost \<noteq> [] \<Longrightarrow> length lost > 1 \<longleftrightarrow> length lost \<noteq> 1" by (cases lost) auto
  then show ?thesis by (simp add: checkLostDevices_def t)
qed

lemma lost_devices_reported_witness:
  "sms_of (snd (checkLostDevices True 200000 (station_init None\<lparr>m_emergency_phone := ''33102030405'',
      m_heater_counter := [(1, 5), (2, 7)],
      m_heaters := [(1, heater_update 100000 HEATER_ECO (heater_new ''DESK'' ''192.168.1.40'')),
                    (2, heater_update 190000 HEATER_ECO (heater_new [] ''192.168.1.41''))]\<rparr>)))
    = [(''33102030405'', ''WARNING! Lost connection with one device: DESK'')]"
proof -
  let ?hs = "[(1 :: u64, heater_update 100000 HEATER_ECO (heater_new ''DESK'' ''192.168.1.40'')),
      (2, heater_update 190000 HEATER_ECO (heater_new [] ''192.168.1.41''))]"
  let ?bs = "station_init None\<lparr>m_emergency_phone := ''33102030405'', m_heater_counter := [(1, 5), (2, 7)], m_heaters := ?hs\<rparr>"
  have n: "stored_name ''DESK''" by code_simp
  have inv: "device_inv ?bs" by (simp add: device_inv_def map_inv_def n)
  have l: "[(1, ''DESK'')] = map (\<lambda>e. (fst e, getName (snd e)))
      (filter (\<lambda>e. 24 * 60 * 60 \<le> 200000 - getLastRequestTimestamp (snd e)) (m_heaters ?bs))" by simp
  show ?thesis using lost_devices_reported [OF inv l] by simp
qed

section \<open>The modem's dialogue\<close>

text \<open>The status is OK (registered or roaming) only after the modem answered all three
  commands as expected; a missing or locked SIM card is reported as a communication failure,
  since no path gives \<open>MODEM_SIM_ERROR\<close>.\<close>

theorem modem_status_sound:
  "check_3g_connection env \<noteq> MODEM_SIM_ERROR
   \<and> (check_3g_connection env \<in> {MODEM_NETWORK_REGISTERED, MODEM_NETWORK_ROAMING} \<longrightarrow>
        0 \<le> me_open env \<and> me_configured env
      \<and> str_contains (modem_reply (me_reads env 0)) ''OK''
      \<and> str_contains (modem_reply (me_reads env 1)) ''+CPIN: READY''
      \<and> (str_contains (modem_reply (me_reads env 2)) ''+CREG: 0,1''
         \<or> str_contains (modem_reply (me_reads env 2)) ''+CREG: 0,5''))
   \<and> (\<not> str_contains (modem_reply (me_reads env 1)) ''+CPIN: READY'' \<longrightarrow> check_3g_connection env = MODEM_COMS_FAILURE)"
proof -
  let ?r = "modem_reply (me_reads env 2)"
  have "creg_status ?r \<noteq> MODEM_SIM_ERROR" by (simp add: creg_status_def)
  moreover have "creg_status ?r \<in> {MODEM_NETWORK_REGISTERED, MODEM_NETWORK_ROAMING} \<Longrightarrow>
      str_contains ?r ''+CREG: 0,1'' \<or> str_contains ?r ''+CREG: 0,5''"
    by (simp add: creg_status_def split: if_splits)
  ultimately show ?thesis
    unfolding check_3g_connection_def Let_def by (auto split: if_splits)
qed

lemma modem_status_sound_witness:
  "check_3g_connection sample_modem \<noteq> MODEM_SIM_ERROR
   \<and> check_3g_connection sample_modem = MODEM_NETWORK_ROAMING"
proof -
  have "check_3g_connection sample_modem = MODEM_NETWORK_ROAMING" by code_simp
  then show ?thesis using modem_status_sound [of sample_modem] by simp
qed

end
