(* ===== verification/Command_Props.thy ===== *)
theory Command_Props
  imports Command_Spec
begin

text \<open>
  Properties of the SMS commands one by one: they never fail, strangers cannot reach a locked
  station, what unlocks it, what is reported, what survives a restart and what does not, and
  how logs are cut into messages.
\<close>

section \<open>Commands never fail\<close>

text \<open>C32: whatever messages are queued, \<open>parseCommands\<close> returns: no \<open>substr\<close> and no token
  index is out of range. The configuration stays well formed, and the devices and the
  connections are not touched.\<close>

theorem parseCommands_total:
  assumes "config_inv bs"
  shows "\<exists>bs' e. parseCommands env bs = Inr (bs', e) \<and> config_inv bs'
    \<and> m_heaters bs' = m_heaters bs \<and> m_heater_counter bs' = m_heater_counter bs
    \<and> m_connections bs' = m_connections bs"
  using parse_queue_ok [OF assms refl, of env] by (auto simp: parseCommands_def elim: result_okE)

lemma parseCommands_total_witness:
  "\<exists>bs' e. parseCommands (\<lambda>_. sample_env) (station_init None\<lparr>m_commands := [([], ''unlock''), ([], ''HEATER '')]\<rparr>) = Inr (bs', e)
    \<and> config_inv bs'"
  using parseCommands_total [of "station_init None\<lparr>m_commands := [([], ''unlock''), ([], ''HEATER '')]\<rparr>" "\<lambda>_. sample_env"]
  by auto

section \<open>A locked station\<close>

text \<open>Messages arrive from the receiver's thread, then the main loop parses: one turn per entry.\<close>

fun sms_turns :: "((string \<times> string) list \<times> (nat \<Rightarrow> cmd_env)) list \<Rightarrow> base_station \<Rightarrow> cmd_result" where
  "sms_turns [] bs = Inr (bs, [])"
| "sms_turns ((arrivals, env) # turns) bs =
     (case parseCommands env (fold (\<lambda>(from, content). handleSMSCommand from content) arrivals bs) of
        Inl x \<Rightarrow> Inl x
      | Inr (bs1, e) \<Rightarrow> (case sms_turns turns bs1 of Inl x \<Rightarrow> Inl x | Inr (bs2, e') \<Rightarrow> Inr (bs2, e @ e')))"

definition stranger :: "base_station \<Rightarrow> string \<times> string \<Rightarrow> bool" where
  "stranger bs m \<longleftrightarrow> fst m \<notin> set (m_phone_whitelist bs)"

lemma handle_arrivals:
  "fold (\<lambda>(from, content). handleSMSCommand from content) arrivals bs = bs\<lparr>m_commands := m_commands bs @ arrivals\<rparr>"
  by (induction arrivals arbitrary: bs) (auto simp: handleSMSCommand_def)

lemma set_tl_subset: "set (tl xs) \<subseteq> set xs"
  by (cases xs) auto

lemma parse_stranger:
  assumes "m_locked bs" and "m_phone_whitelist bs \<noteq> []" and "\<forall>m\<in>set (m_commands bs). stranger bs m"
  shows "\<exists>e. parseCommands env bs = Inr (bs\<lparr>m_commands := tl (m_commands bs)\<rparr>, e) \<and> sms_of e = []"
proof (cases "m_commands bs")
  case Nil
  then have "bs\<lparr>m_commands := []\<rparr> = bs" by simp
  then show ?thesis using Nil by (simp add: parseCommands_def)
next
  case (Cons m q)
  then show ?thesis using assms
    by (cases m) (auto simp: parseCommands_def dropped_def set_mem_def stranger_def Let_def)
qed

text \<open>C33: while the station is locked and every queued and arriving message is from a phone
  that is not on the non-empty whitelist, any number of turns of the main loop leaves the
  configuration and the lock as they are and sends no message. This includes every
  \<open>UNLOCK\<close> message of such a phone, with the right PIN or not.\<close>

theorem strangers_powerless:
  assumes "m_locked bs" and "m_phone_whitelist bs \<noteq> []"
    and "\<forall>m\<in>set (m_commands bs). stranger bs m" and "\<forall>t\<in>set turns. \<forall>m\<in>set (fst t). stranger bs m"
  shows "\<exists>bs' e. sms_turns turns bs = Inr (bs', e) \<and> sms_of e = []
    \<and> config_of bs' = config_of bs \<and> m_locked bs' \<and> m_state_file bs' = m_state_file bs"
  using assms
proof (induction turns arbitrary: bs)
  case (Cons t turns)
  obtain arrivals env where t: "t = (arrivals, env)" by (cases t)
  let ?b = "bs\<lparr>m_commands := m_commands bs @ arrivals\<rparr>"
  have pre: "m_locked ?b" "m_phone_whitelist ?b \<noteq> []" "\<forall>m\<in>set (m_commands ?b). stranger ?b m"
    using Cons.prems t by (auto simp: stranger_def)
  obtain e where p: "parseCommands env ?b = Inr (?b\<lparr>m_commands := tl (m_commands ?b)\<rparr>, e)" and s: "sms_of e = []"
    using parse_stranger [OF pre] by blast
  let ?b1 = "?b\<lparr>m_commands := tl (m_commands ?b)\<rparr>"
  have "\<forall>m\<in>set (m_commands ?b1). stranger ?b1 m"
    using pre(3) set_tl_subset [of "m_commands ?b"] by (auto simp: stranger_def)
  moreover have "\<forall>t\<in>set turns. \<forall>m\<in>set (fst t). stranger ?b1 m"
    using Cons.prems(4) by (simp add: stranger_def)
  ultimately obtain bs' e' where "sms_turns turns ?b1 = Inr (bs', e')" and "sms_of e' = []"
    and "config_of bs' = config_of ?b1" and "m_locked bs'" and "m_state_file bs' = m_state_file ?b1"
    using Cons.IH [of ?b1] Cons.prems(1,2) by auto
  then show ?case using t p s by (simp add: handle_arrivals config_of_def)
qed simp

lemma strangers_powerless_witness:
  "\<exists>bs' e. sms_turns [([(''33199999999'', ''UNLOCK 1234'')], \<lambda>_. sample_env)]
      (station_init None\<lparr>m_locked := True, m_phone_whitelist := [''33102030405'']\<rparr>) = Inr (bs', e)
    \<and> sms_of e = [] \<and> m_locked bs'"
  using strangers_powerless [of "station_init None\<lparr>m_locked := True, m_phone_whitelist := [''33102030405'']\<rparr>"
      "[([(''33199999999'', ''UNLOCK 1234'')], \<lambda>_. sample_env)]"]
  by (auto simp: station_init_def stranger_def)

text \<open>A result predicate that says nothing of failures.\<close>

definition result_sat :: "(base_station \<Rightarrow> bool) \<Rightarrow> cmd_result \<Rightarrow> bool" where
  "result_sat P r = (case r of Inl _ \<Rightarrow> True | Inr (bs, _) \<Rightarrow> P bs)"

lemma result_sat_if:
  assumes "c \<Longrightarrow> result_sat P a" and "\<not> c \<Longrightarrow> result_sat P b"
  shows "result_sat P (if c then a else b)"
  using assms by simp

definition lock_kept :: "base_station \<Rightarrow> base_station \<Rightarrow> bool" where
  "lock_kept bs bs' \<longleftrightarrow> (m_locked bs \<longrightarrow> m_locked bs')"

lemma cmd_lock_kept:
  "result_sat (lock_kept bs) (cmd_all env st answer from bs)"
  "result_sat (lock_kept bs) (cmd_heater env st suffix trace from content bs)"
  "result_sat (lock_kept bs) (cmd_get_default from bs)"
  "result_sat (lock_kept bs) (cmd_get_heater from content bs)"
  "result_sat (lock_kept bs) (cmd_get_ip env from bs)"
  "result_sat (lock_kept bs) (cmd_lock from bs)"
  "result_sat (lock_kept bs) (cmd_add_phone env from content bs)"
  "result_sat (lock_kept bs) (cmd_remove_phone env from content bs)"
  "result_sat (lock_kept bs) (cmd_set_emergency env from content bs)"
  "result_sat (lock_kept bs) (cmd_remove_emergency from bs)"
  "result_sat (lock_kept bs) (cmd_help from bs)"
  "result_sat (lock_kept bs) (cmd_debug_filestate from bs)"
  "result_sat (lock_kept bs) (cmd_debug_state from bs)"
  "result_sat (lock_kept bs) (cmd_debug_wifi env from bs)"
  "result_sat (lock_kept bs) (cmd_debug_log env from bs)"
  "result_sat (lock_kept bs) (cmd_unknown from bs)"
  "result_sat (lock_kept bs) (Inr (bs, e))"
  by (simp_all add: result_sat_def lock_kept_def saveState_eq Let_def cmd_all_def cmd_heater_def
      cmd_get_default_def cmd_get_heater_def cmd_get_ip_def cmd_lock_def cmd_add_phone_def
      cmd_remove_phone_def cmd_set_emergency_def cmd_remove_emergency_def cmd_help_def
      cmd_debug_filestate_def cmd_debug_state_def cmd_debug_wifi_def cmd_debug_log_def cmd_unknown_def
      split: option.split)

lemma cmd_unlock_kept:
  "tokens content ! 1 \<noteq> BASE_STATION_PIN \<Longrightarrow> result_sat (lock_kept bs) (cmd_unlock from content bs)"
  by (simp add: result_sat_def lock_kept_def cmd_unlock_def Let_def)

lemma exec_command_lock_kept:
  assumes "\<not> (starts_with content ''UNLOCK '' \<and> tokens content ! 1 = BASE_STATION_PIN)"
  shows "result_sat (lock_kept bs) (exec_command env from content bs)"
  unfolding exec_command_def
  by (intro result_sat_if; (rule cmd_lock_kept | rule cmd_unlock_kept; insert assms; simp))

text \<open>The only command that opens a locked station is \<open>UNLOCK\<close> with the PIN as its
  second word.\<close>

theorem unlock_needs_pin:
  assumes "exec_command env from content bs = Inr (bs', e)" and "m_locked bs" and "\<not> m_locked bs'"
  shows "starts_with content ''UNLOCK '' \<and> tokens content ! 1 = BASE_STATION_PIN"
proof (rule ccontr)
  assume "\<not> ?thesis"
  then have "result_sat (lock_kept bs) (exec_command env from content bs)" by (rule exec_command_lock_kept)
  then show False using assms by (simp add: result_sat_def lock_kept_def)
qed

lemma unlock_needs_pin_witness:
  "starts_with ''UNLOCK 1234'' ''UNLOCK '' \<and> tokens ''UNLOCK 1234'' ! 1 = BASE_STATION_PIN"
proof -
  let ?bs = "station_init None\<lparr>m_locked := True\<rparr>"
  have t: "tokens ''UNLOCK 1234'' = [''UNLOCK'', ''1234'']" by code_simp
  have "exec_command sample_env [] ''UNLOCK 1234'' ?bs
    = Inr (?bs\<lparr>m_locked := False\<rparr>, [Log Debug ''1234'', Sms [] ''UNLOCKED''])"
    by (simp add: exec_command_def starts_with_def ends_with_def cmd_unlock_def t BASE_STATION_PIN_def)
  then show ?thesis by (rule unlock_needs_pin) simp_all
qed

section \<open>Reports\<close>

lemma exec_get_heater:
  "exec_command env from (''GET HEATER '' @ n) bs = cmd_get_heater from (''GET HEATER '' @ n) bs"
  by (simp add: exec_command_def starts_with_def)

text \<open>\<open>GET HEATER\<close> with a valid name answers with the state that a heater of that name
  is told when it asks, and changes nothing.\<close>

theorem get_heater_reports:
  assumes "stored_name n"
  shows "exec_command env from (''GET HEATER '' @ n) bs
    = Inr (bs, [Sms from (''HEATER '' @ n @ '' '' @ state_label (requested_state bs n))])"
proof -
  have "substr_from (''GET HEATER '' @ n) 11 = Some n" by (simp add: substr_from_def)
  moreover have "check_heater_name n" "map toupper n = n" "n \<noteq> []"
    using assms stored_name_nonempty by (auto simp: stored_name_def)
  ultimately show ?thesis
    by (simp add: exec_get_heater [simplified] cmd_get_heater_def [of _ "''GET HEATER '' @ n", simplified]
        requested_state_def Let_def)
qed

lemma get_heater_reports_witness:
  "exec_command sample_env [] ''GET HEATER DESK'' (station_init None) = Inr (station_init None, [Sms [] ''HEATER DESK DEFROST''])"
proof -
  have d: "stored_name ''DESK''" by code_simp
  have "requested_state (station_init None) ''DESK'' = HEATER_DEFROST"
    by (simp add: requested_state_def station_init_def map_find_def Let_def)
  then show ?thesis using get_heater_reports [OF d, of sample_env "[]" "station_init None"] by simp
qed

text \<open>\<open>HEATER OFF\<close>, a \<open>HEATER\<close> message without a name, is no error: the length of the
  name is computed below zero in \<open>size_t\<close>, the word itself is taken for the name, and a
  heater called \<open>OFF\<close> is switched off.\<close>

theorem heater_off_names_a_heater:
  "\<exists>l. exec_command env from ''HEATER OFF'' bs
    = Inr (saved (ce_writable env) (set_one_state ''OFF'' HEATER_OFF bs), l @ [Sms from ''HEATER OFF OFF''])"
proof -
  have c: "check_heater_name ''OFF''" by code_simp
  have x: "exec_command env from ''HEATER OFF'' bs = cmd_heater env HEATER_OFF '' OFF'' False from ''HEATER OFF'' bs"
    by (simp add: exec_command_def starts_with_def ends_with_def)
  show ?thesis unfolding x using c
    by (simp add: cmd_heater_def substr_from_def size_sub_def Let_def saveState_eq set_one_state_def)
qed

section \<open>What survives a restart\<close>

text \<open>The state file holds the configuration of the running station.\<close>

definition synced :: "base_station \<Rightarrow> bool" where
  "synced bs \<longleftrightarrow> m_state_file bs = Some (save_text bs)"

definition sync_kept :: "base_station \<Rightarrow> base_station \<Rightarrow> bool" where
  "sync_kept bs bs' \<longleftrightarrow> (synced bs \<or> config_of bs' \<noteq> config_of bs \<longrightarrow> synced bs')"

lemma synced_saved [simp]: "synced (saved True bs)"
  by (simp add: synced_def saved_def save_text_def)

lemma config_of_locked [simp]: "config_of (bs\<lparr>m_locked := b\<rparr>) = config_of bs"
  by (simp add: config_of_def)

lemma cmd_sync_kept:
  assumes w: "ce_writable env"
  shows "result_sat (sync_kept bs) (cmd_all env st answer from bs)"
    "result_sat (sync_kept bs) (cmd_heater env st suffix trace from content bs)"
    "result_sat (sync_kept bs) (cmd_get_default from bs)"
    "result_sat (sync_kept bs) (cmd_get_heater from content bs)"
    "result_sat (sync_kept bs) (cmd_get_ip env from bs)"
    "result_sat (sync_kept bs) (cmd_lock from bs)"
    "result_sat (sync_kept bs) (cmd_unlock from content bs)"
    "result_sat (sync_kept bs) (cmd_add_phone env from content bs)"
    "result_sat (sync_kept bs) (cmd_remove_phone env from content bs)"
    "result_sat (sync_kept bs) (cmd_set_emergency env from content bs)"
    "result_sat (sync_kept bs) (cmd_help from bs)"
    "result_sat (sync_kept bs) (cmd_debug_filestate from bs)"
    "result_sat (sync_kept bs) (cmd_debug_state from bs)"
    "result_sat (sync_kept bs) (cmd_debug_wifi env from bs)"
    "result_sat (sync_kept bs) (cmd_debug_log env from bs)"
    "result_sat (sync_kept bs) (cmd_unknown from bs)"
    "result_sat (sync_kept bs) (Inr (bs, e))"
  using w
  by (simp_all add: result_sat_def sync_kept_def saveState_eq Let_def cmd_all_def cmd_heater_def
      cmd_get_default_def cmd_get_heater_def cmd_get_ip_def cmd_lock_def cmd_unlock_def cmd_add_phone_def
      cmd_remove_phone_def cmd_set_emergency_def cmd_help_def cmd_debug_filestate_def cmd_debug_state_def
      cmd_debug_wifi_def cmd_debug_log_def cmd_unknown_def synced_def save_text_def split: option.split)
     (simp_all add: saved_def save_text_def)

lemma exec_command_sync_kept:
  assumes "content \<noteq> ''REMOVE EMERGENCY PHONE''" and "ce_writable env"
  shows "result_sat (sync_kept bs) (exec_command env from content bs)"
  unfolding exec_command_def
  by (intro result_sat_if; (rule cmd_sync_kept [OF assms(2)] | (rule FalseE; insert assms(1); simp)))

lemma base_station_new_eq:
  assumes "\<forall>k. 0 \<le> fds k" and "loadState (station_init disk) = ((bs0, True), e0)"
  shows "\<exists>bs. base_station_new fds rnd w disk = Inr (bs, e0) \<and> config_of bs = config_of bs0
    \<and> m_locked bs = m_locked bs0 \<and> config_inv bs = config_inv bs0"
proof -
  have t: "timer_start (fds k) p q timer_new = Inr \<lparr>t_fd = fds k, t_spec = Some (timer_spec p q)\<rparr>" for k p q
    using assms(1) by (simp add: timer_start_new)
  show ?thesis
    unfolding base_station_new_def assms(2) t prod.case sum.case by (simp add: config_of_def config_inv_def)
qed

lemma loadState_unlocked: "\<not> m_locked (fst (fst (loadState (station_init disk))))"
  using same_rest_fields(1) [OF loadState_rest, of "station_init disk"] by (simp add: station_init_def)

lemma restart_synced:
  assumes "config_inv bs" and "synced bs" and "\<forall>k. 0 \<le> fds k"
  shows "\<exists>bs' e. base_station_new fds rnd w (m_state_file bs) = Inr (bs', e)
    \<and> config_of bs' = config_of bs \<and> \<not> m_locked bs' \<and> config_inv bs'"
proof -
  obtain bs0 l e0 where ld: "loadState (station_init (m_state_file bs)) = ((bs0, l), e0)"
    by (metis prod.collapse)
  have f: "m_state_file bs = Some (save_text bs)" using assms(2) by (simp add: synced_def)
  have "l" "config_of bs0 = config_of bs" using loadState_saved [OF assms(1)] ld f by simp_all
  moreover have "\<not> m_locked bs0" using loadState_unlocked [of "m_state_file bs"] ld by simp
  moreover have "config_inv bs0" using loadState_inv [of "station_init (m_state_file bs)"] ld by simp
  ultimately show ?thesis using base_station_new_eq [OF assms(3), of "m_state_file bs" bs0 e0 rnd w] ld by auto
qed

text \<open>C11: with a writable state file, a command other than \<open>REMOVE EMERGENCY PHONE\<close> that changes
  the configuration, or one run when the file is in step with the configuration, leaves the
  file in step: a station started again has the same default state, heater states, whitelist
  and emergency phone. It comes up unlocked, whether it was locked or not. (The file can be out
  of step: a fallback of the monitors and \<open>REMOVE EMERGENCY PHONE\<close> do not save, and then a
  command that changes nothing does not either.)\<close>

theorem commands_survive_restart:
  assumes "exec_command env from (normalise content) bs = Inr (bs', e)"
    and "normalise content \<noteq> ''REMOVE EMERGENCY PHONE''" and "ce_writable env"
    and "config_inv bs" and "synced bs \<or> config_of bs' \<noteq> config_of bs" and "\<forall>k. 0 \<le> fds k"
  shows "\<exists>bs'' e'. base_station_new fds rnd w (m_state_file bs') = Inr (bs'', e')
    \<and> config_of bs'' = config_of bs' \<and> \<not> m_locked bs''"
proof -
  have "config_inv bs'" using exec_normalised [OF assms(4), of env "from" content] assms(1) by (auto simp: keeps_def)
  moreover have "synced bs'"
    using exec_command_sync_kept [OF assms(2,3), of bs "from"] assms(1,5) by (auto simp: result_sat_def sync_kept_def)
  ultimately show ?thesis using restart_synced [OF _ _ assms(6)] by blast
qed

lemma lock_command:
  "exec_command env from ''LOCK'' bs = cmd_lock from bs"
  by (simp add: exec_command_def starts_with_def)

lemma commands_survive_restart_witness:
  "\<exists>bs' e bs'' e'. exec_command sample_env ''33102030405'' ''ALL ECO'' (station_init None\<lparr>m_locked := True\<rparr>) = Inr (bs', e)
    \<and> base_station_new (\<lambda>k. int k + 3) 7 True (m_state_file bs') = Inr (bs'', e')
    \<and> config_of bs'' = config_of bs' \<and> \<not> m_locked bs''"
proof -
  let ?b = "station_init None\<lparr>m_locked := True\<rparr>"
  have n: "normalise ''all eco'' = ''ALL ECO''" by code_simp
  obtain e where x: "exec_command sample_env ''33102030405'' (normalise ''all eco'') ?b
      = Inr (saved True (set_all_states HEATER_ECO ?b), e)"
    unfolding n by (simp add: exec_all cmd_all_eq sample_env_def)
  have "m_heater_default_state ?b \<noteq> HEATER_ECO" by (simp add: station_init_def)
  then have c: "config_of (saved True (set_all_states HEATER_ECO ?b)) \<noteq> config_of ?b"
    by (simp add: config_of_def saved_def set_all_states_def)
  have "\<exists>bs'' e'. base_station_new (\<lambda>k. int k + 3) 7 True (m_state_file (saved True (set_all_states HEATER_ECO ?b))) = Inr (bs'', e')
    \<and> config_of bs'' = config_of (saved True (set_all_states HEATER_ECO ?b)) \<and> \<not> m_locked bs''"
    by (rule commands_survive_restart [OF x]) (use c in \<open>simp_all add: n sample_env_def config_inv_def station_init_def\<close>)
  then show ?thesis using x unfolding n by blast
qed

text \<open>\<open>REMOVE EMERGENCY PHONE\<close> does not save: the number is gone from the running
  station, but a station started again has it back.\<close>

theorem removed_emergency_phone_returns:
  assumes "config_inv bs" and "synced bs" and "\<forall>k. 0 \<le> fds k"
  shows "\<exists>bs' e bs'' e'. exec_command env from ''REMOVE EMERGENCY PHONE'' bs = Inr (bs', e)
    \<and> m_emergency_phone bs' = []
    \<and> base_station_new fds rnd w (m_state_file bs') = Inr (bs'', e')
    \<and> m_emergency_phone bs'' = m_emergency_phone bs"
proof -
  have x: "exec_command env from ''REMOVE EMERGENCY PHONE'' bs = cmd_remove_emergency from bs"
    by (simp add: exec_command_def starts_with_def)
  obtain bs'' e' where "base_station_new fds rnd w (m_state_file bs) = Inr (bs'', e')"
    and "config_of bs'' = config_of bs" using restart_synced [OF assms] by blast
  then show ?thesis unfolding x by (simp add: cmd_remove_emergency_def config_of_def)
qed

lemma removed_emergency_phone_returns_witness:
  "\<exists>bs'' e'. base_station_new (\<lambda>k. int k + 3) 7 True
      (Some (save_text (station_init None\<lparr>m_emergency_phone := ''33102030405''\<rparr>))) = Inr (bs'', e')
    \<and> m_emergency_phone bs'' = ''33102030405''"
proof -
  let ?b = "station_init None\<lparr>m_emergency_phone := ''33102030405''\<rparr>"
  let ?s = "?b\<lparr>m_state_file := Some (save_text ?b)\<rparr>"
  have c: "check_phone_number_format ''33102030405''" by code_simp
  have "config_inv (station_init None)" by simp
  then have i: "config_inv ?s" using c by (simp add: config_inv_def)
  have sy: "synced ?s" by (simp add: synced_def save_text_def)
  show ?thesis
    using removed_emergency_phone_returns [OF i sy, of "\<lambda>k. int k + 3" sample_env "[]" 7 True]
    by (auto simp: exec_command_def starts_with_def cmd_remove_emergency_def)
qed

section \<open>Logs by message\<close>

lemma debug_log_command: "exec_command env from ''DEBUG LOG'' bs = cmd_debug_log env from bs"
  by (simp add: exec_command_def starts_with_def)

lemma sms_of_map [simp]: "sms_of (map (Sms to) ts) = map (\<lambda>t. (to, t)) ts"
  by (induction ts) auto

text \<open>\<open>DEBUG LOG\<close> sends what it read of the journal, whole and in order, in messages of
  at most 512 characters; what it reads is below 2047 characters, not the 1024 of the
  comment beside it.\<close>

theorem debug_log_chunks:
  assumes "ce_journal env = Some out" and "read_pipe (Some 1024) 1024 [] out \<noteq> []"
  shows "\<exists>e. exec_command env from ''DEBUG LOG'' bs = Inr (bs, e)
    \<and> concat (map snd (sms_of e)) = read_pipe (Some 1024) 1024 [] out
    \<and> (\<forall>m\<in>set (sms_of e). fst m = from \<and> snd m \<noteq> [] \<and> length (snd m) \<le> 512)
    \<and> length (concat (map snd (sms_of e))) < 2047"
proof -
  have "length (read_pipe (Some 1024) 1024 [] out) < 1024 + (1024 - 1)" by (rule read_pipe_limit) simp
  then show ?thesis unfolding debug_log_command
    using assms chunks_bound [of _ 512 "read_pipe (Some 1024) 1024 [] out"]
    by (auto simp: cmd_debug_log_def Let_def concat_chunks comp_def)
qed

lemma debug_log_chunks_witness:
  "\<exists>e. exec_command (sample_env\<lparr>ce_journal := Some ''boot''\<rparr>) [] ''DEBUG LOG'' (station_init None) = Inr (station_init None, e)
    \<and> concat (map snd (sms_of e)) = ''boot''"
proof -
  have r: "read_pipe (Some 1024) 1024 [] ''boot'' = ''boot''" by code_simp
  show ?thesis
    using debug_log_chunks [of "sample_env\<lparr>ce_journal := Some ''boot''\<rparr>" "''boot''" "[]" "station_init None"]
    by (auto simp: r)
qed

end
