(* ===== verification/Station.thy ===== *)
theory Station
  imports Device_Laws Monitor_Props Command_Props
begin

text \<open>
  The base station as a whole. The main loop calls the nine operations of \<open>process\<close> in order;
  between two of them the threads of the device server and of the SMS receiver may queue a
  connection or a message (each under its mutex). An event is one such operation with what
  the system answers it; the step relation runs events in any order, which covers every
  interleaving at the grain of the operations. A new connection has a descriptor that is not
  open already.
\<close>

datatype station_event =
    New_Device int int
  | Sms_In string string
  | Do_Connections int conn_env
  | Do_Commands "nat \<Rightarrow> cmd_env"
  | Do_Stale bool int
  | Do_Wifi bool "16 word option"
  | Do_Lost bool int
  | Do_3G bool modem_env
  | Do_Daemon bool "(int \<times> stat_file) list option"
  | Do_Boot bool
  | Do_Cleanup bool

fun do_event :: "station_event \<Rightarrow> base_station \<Rightarrow> exn + base_station res" where
  "do_event (New_Device now fd) bs = Inr (handleNewDevice now fd bs, [])"
| "do_event (Sms_In sender content) bs = Inr (handleSMSCommand sender content bs, [])"
| "do_event (Do_Connections poll_ret env) bs = handleConnections poll_ret env bs"
| "do_event (Do_Commands env) bs = parseCommands env bs"
| "do_event (Do_Stale expired t) bs = Inr (checkStaleConnections expired t bs)"
| "do_event (Do_Wifi expired flags) bs = Inr (checkWifi expired flags bs)"
| "do_event (Do_Lost expired now) bs = Inr (checkLostDevices expired now bs)"
| "do_event (Do_3G expired env) bs = Inr (check3G expired env bs)"
| "do_event (Do_Daemon expired proc) bs = Inr (checkSMSDaemon expired proc bs)"
| "do_event (Do_Boot expired) bs = Inr (sendBootMsg expired bs)"
| "do_event (Do_Cleanup expired) bs = Inr (cleanupSMS_tick expired bs)"

fun do_events :: "station_event list \<Rightarrow> base_station \<Rightarrow> exn + base_station res" where
  "do_events [] bs = Inr (bs, [])"
| "do_events (ev # evs) bs =
     (case do_event ev bs of
        Inl x \<Rightarrow> Inl x
      | Inr (bs1, e) \<Rightarrow> (case do_events evs bs1 of Inl x \<Rightarrow> Inl x | Inr (bs2, e') \<Rightarrow> Inr (bs2, e @ e')))"

text \<open>
  What one pass of the main loop is given: the results of the polls, the environments, and
  whether the call \<open>reboot\<close> works, should the pass make it.
\<close>

record tick_env =
  te_poll :: int
  te_conn :: conn_env
  te_cmd :: "nat \<Rightarrow> cmd_env"
  te_expired :: "nat \<Rightarrow> bool"
  te_wifi :: "16 word option"
  te_modem :: modem_env
  te_proc :: "(int \<times> stat_file) list option"
  te_reboots :: bool

definition process :: "tick_env \<Rightarrow> base_station \<Rightarrow> exn + base_station res" where
  "process te = do_events
     [Do_Connections (te_poll te) (te_conn te), Do_Commands (te_cmd te),
      Do_Stale (te_expired te 0) (ce_steady (te_conn te)), Do_Wifi (te_expired te 1) (te_wifi te),
      Do_Lost (te_expired te 2) (ce_time (te_conn te)), Do_3G (te_expired te 3) (te_modem te),
      Do_Daemon (te_expired te 4) (te_proc te), Do_Boot (te_expired te 5), Do_Cleanup (te_expired te 6)]"

definition event_ok :: "station_event \<Rightarrow> base_station \<Rightarrow> bool" where
  "event_ok ev bs = (case ev of New_Device now fd \<Rightarrow> fd \<notin> set (conn_fds bs) | _ \<Rightarrow> True)"

inductive station_step :: "base_station \<Rightarrow> station_event \<Rightarrow> base_station \<Rightarrow> bool" where
  step: "event_ok ev bs \<Longrightarrow> do_event ev bs = Inr (bs', e) \<Longrightarrow> station_step bs ev bs'"

inductive station_reach :: "base_station \<Rightarrow> bool" where
  start: "base_station_new fds rnd w disk = Inr (bs, e) \<Longrightarrow> station_reach bs"
| later: "station_reach bs \<Longrightarrow> station_step bs ev bs' \<Longrightarrow> station_reach bs'"

inductive_cases station_stepE: "station_step bs ev bs'"

section \<open>The invariant of the station\<close>

definition station_inv :: "base_station \<Rightarrow> bool" where
  "station_inv bs \<longleftrightarrow> config_inv bs \<and> device_inv bs \<and> distinct (conn_fds bs)"

lemma conn_fds_fields [simp]:
  "conn_fds (bs\<lparr>m_commands := q\<rparr>) = conn_fds bs"
  "device_inv (bs\<lparr>m_commands := q\<rparr>) = device_inv bs"
  by (simp_all add: conn_fds_def device_inv_def)

text \<open>A message of a device leaves the configuration, the queue and the lock alone.\<close>

definition same_config :: "base_station \<Rightarrow> base_station \<Rightarrow> bool" where
  "same_config bs bs' \<longleftrightarrow> config_of bs' = config_of bs \<and> m_commands bs' = m_commands bs
     \<and> m_locked bs' = m_locked bs \<and> m_state_file bs' = m_state_file bs"

lemma same_config_refl [simp]: "same_config bs bs"
  by (simp add: same_config_def)

lemma same_config_inv: "same_config bs bs' \<Longrightarrow> config_inv bs' = config_inv bs"
  by (simp add: same_config_def config_of_def config_inv_def)

lemma parseMessage_config:
  assumes "parseMessage env conn data bs = Inr ((bs', conn'), e)"
  shows "same_config bs bs'"
  by (rule parseMessage_cases [of data env conn bs])
     (use assms in \<open>auto simp: parse_request after_request_def same_config_def config_of_def split: write_result.splits\<close>)

lemma handle_connection_config:
  assumes "handle_connection env fd bs = Inr (bs', e)"
  shows "same_config bs bs'"
  using assms
  by (auto simp: handle_connection_def same_config_def config_of_def split: if_splits option.splits read_result.splits sum.splits)
     (use parseMessage_config in \<open>fastforce simp: same_config_def config_of_def\<close>)+

lemma handle_fds_config: "handle_fds env fds bs = Inr (bs', e) \<Longrightarrow> same_config bs bs'"
proof (induction fds arbitrary: bs e)
  case (Cons fd fds)
  obtain bs1 e1 e2 where "handle_connection env fd bs = Inr (bs1, e1)" and "handle_fds env fds bs1 = Inr (bs', e2)"
    using Cons.prems by (auto split: sum.splits)
  then show ?case using handle_connection_config Cons.IH by (fastforce simp: same_config_def)
qed simp

lemma handleConnections_config: "handleConnections p env bs = Inr (bs', e) \<Longrightarrow> same_config bs bs'"
  using handle_fds_config by (auto simp: handleConnections_def split: if_splits)

lemma handleConnections_inv:
  assumes "handleConnections p env bs = Inr (bs', e)" and "station_inv bs"
  shows "station_inv bs'"
proof (cases "0 < p")
  case True
  have c: "config_inv bs'" using handleConnections_config [OF assms(1)] same_config_inv assms(2) by (auto simp: station_inv_def)
  have d: "distinct (conn_fds bs)" "device_inv bs" using assms(2) by (auto simp: station_inv_def)
  have "handle_fds env (conn_fds bs) bs = Inr (bs', e) \<or> bs' = bs"
    using assms(1) True by (auto simp: handleConnections_def conn_fds_def split: if_splits)
  then show ?thesis using handle_fds_closes [OF _ d d(1)] c assms(2) by (auto simp: station_inv_def)
next
  case False
  then show ?thesis using assms by (auto simp: handleConnections_def split: if_splits)
qed

lemma fallback_inv:
  "config_inv bs \<Longrightarrow> config_inv (fallback_all bs)"
  "device_inv (fallback_all bs) = device_inv bs" "conn_fds (fallback_all bs) = conn_fds bs"
  using config_inv_set_all by (simp_all add: fallback_all_def device_inv_def conn_fds_def)

lemma counters_inv [simp]:
  "station_inv (bs\<lparr>m_wifi_error_counter := n\<rparr>) = station_inv bs"
  "station_inv (bs\<lparr>m_3g_error_counter := n\<rparr>) = station_inv bs"
  "station_inv (bs\<lparr>m_daemon_error_counter := n\<rparr>) = station_inv bs"
  by (simp_all add: station_inv_def config_inv_def device_inv_def conn_fds_def)

lemma fallback_station_inv: "station_inv bs \<Longrightarrow> station_inv (fallback_all bs)"
  by (simp add: station_inv_def fallback_inv)

lemma monitors_inv:
  assumes "station_inv bs"
  shows "station_inv (fst (checkWifi x flags bs))" "station_inv (fst (check3G x env bs))"
    "station_inv (fst (checkSMSDaemon x proc bs))" "station_inv (fst (sendBootMsg x bs))"
    "station_inv (fst (cleanupSMS_tick x bs))"
  using assms
  by (simp_all add: checkWifi_def check3G_def checkSMSDaemon_def sendBootMsg_def cleanupSMS_tick_def Let_def
      fallback_station_inv split: option.split)

lemma lost_inv:
  assumes "station_inv bs"
  shows "station_inv (fst (checkLostDevices x now bs))"
proof (cases x)
  case True
  let ?hs = "filter (\<lambda>e. now - getLastRequestTimestamp (snd e) < 24 * 60 * 60) (m_heaters bs)"
  have d: "device_inv bs" using assms by (simp add: station_inv_def)
  have inv: "map_inv (m_heaters bs)" using d by (simp add: device_inv_def)
  have "fst (checkLostDevices True now bs) = bs\<lparr>m_heaters := ?hs\<rparr>"
    by (simp add: checkLostDevices_def take_lost_eq [OF inv] lost_iff not_le)
  moreover have "device_inv (bs\<lparr>m_heaters := ?hs\<rparr>)"
    using d by (auto simp: device_inv_def map_inv_filter)
  ultimately show ?thesis using assms True by (simp add: station_inv_def config_inv_def conn_fds_def)
qed (simp add: assms checkLostDevices_def)

lemma stale_inv:
  assumes "station_inv bs"
  shows "station_inv (fst (checkStaleConnections x t bs))"
proof (cases x)
  case True
  have "fst (checkStaleConnections True t bs) = bs\<lparr>m_connections := filter (\<lambda>c. \<not> is_stale t c) (m_connections bs)\<rparr>"
    using drop_stale_eq(1) [of t "m_connections bs"] by (auto simp: checkStaleConnections_def split: prod.split)
  then show ?thesis using assms True
    by (simp add: station_inv_def config_inv_def conn_fds_def distinct_map_filter)
qed (simp add: assms checkStaleConnections_def)

lemma commands_inv:
  assumes "parseCommands env bs = Inr (bs', e)" and "station_inv bs"
  shows "station_inv bs'"
  using parse_queue_ok [OF _ refl, of bs env] assms
  by (auto simp: parseCommands_def station_inv_def result_ok_def device_inv_def conn_fds_def)

lemma step_inv:
  assumes "station_inv bs" and "event_ok ev bs" and "do_event ev bs = Inr (bs', e)"
  shows "station_inv bs'"
proof (cases ev)
  case (New_Device now fd)
  then show ?thesis using assms
    by (auto simp: handleNewDevice_def station_inv_def conn_fds_def event_ok_def config_inv_def)
next
  case (Sms_In sender content)
  then show ?thesis using assms by (auto simp: handleSMSCommand_def station_inv_def)
next
  case (Do_Connections p env)
  then show ?thesis using assms handleConnections_inv by auto
next
  case (Do_Commands env)
  then show ?thesis using assms commands_inv by auto
next
  case (Do_Stale x t)
  then have "bs' = fst (checkStaleConnections x t bs)" using assms(3) by simp
  then show ?thesis using stale_inv [OF assms(1)] by simp
next
  case (Do_Lost x now)
  then have "bs' = fst (checkLostDevices x now bs)" using assms(3) by simp
  then show ?thesis using lost_inv [OF assms(1)] by simp
next
  case (Do_Wifi x flags)
  then have "bs' = fst (checkWifi x flags bs)" using assms(3) by simp
  then show ?thesis using monitors_inv(1) [OF assms(1)] by simp
next
  case (Do_3G x env)
  then have "bs' = fst (check3G x env bs)" using assms(3) by simp
  then show ?thesis using monitors_inv(2) [OF assms(1)] by simp
next
  case (Do_Daemon x proc)
  then have "bs' = fst (checkSMSDaemon x proc bs)" using assms(3) by simp
  then show ?thesis using monitors_inv(3) [OF assms(1)] by simp
next
  case (Do_Boot x)
  then have "bs' = fst (sendBootMsg x bs)" using assms(3) by simp
  then show ?thesis using monitors_inv(4) [OF assms(1)] by simp
next
  case (Do_Cleanup x)
  then have "bs' = fst (cleanupSMS_tick x bs)" using assms(3) by simp
  then show ?thesis using monitors_inv(5) [OF assms(1)] by simp
qed

lemma reach_inv: "station_reach bs \<Longrightarrow> station_inv bs"
proof (induction rule: station_reach.induct)
  case (start fds rnd w disk bs e)
  show ?case using base_station_new_state [OF start] by (simp add: station_inv_def device_inv_def conn_fds_def)
qed (auto elim!: station_stepE intro: step_inv)

text \<open>C4: in every state the station can reach from a start on any state file, whatever the
  devices and the senders of messages do and in whatever order the operations and the other
  threads run, the configuration is well formed, the tables of devices are sorted, have
  48-bit addresses and valid names and a counter for each device, and no two connections
  share a descriptor.\<close>

theorem reachable_inv:
  assumes "station_reach bs"
  shows "config_inv bs \<and> device_inv bs \<and> distinct (conn_fds bs)"
  using reach_inv [OF assms] by (simp add: station_inv_def)

lemma station_start_sample:
  "\<exists>bs e. base_station_new (\<lambda>k. int k + 3) 7 True (Some (save_text (station_init None))) = Inr (bs, e)"
proof -
  let ?b = "station_init None\<lparr>m_state_file := Some (save_text (station_init None))\<rparr>"
  have "synced ?b" by (simp add: synced_def save_text_def)
  then show ?thesis using restart_synced [of ?b "\<lambda>k. int k + 3" 7 True] by auto
qed

lemma station_reach_sample:
  "\<exists>bs. station_reach bs \<and> m_connections bs = [] \<and> m_commands bs = [] \<and> \<not> m_locked bs"
proof -
  obtain bs e where b: "base_station_new (\<lambda>k. int k + 3) 7 True (Some (save_text (station_init None))) = Inr (bs, e)"
    using station_start_sample by blast
  then show ?thesis using start base_station_new_state(2,3,6) [OF b] by blast
qed

lemma reachable_inv_witness:
  "\<exists>bs. station_reach bs \<and> config_inv bs \<and> device_inv bs"
  using station_reach_sample reachable_inv by blast

section \<open>The only way to fail\<close>

text \<open>
  What a client can do to the station: send half a message, a request whose name has no end
  byte, or a request whose reply it does not take: \<open>write\<close> then waits for ever, or raises
  \<open>SIGPIPE\<close> when the connection is reset.
\<close>

definition is_request :: "byte list \<Rightarrow> bool" where
  "is_request data \<longleftrightarrow> data ! 0 = 1 \<and> data ! 1 = REQ_HEATER_STATE"

definition endless_name :: "byte list \<Rightarrow> bool" where
  "endless_name data \<longleftrightarrow> (\<forall>b\<in>set (drop 16 data). b \<noteq> 0 \<and> b \<noteq> 0xFF)"

definition reply_fails :: "(nat \<Rightarrow> sys_write) \<Rightarrow> exn \<Rightarrow> bool" where
  "reply_fails w x \<longleftrightarrow> (case write_loop w 0 MESSAGE_SIZE 0 of
       Wrote n \<Rightarrow> False | Write_Blocks \<Rightarrow> x = Blocked | Write_Killed \<Rightarrow> x = Killed)"

definition stops_parser :: "(nat \<Rightarrow> sys_write) \<Rightarrow> byte list \<Rightarrow> exn \<Rightarrow> bool" where
  "stops_parser w data x \<longleftrightarrow>
     is_request data \<and> (if endless_name data then x = Bad_Access else reply_fails w x)"

lemma parse_header_request:
  "is_request data \<longleftrightarrow> hd_version (parse_header data) = 1 \<and> hd_type (parse_header data) = REQ_HEATER_STATE"
  by (simp add: is_request_def parse_header_def)

lemma endless_name_iff: "endless_name data \<longleftrightarrow> parse_name (drop header_size data) = None"
  by (simp add: endless_name_def parse_name_None header_size_def name_end_def conj_commute)

lemma parseMessage_stops:
  "parseMessage env conn data bs = Inl x \<longleftrightarrow> stops_parser (ce_write env (dc_fd conn)) data x"
proof (rule parseMessage_cases [of data env conn bs])
  fix raw
  assume r: "hd_version (parse_header data) = 1" "hd_type (parse_header data) = REQ_HEATER_STATE"
    "parse_name (drop header_size data) = Some raw"
  then show ?thesis
    by (auto simp: parse_request [OF r] stops_parser_def parse_header_request endless_name_iff reply_fails_def
        split: write_result.split)
next
  assume "hd_version (parse_header data) = 1" "hd_type (parse_header data) = REQ_HEATER_STATE"
    "parse_name (drop header_size data) = None" "parseMessage env conn data bs = Inl Bad_Access"
  then show ?thesis by (auto simp: stops_parser_def parse_header_request endless_name_iff)
next
  fix e assume "parseMessage env conn data bs = Inr ((bs, conn), e)"
    "\<not> (hd_version (parse_header data) = 1 \<and> hd_type (parse_header data) = REQ_HEATER_STATE)"
  then show ?thesis by (auto simp: stops_parser_def parse_header_request)
qed

definition bad_client :: "conn_env \<Rightarrow> int \<Rightarrow> exn \<Rightarrow> bool" where
  "bad_client env fd x \<longleftrightarrow> ce_readable env fd
     \<and> (case read_loop (ce_read env fd) 0 [] of
          Read_Blocks \<Rightarrow> x = Blocked
        | Read_Message data \<Rightarrow> stops_parser (ce_write env fd) data x
        | _ \<Rightarrow> False)"

lemma handle_connection_fails:
  assumes "handle_connection env fd bs = Inl x"
  shows "bad_client env fd x"
  using assms
  by (auto simp: handle_connection_def bad_client_def parseMessage_stops dest!: split_conn_Some
      split: if_splits option.splits read_result.splits sum.splits)

lemma handle_fds_fails: "handle_fds env fds bs = Inl x \<Longrightarrow> \<exists>fd\<in>set fds. bad_client env fd x"
proof (induction fds arbitrary: bs)
  case (Cons fd fds)
  show ?case
  proof (cases "handle_connection env fd bs")
    case (Inl y)
    then show ?thesis using Cons.prems handle_connection_fails by auto
  next
    case (Inr r)
    then show ?thesis using Cons by (auto split: prod.splits sum.splits)
  qed
qed simp

lemma do_event_fails:
  assumes "station_inv bs" and "do_event ev bs = Inl x"
  shows "\<exists>p env. ev = Do_Connections p env \<and> 0 < p \<and> (\<exists>fd\<in>set (conn_fds bs). bad_client env fd x)"
proof -
  have inv: "config_inv bs" using assms(1) by (simp add: station_inv_def)
  have "do_event (Do_Commands env) bs \<noteq> Inl x" for env
    using parse_queue_ok [OF inv refl, of env] by (auto simp: parseCommands_def result_ok_def)
  then obtain p env where ev: "ev = Do_Connections p env" using assms(2) by (cases ev) auto
  then have "0 < p" and "handle_fds env (conn_fds bs) bs = Inl x"
    using assms(2) by (auto simp: handleConnections_def conn_fds_def split: if_splits)
  then show ?thesis using handle_fds_fails ev by blast
qed

text \<open>C5: in a reachable state no operation of the main loop throws, whatever message,
  modem answer or file it meets. Four things stop it, all in the hands of a connected device:
  a part of a message with nothing after it, for whose rest \<open>read\<close> waits for ever; a request
  whose name has no end byte, which is read past the buffer; a request whose sender does not
  take the reply, for which \<open>write\<close> waits for ever; and one whose sender reset the connection,
  where \<open>SIGPIPE\<close> kills the daemon. (The shell commands, the modem and the files are taken to
  answer, and a reboot the station orders is no failure here.)\<close>

theorem only_bad_clients_stop_it:
  assumes "station_reach bs" and "do_event ev bs = Inl x"
  shows "\<exists>p env. ev = Do_Connections p env \<and> (\<exists>fd\<in>set (conn_fds bs). ce_readable env fd
    \<and> (x = Blocked \<and> read_loop (ce_read env fd) 0 [] = Read_Blocks
       \<or> (\<exists>data. read_loop (ce_read env fd) 0 [] = Read_Message data \<and> is_request data
            \<and> (x = Bad_Access \<and> endless_name data
               \<or> x = Blocked \<and> write_loop (ce_write env fd) 0 MESSAGE_SIZE 0 = Write_Blocks
               \<or> x = Killed \<and> write_loop (ce_write env fd) 0 MESSAGE_SIZE 0 = Write_Killed))))"
proof -
  obtain p env fd where ev: "ev = Do_Connections p env" "fd \<in> set (conn_fds bs)" "bad_client env fd x"
    using do_event_fails [OF reach_inv [OF assms(1)] assms(2)] by blast
  then show ?thesis
    by (intro exI [of _ p] exI [of _ env] conjI bexI [of _ fd])
       (auto simp: bad_client_def stops_parser_def reply_fails_def split: read_result.splits if_splits write_result.splits)
qed

section \<open>A pass of the main loop returns\<close>

lemma do_events_return:
  assumes "station_inv bs" and "\<forall>ev\<in>set evs. event_ok ev = (\<lambda>_. True) \<and> (\<forall>p env. ev \<noteq> Do_Connections p env)"
  shows "\<exists>r. do_events evs bs = Inr r"
  using assms
proof (induction evs arbitrary: bs)
  case (Cons ev evs)
  obtain bs1 e1 where d: "do_event ev bs = Inr (bs1, e1)"
    using do_event_fails [OF Cons.prems(1), of ev] Cons.prems(2) by (cases "do_event ev bs") auto
  then have "station_inv bs1" using step_inv [OF Cons.prems(1) _ d] Cons.prems(2) by simp
  then obtain bs2 e2 where "do_events evs bs1 = Inr (bs2, e2)" using Cons by fastforce
  then show ?case using d by simp
qed simp

lemma bad_client_stops:
  assumes "bad_client env fd x" and "fd \<in> set (conn_fds bs)"
  shows "handle_connection env fd bs = Inl x"
proof -
  obtain pre conn post where s: "split_conn fd (m_connections bs) = Some (pre, conn, post)"
    using assms(2) split_conn_None [of fd "m_connections bs"]
    by (cases "split_conn fd (m_connections bs)") (auto simp: conn_fds_def)
  then have "dc_fd conn = fd" using split_conn_Some by blast
  then have "parseMessage env conn data bs = Inl x" if "stops_parser (ce_write env fd) data x" for data
    using that by (simp add: parseMessage_stops)
  then show ?thesis
    using assms(1) s by (auto simp: bad_client_def handle_connection_def split: read_result.splits)
qed

lemma bad_client_stops_all:
  assumes "fd \<in> set fds" and "bad_client env fd x" and "distinct fds" and "set fds \<subseteq> set (conn_fds bs)"
    and "distinct (conn_fds bs)" and "device_inv bs"
  shows "\<exists>y. handle_fds env fds bs = Inl y"
  using assms
proof (induction fds arbitrary: bs)
  case (Cons f fds)
  show ?case
  proof (cases "handle_connection env f bs")
    case (Inr r)
    then obtain bs1 e1 where h: "handle_connection env f bs = Inr (bs1, e1)" by (cases r) auto
    then have "fd \<noteq> f" using bad_client_stops [OF Cons.prems(2), of bs] Cons.prems(4) by auto
    have k: "conn_fds bs1 = filter (\<lambda>g. \<not> (g = f \<and> stream_ended env g)) (conn_fds bs)" "device_inv bs1"
      using handle_connection_fds [OF h Cons.prems(5,6)] Cons.prems(4) by auto
    have "\<exists>y. handle_fds env fds bs1 = Inl y"
      using Cons.prems \<open>fd \<noteq> f\<close> k by (intro Cons.IH) auto
    then show ?thesis using h by auto
  qed simp
qed simp

lemma process_returns:
  assumes inv: "station_inv bs"
  shows "(\<exists>bs' e. process te bs = Inr (bs', e))
    \<longleftrightarrow> \<not> (0 < te_poll te \<and> (\<exists>fd\<in>set (conn_fds bs). \<exists>x. bad_client (te_conn te) fd x))"
proof -
  have d: "distinct (conn_fds bs)" "device_inv bs" using inv by (simp_all add: station_inv_def)
  show ?thesis
  proof (cases "handleConnections (te_poll te) (te_conn te) bs")
    case (Inl x)
    have "do_event (Do_Connections (te_poll te) (te_conn te)) bs = Inl x" using Inl by simp
    from do_event_fails [OF inv this] Inl show ?thesis by (auto simp: process_def)
  next
    case (Inr r)
    then obtain bs1 e1 where h: "handleConnections (te_poll te) (te_conn te) bs = Inr (bs1, e1)" by (cases r) auto
    then have "station_inv bs1" using handleConnections_inv inv by blast
    then have "\<exists>bs' e. process te bs = Inr (bs', e)"
      using do_events_return [of bs1 "tl [Do_Connections (te_poll te) (te_conn te), Do_Commands (te_cmd te),
        Do_Stale (te_expired te 0) (ce_steady (te_conn te)), Do_Wifi (te_expired te 1) (te_wifi te),
        Do_Lost (te_expired te 2) (ce_time (te_conn te)), Do_3G (te_expired te 3) (te_modem te),
        Do_Daemon (te_expired te 4) (te_proc te), Do_Boot (te_expired te 5), Do_Cleanup (te_expired te 6)]"] h
      by (fastforce simp: process_def event_ok_def fun_eq_iff split: sum.splits)
    moreover have "\<not> bad_client (te_conn te) fd x" if "0 < te_poll te" "fd \<in> set (conn_fds bs)" for fd x
    proof
      assume "bad_client (te_conn te) fd x"
      then have "\<exists>y. handle_fds (te_conn te) (conn_fds bs) bs = Inl y"
        using that(2) d by (intro bad_client_stops_all) auto
      then show False using h that by (auto simp: handleConnections_def conn_fds_def split: if_splits)
    qed
    ultimately show ?thesis by blast
  qed
qed

lemma do_events_inv:
  "do_events evs bs = Inr (bs', e) \<Longrightarrow> station_inv bs \<Longrightarrow> \<forall>ev\<in>set evs. event_ok ev = (\<lambda>_. True) \<Longrightarrow> station_inv bs'"
proof (induction evs arbitrary: bs e)
  case (Cons ev evs)
  then obtain bs1 e1 e2 where d: "do_event ev bs = Inr (bs1, e1)" and r: "do_events evs bs1 = Inr (bs', e2)"
    by (auto split: sum.splits)
  have "event_ok ev bs" using Cons.prems(3) by simp
  then have "station_inv bs1" by (rule step_inv [OF Cons.prems(2) _ d])
  then show ?case using Cons.IH [OF r] Cons.prems(3) by simp
qed simp

lemma process_inv: "process te bs = Inr (bs', e) \<Longrightarrow> station_inv bs \<Longrightarrow> station_inv bs'"
  unfolding process_def by (erule do_events_inv) (simp_all add: event_ok_def fun_eq_iff)

text \<open>C6: a pass of the main loop returns exactly when no connected device that \<open>poll\<close> finds
  readable has sent half a message, a request without an end byte, or a request whose reply
  it does not take, so that \<open>write\<close> blocks or raises \<open>SIGPIPE\<close>. (The shell commands, the modem
  and the files are taken to answer, and a reboot the pass orders is left aside.)\<close>

theorem pass_returns_iff:
  assumes "station_reach bs"
  shows "(\<exists>bs' e. process te bs = Inr (bs', e))
    \<longleftrightarrow> \<not> (0 < te_poll te \<and> (\<exists>fd\<in>set (conn_fds bs). \<exists>x. bad_client (te_conn te) fd x))"
  by (rule process_returns [OF reach_inv [OF assms]])

lemma pass_returns_iff_witness:
  "\<exists>bs. station_reach bs \<and> (\<forall>te. \<exists>bs' e. process te bs = Inr (bs', e))"
proof -
  obtain bs where r: "station_reach bs" and "m_connections bs = []" using station_reach_sample by blast
  then have c: "conn_fds bs = []" by (simp add: conn_fds_def)
  have "\<exists>bs' e. process te bs = Inr (bs', e)" for te using pass_returns_iff [OF r, of te] c by simp
  then show ?thesis using r by blast
qed

section \<open>The lock\<close>

definition unlocks :: "string \<Rightarrow> bool" where
  "unlocks content \<longleftrightarrow> starts_with (normalise content) ''UNLOCK '' \<and> tokens (normalise content) ! 1 = BASE_STATION_PIN"

text \<open>What a locked station keeps: the lock, the whitelist and no message that opens it.\<close>

definition harmless :: "string std_set \<Rightarrow> string \<times> string \<Rightarrow> bool" where
  "harmless wl m \<longleftrightarrow> (wl \<noteq> [] \<and> fst m \<notin> set wl) \<or> \<not> unlocks (snd m)"

definition locked_with :: "string std_set \<Rightarrow> (string \<times> string) list \<Rightarrow> base_station \<Rightarrow> bool" where
  "locked_with wl q bs \<longleftrightarrow> m_locked bs \<and> m_phone_whitelist bs = wl \<and> m_commands bs = q"

lemma cmd_locked_with:
  assumes "locked_with wl q bs"
  shows "result_sat (locked_with wl q) (cmd_all env st answer from bs)"
    "result_sat (locked_with wl q) (cmd_heater env st suffix trace from content bs)"
    "result_sat (locked_with wl q) (cmd_get_default from bs)"
    "result_sat (locked_with wl q) (cmd_get_heater from content bs)"
    "result_sat (locked_with wl q) (cmd_get_ip env from bs)"
    "result_sat (locked_with wl q) (cmd_lock from bs)"
    "result_sat (locked_with wl q) (cmd_add_phone env from content bs)"
    "result_sat (locked_with wl q) (cmd_remove_phone env from content bs)"
    "result_sat (locked_with wl q) (cmd_set_emergency env from content bs)"
    "result_sat (locked_with wl q) (cmd_remove_emergency from bs)"
    "result_sat (locked_with wl q) (cmd_help from bs)"
    "result_sat (locked_with wl q) (cmd_debug_filestate from bs)"
    "result_sat (locked_with wl q) (cmd_debug_state from bs)"
    "result_sat (locked_with wl q) (cmd_debug_wifi env from bs)"
    "result_sat (locked_with wl q) (cmd_debug_log env from bs)"
    "result_sat (locked_with wl q) (cmd_unknown from bs)"
    "result_sat (locked_with wl q) (Inr (bs, e))"
  using assms
  by (simp_all add: result_sat_def locked_with_def saveState_eq Let_def cmd_all_def cmd_heater_def
      cmd_get_default_def cmd_get_heater_def cmd_get_ip_def cmd_lock_def cmd_add_phone_def
      cmd_remove_phone_def cmd_set_emergency_def cmd_remove_emergency_def cmd_help_def
      cmd_debug_filestate_def cmd_debug_state_def cmd_debug_wifi_def cmd_debug_log_def cmd_unknown_def
      split: option.split)

lemma cmd_unlock_locked_with:
  "locked_with wl q bs \<Longrightarrow> tokens content ! 1 \<noteq> BASE_STATION_PIN \<Longrightarrow> result_sat (locked_with wl q) (cmd_unlock from content bs)"
  by (simp add: result_sat_def cmd_unlock_def Let_def)

lemma exec_command_locked_with:
  assumes "locked_with wl q bs" and "\<not> unlocks content"
  shows "result_sat (locked_with wl q) (exec_command env from (normalise content) bs)"
  unfolding exec_command_def
  by (intro result_sat_if; (rule cmd_locked_with [OF assms(1)] | rule cmd_unlock_locked_with [OF assms(1)];
      insert assms(2); simp add: unlocks_def))

lemma parse_queue_locked_with:
  assumes "locked_with wl q bs" and "\<forall>m\<in>set q. harmless wl m"
  shows "result_sat (\<lambda>bs'. \<exists>q'. locked_with wl q' bs' \<and> set q' \<subseteq> set q) (parse_queue env q bs)"
  using assms
proof (induction env q bs rule: parse_queue.induct)
  case (1 env bs)
  then show ?case by (auto simp: result_sat_def)
next
  case (2 env sender content q bs)
  let ?bs1 = "bs\<lparr>m_commands := q\<rparr>"
  have l: "locked_with wl q ?bs1" and h: "harmless wl (sender, content)"
    using "2.prems" by (simp_all add: locked_with_def)
  show ?case
  proof (cases "dropped ?bs1 sender")
    case True
    then show ?thesis using l by (auto simp: result_sat_def Let_def)
  next
    case False
    then have "\<not> unlocks content"
      using h l by (auto simp: harmless_def dropped_def locked_with_def set_mem_def)
    note x = exec_command_locked_with [OF l this, of "env 0" sender]
    show ?thesis
    proof (cases "exec_command (env 0) sender (normalise content) ?bs1")
      case (Inl y)
      then show ?thesis using False by (simp add: result_sat_def)
    next
      case (Inr r)
      obtain bs2 e where r: "r = (bs2, e)" by (cases r)
      have l2: "locked_with wl q bs2" using x Inr r by (simp add: result_sat_def)
      have "result_sat (\<lambda>bs'. \<exists>q'. locked_with wl q' bs' \<and> set q' \<subseteq> set q) (parse_queue (\<lambda>k. env (Suc k)) q bs2)"
        using "2.IH" [OF refl False Inr r [symmetric] l2] "2.prems"(2) r by simp
      then show ?thesis using False Inr r by (auto simp: result_sat_def Let_def split: sum.splits)
    qed
  qed
qed

lemma event_locked_with:
  assumes "locked_with wl q bs" and "\<forall>m\<in>set q. harmless wl m"
    and "\<forall>sender content. ev = Sms_In sender content \<longrightarrow> harmless wl (sender, content)"
    and "do_event ev bs = Inr (bs', e)"
  shows "\<exists>q'. locked_with wl q' bs' \<and> (\<forall>m\<in>set q'. harmless wl m)"
proof (cases ev)
  case (Sms_In sender content)
  then show ?thesis using assms
    by (intro exI [of _ "q @ [(sender, content)]"]) (auto simp: handleSMSCommand_def locked_with_def)
next
  case (Do_Commands env)
  then have "parse_queue env q bs = Inr (bs', e)" using assms by (simp add: parseCommands_def locked_with_def)
  then show ?thesis using parse_queue_locked_with [OF assms(1,2), of env] assms(2) by (auto simp: result_sat_def)
next
  case (Do_Connections p env)
  then show ?thesis using assms handleConnections_config [of p env bs bs' e]
    by (auto simp: locked_with_def same_config_def config_of_def)
next
  case (Do_Stale x t)
  then have "bs' = bs\<lparr>m_connections := m_connections bs'\<rparr>"
    using assms(4) checkStale_frame(1) [of x t bs] by (metis do_event.simps(5) fst_conv sum.inject(2))
  then have "m_locked bs' = m_locked bs" "m_phone_whitelist bs' = m_phone_whitelist bs" "m_commands bs' = m_commands bs"
    by (metis base_station.select_convs base_station.surjective base_station.update_convs(1))+
  then show ?thesis using assms(1,2) by (auto simp: locked_with_def)
next
  case (New_Device now fd)
  then show ?thesis using assms by (auto simp: handleNewDevice_def locked_with_def)
next
  case (Do_Wifi x flags)
  then show ?thesis using assms by (auto simp: checkWifi_def locked_with_def Let_def split: if_splits option.splits)
next
  case (Do_Lost x now)
  then show ?thesis using assms by (auto simp: checkLostDevices_def locked_with_def split: if_splits prod.splits)
next
  case (Do_3G x env)
  then show ?thesis using assms by (auto simp: check3G_def locked_with_def fallback_all_def Let_def split: if_splits)
next
  case (Do_Daemon x proc)
  then show ?thesis using assms by (auto simp: checkSMSDaemon_def locked_with_def fallback_all_def Let_def split: if_splits)
next
  case (Do_Boot x)
  then show ?thesis using assms by (auto simp: sendBootMsg_def split: if_splits)
next
  case (Do_Cleanup x)
  then show ?thesis using assms by (auto simp: cleanupSMS_tick_def)
qed

text \<open>C9: a locked station stays locked, with the same whitelist, through any sequence of
  events in which every message that opens it (\<open>UNLOCK\<close> and the PIN) comes from a phone off
  the non-empty whitelist: knowing the PIN is not enough.\<close>

theorem lock_holds:
  assumes "do_events evs bs = Inr (bs', e)" and "m_locked bs"
    and "\<forall>m\<in>set (m_commands bs). harmless (m_phone_whitelist bs) m"
    and "\<forall>sender content. Sms_In sender content \<in> set evs \<longrightarrow> harmless (m_phone_whitelist bs) (sender, content)"
  shows "m_locked bs' \<and> m_phone_whitelist bs' = m_phone_whitelist bs"
proof -
  have "\<exists>q'. locked_with wl q' bs'" if "locked_with wl q bs" "\<forall>m\<in>set q. harmless wl m"
    "\<forall>sender content. Sms_In sender content \<in> set evs \<longrightarrow> harmless wl (sender, content)" for wl q
    using assms(1) that
  proof (induction evs arbitrary: bs e q)
    case (Cons ev evs)
    obtain bs1 e1 e2 where one: "do_event ev bs = Inr (bs1, e1)" and rest: "do_events evs bs1 = Inr (bs', e2)"
      using Cons.prems(1) by (auto split: sum.splits)
    obtain q' where "locked_with wl q' bs1" "\<forall>m\<in>set q'. harmless wl m"
      using event_locked_with [OF Cons.prems(2,3) _ one] Cons.prems(4) by auto
    then show ?case using Cons.IH [OF rest] Cons.prems(4) by auto
  qed auto
  then show ?thesis using assms(2-4) by (fastforce simp: locked_with_def)
qed

lemma lock_holds_witness:
  "\<exists>bs' e. do_events [Sms_In ''33199999999'' ''UNLOCK 1234'', Do_Commands (\<lambda>_. sample_env)]
      (station_init None\<lparr>m_locked := True, m_phone_whitelist := [''33102030405'']\<rparr>) = Inr (bs', e) \<and> m_locked bs'"
proof -
  let ?bs = "station_init None\<lparr>m_locked := True, m_phone_whitelist := [''33102030405'']\<rparr>"
  let ?evs = "[Sms_In ''33199999999'' ''UNLOCK 1234'', Do_Commands (\<lambda>_. sample_env)]"
  obtain bs' e where x: "do_events ?evs ?bs = Inr (bs', e)"
    by (auto simp: handleSMSCommand_def parseCommands_def Let_def dropped_def set_mem_def station_init_def)
  have "m_locked bs' \<and> m_phone_whitelist bs' = m_phone_whitelist ?bs"
    by (rule lock_holds [OF x]) (auto simp: station_init_def harmless_def)
  then show ?thesis using x by blast
qed

lemma only_bad_clients_stop_it_witness:
  "\<exists>bs fd. station_reach bs \<and> fd \<in> set (conn_fds bs)"
proof -
  obtain bs where r: "station_reach bs" and c: "m_connections bs = []" using station_reach_sample by blast
  let ?b = "handleNewDevice 0 9 bs"
  let ?data = "[1, 1] @ replicate 62 0 :: byte list"
  let ?env = "sample_conn_env\<lparr>ce_read := \<lambda>_ _. Rd_Bytes ?data, ce_write := \<lambda>_ _. Wr_Killed\<rparr>"
  have r2: "station_reach ?b"
    by (rule later [OF r step [of "New_Device 0 9"]]) (simp_all add: event_ok_def conn_fds_def c)
  have m: "read_loop (\<lambda>_. Rd_Bytes ?data) 0 [] = Read_Message ?data"
    using read_loop_chunks [of "[?data]" "[]" ?data "[]" "\<lambda>_. Rd_Bytes ?data" 0] by (simp add: MESSAGE_SIZE_def)
  have k: "write_loop (\<lambda>_. Wr_Killed) 0 MESSAGE_SIZE 0 = Write_Killed"
    by (subst write_loop.simps) (simp add: MESSAGE_SIZE_def)
  have "is_request ?data" and "\<not> endless_name ?data"
    by (simp_all add: is_request_def REQ_HEATER_STATE_def endless_name_def)
  then have "stops_parser (ce_write ?env 9) ?data Killed" by (simp add: stops_parser_def reply_fails_def k)
  then have "parseMessage ?env \<lparr>dc_fd = 9, dc_last_seen = 0\<rparr> ?data ?b = Inl Killed"
    by (simp add: parseMessage_stops)
  then have "do_event (Do_Connections 1 ?env) ?b = Inl Killed"
    using m c by (simp add: handleConnections_def handle_connection_def handleNewDevice_def sample_conn_env_def)
  from only_bad_clients_stop_it [OF r2 this] r2 show ?thesis by blast
qed

end
