(* ===== verification/Servers.thy ===== *)
theory Servers
  imports Effects
begin

text \<open>
  The life cycle of the two servers and the command line: \<open>device_server.cpp\<close> (the listening
  socket and the accepting thread), \<open>web_server.cpp\<close> (the libmicrohttpd daemon) and the
  options of \<open>main.cpp\<close>. The results of the system calls are inputs.
\<close>

section \<open>The device server\<close>

record device_server =
  ds_running :: bool
  ds_thread :: bool
  ds_fd :: int
  ds_port :: u32

definition device_server_new :: "u32 \<Rightarrow> device_server" where
  "device_server_new port = \<lparr>ds_running = False, ds_thread = False, ds_fd = -1, ds_port = port\<rparr>"

text \<open>\<open>htons\<close> takes a 16-bit number.\<close>

definition bound_port :: "device_server \<Rightarrow> 16 word" where
  "bound_port ds = ucast (ds_port ds)"

text \<open>\<open>sock\<close>, \<open>bind_ret\<close> and \<open>listen_ret\<close>: the results of the three calls, the last by descriptor.\<close>

definition device_server_start :: "int \<Rightarrow> int \<Rightarrow> (int \<Rightarrow> int) \<Rightarrow> device_server \<Rightarrow> (exn + device_server) \<times> device_server \<times> effect list" where
  "device_server_start sock bind_ret listen_ret ds =
     (if ds_running ds then (Inr ds, ds, [Log Warn ''Attempting to start already running device server''])
      else
        let ds1 = ds\<lparr>ds_fd := sock\<rparr>
        in if sock < 0 then
             (Inl (Runtime_Error ''Failed to create socket for device server''), ds1,
              [Log Err ''Failed to create socket for device server''])
           else
             let ds2 = (if bind_ret < 0 then ds1\<lparr>ds_fd := -1\<rparr> else ds1);
                 e2 = (if bind_ret < 0 then [Close_Fd sock, Log Err ''Failed to bind device server socket''] else [])
             in if listen_ret (ds_fd ds2) < 0 then
                  let msg = ''Failed to listen on port '' @ dec (unat (ds_port ds2))
                  in (Inl (Runtime_Error msg), ds2\<lparr>ds_fd := -1\<rparr>, e2 @ [Close_Fd (ds_fd ds2), Log Err msg])
                else
                  let ds3 = ds2\<lparr>ds_running := True, ds_thread := True\<rparr> in (Inr ds3, ds3, e2))"

definition device_server_stop :: "device_server \<Rightarrow> device_server res" where
  "device_server_stop ds =
     (if \<not> ds_running ds then (ds, [])
      else (ds\<lparr>ds_running := False, ds_thread := False\<rparr>, [Log Info ''Device server stopped'']))"

text \<open>
  One turn of the loop of \<open>run\<close>. The result is the descriptor given to the callback, if any;
  \<open>has_callback\<close> is whether one was set.
\<close>

definition device_server_turn :: "bool \<Rightarrow> int \<Rightarrow> bool \<Rightarrow> int \<Rightarrow> string \<Rightarrow> (exn + int option) \<times> effect list" where
  "device_server_turn has_callback ret pollin client_fd peer =
     (if ret < 0 then
        let msg = ''Device server poll error -'' @ dec (nat (- ret)) in (Inl (Runtime_Error msg), [Log Err msg])
      else if ret = 0 then (Inr None, [])
      else if \<not> pollin then (Inr None, [])
      else if client_fd < 0 then (Inr None, [])
      else let e = [Log Debug (''New device connection from '' @ peer)]
           in if has_callback then (Inr (Some client_fd), e) else (Inr None, e @ [Close_Fd client_fd]))"

text \<open>
  The destructor: it joins the thread without asking it to end, so on a running server it
  waits for a loop that runs on (\<open>None\<close>).
\<close>

definition device_server_delete :: "device_server \<Rightarrow> effect list option" where
  "device_server_delete ds = (if ds_running ds then None else Some [Close_Fd (ds_fd ds)])"

section \<open>The web server\<close>

record web_server =
  ws_daemon :: "int option"

definition web_server_new :: web_server where "web_server_new = \<lparr>ws_daemon = None\<rparr>"

definition web_server_start :: "int option \<Rightarrow> web_server \<Rightarrow> (exn + web_server) \<times> effect list" where
  "web_server_start started ws =
     (if ws_daemon ws \<noteq> None then (Inr ws, [Log Warn ''Attempted to start already running web server''])
      else case started of
        None \<Rightarrow> (Inl (Runtime_Error ''Failed to start web server''), [Log Err ''Failed to start web server''])
      | Some d \<Rightarrow> (Inr (ws\<lparr>ws_daemon := Some d\<rparr>), [Log Info (''Web server started. Listening on port '' @ dec 80)]))"

definition web_server_stop :: "web_server \<Rightarrow> web_server res" where
  "web_server_stop ws =
     (case ws_daemon ws of
        Some d \<Rightarrow> (ws, [Stop_Daemon d])
      | None \<Rightarrow> (ws, [Log Warn ''Attempted to stop already stopped web server'']))"

definition web_server_delete :: "web_server \<Rightarrow> web_server res" where
  "web_server_delete ws = web_server_stop ws"

section \<open>The command line\<close>

text \<open>\<open>std::stoi\<close> in base ten: blanks, a sign, digits; what follows is ignored.\<close>

definition stoi :: "string \<Rightarrow> exn + int" where
  "stoi s =
     (let t = dropWhile isspace s;
          (neg, u) = (case t of [] \<Rightarrow> (False, t)
             | c # r \<Rightarrow> if c = CHR ''-'' then (True, r) else if c = CHR ''+'' then (False, r) else (False, t));
          ds = takeWhile is_digit u;
          v = (if neg then - int (dec_value ds) else int (dec_value ds))
      in if ds = [] then Inl Invalid_Argument
         else if v < - (2 ^ 31) \<or> 2 ^ 31 \<le> v then Inl Out_Of_Range
         else Inr v)"

definition DEFAULT_DEVICE_SERVER_PORT :: int where "DEFAULT_DEVICE_SERVER_PORT = 32322"

datatype main_result = Run int | Help | Version | Invalid string | Throw exn

text \<open>The loop over the arguments after the program's name.\<close>

fun parse_args :: "string list \<Rightarrow> int \<Rightarrow> main_result" where
  "parse_args [] port = Run port"
| "parse_args (opt # args) port =
     (if opt = ''--device-server-port'' \<and> args \<noteq> [] then
        (case stoi (hd args) of Inl x \<Rightarrow> Throw x | Inr p \<Rightarrow> parse_args (tl args) p)
      else if opt = ''--help'' \<or> opt = ''-h'' then Help
      else if opt = ''--version'' \<or> opt = ''-v'' then Version
      else Invalid opt)"

text \<open>The port the server listens on: \<open>int\<close> to \<open>unsigned int\<close> to \<open>uint16_t\<close>.\<close>

definition listening_port :: "int \<Rightarrow> 16 word" where
  "listening_port port = bound_port (device_server_new (word_of_int port))"

section \<open>Laws\<close>

text \<open>A failed start leaves the device server stopped with no descriptor of its own open, and
  a start that succeeds is running on the new socket; a server that runs is not started
  again.\<close>

theorem device_server_start_safe:
  assumes "device_server_start sock bind_ret listen_ret ds = (r, ds', e)" and "listen_ret (-1) < 0"
  shows "(case r of
      Inl x \<Rightarrow> \<not> ds_running ds' \<and> ds_fd ds' < 0 \<and> (0 \<le> sock \<longrightarrow> sock \<in> set (closed_fds e))
    | Inr d \<Rightarrow> d = ds' \<and> ds_running ds'
        \<and> (if ds_running ds then ds' = ds else ds_fd ds' = sock \<and> 0 \<le> sock \<and> 0 \<le> bind_ret \<and> closed_fds e = []))"
  using assms by (auto simp: device_server_start_def Let_def split: if_splits)

lemma device_server_start_safe_witness:
  "\<exists>r ds' e. device_server_start 5 (-1) (\<lambda>fd. if fd < 0 then -1 else 0) (device_server_new 32322) = (r, ds', e)
    \<and> \<not> ds_running ds' \<and> ds_fd ds' < 0"
proof -
  obtain r ds' e where x: "device_server_start 5 (-1) (\<lambda>fd. if fd < 0 then -1 else 0) (device_server_new 32322) = (r, ds', e)"
    by (metis prod.collapse)
  then have "\<exists>y. r = Inl y" by (auto simp: device_server_start_def device_server_new_def Let_def)
  then show ?thesis using device_server_start_safe [OF x] x by auto
qed

definition stops :: "effect list \<Rightarrow> int list" where
  "stops es = concat (map (\<lambda>e. case e of Stop_Daemon d \<Rightarrow> [d] | _ \<Rightarrow> []) es)"

text \<open>A web server that was started and stopped is stopped a second time by its destructor:
  \<open>stop\<close> does not clear the daemon.\<close>

theorem web_server_stopped_twice:
  assumes "web_server_start (Some d) web_server_new = (Inr ws, e)"
  shows "stops (snd (then_do (web_server_stop ws) web_server_delete)) = [d, d]"
  using assms by (auto simp: web_server_start_def web_server_new_def web_server_stop_def web_server_delete_def then_do_def stops_def)

lemma web_server_stopped_twice_witness:
  "\<exists>ws e. web_server_start (Some 1) web_server_new = (Inr ws, e) \<and> stops (snd (then_do (web_server_stop ws) web_server_delete)) = [1, 1]"
proof -
  have x: "web_server_start (Some 1) web_server_new = (Inr \<lparr>ws_daemon = Some 1\<rparr>, [Log Info (''Web server started. Listening on port '' @ dec 80)])"
    by (simp add: web_server_start_def web_server_new_def)
  show ?thesis using web_server_stopped_twice [OF x] x by blast
qed

lemma stoi_dec:
  assumes "n < 2 ^ 31"
  shows "stoi (dec n) = Inr (int n)"
proof -
  have d: "\<forall>c\<in>set (dec n). is_digit c" using dec_digits by blast
  obtain c r where c: "dec n = c # r" by (cases "dec n") (use dec_value_dec [of n] in \<open>auto simp: dec.simps split: if_splits\<close>)
  have "is_digit c" using d c by simp
  then have "\<not> isspace c" "c \<noteq> CHR ''-''" "c \<noteq> CHR ''+''"
    using digit_not_space by (auto simp: is_digit_def less_eq_char_def)
  moreover have "takeWhile is_digit (dec n) = dec n" using d by (simp add: takeWhile_eq_all_conv)
  moreover have "dec_value (dec n) = n" by simp
  ultimately show ?thesis using assms c by (simp add: stoi_def)
qed

text \<open>\<open>--device-server-port\<close> with a number is the port the program runs with; the socket
  is bound to it modulo 2 to the 16.\<close>

theorem port_option:
  assumes "n < 2 ^ 31"
  shows "parse_args [''--device-server-port'', dec n] DEFAULT_DEVICE_SERVER_PORT = Run (int n)
    \<and> unat (listening_port (int n)) = n mod 2 ^ 16"
proof -
  have "unat (listening_port (int n)) = n mod 2 ^ 16"
    using assms by (simp add: listening_port_def bound_port_def device_server_new_def unsigned_ucast_eq take_bit_eq_mod
        unsigned_of_nat mod_mod_cancel)
  then show ?thesis using stoi_dec [OF assms] by simp
qed

lemma port_option_witness:
  "parse_args [''--device-server-port'', dec 97858] DEFAULT_DEVICE_SERVER_PORT = Run 97858
   \<and> unat (listening_port 97858) = 32322"
  using port_option [of 97858] by simp

end
