(* ===== verification/Logger.thy ===== *)
theory Logger
  imports Effects
begin

text \<open>
  \<open>logger.cpp\<close>: records go to the standard output and to a numbered file; a file that has
  reached one mebibyte is closed, the next number is opened, and the file sixteen numbers
  back is deleted. The file system is the map from paths to contents. What the system answers
  is an input: the time stamp of a record (\<open>strftime\<close> of the wall clock), whether the file takes
  the whole line, whether the old file can be deleted and the new one opened. The stream
  \<open>m_file\<close> goes bad when a write or an open fails: it then writes nothing more and \<open>tellp\<close> is
  -1, so that no further file is opened.
\<close>

definition MAX_LOG_FILESIZE :: nat where "MAX_LOG_FILESIZE = 1024 * 1024"
definition MAX_LOG_COUNT :: nat where "MAX_LOG_COUNT = 16"

type_synonym files = "string \<rightharpoonup> string"

record logger =
  lg_dir :: string
  lg_index :: u64
  lg_file :: "string option"
  lg_cout :: string
  lg_files :: files

definition log_path :: "string \<Rightarrow> u64 \<Rightarrow> string" where
  "log_path dir i = dir @ ''/log-'' @ dec (unat i) @ ''.txt''"

text \<open>\<open>le_takes\<close>: how much of the line the file takes when it does not take all of it.\<close>

record log_env =
  le_stamp :: string
  le_takes :: "nat option"
  le_unlinks :: bool
  le_opens :: bool

text \<open>
  \<open>m_file.open(path, out | trunc)\<close>; \<open>lg_file\<close> is the path of the open stream while it is good.
  Opening a stream that is open fails.
\<close>

definition log_open :: "bool \<Rightarrow> string \<Rightarrow> logger \<Rightarrow> logger" where
  "log_open opens path l =
     (if opens \<and> lg_file l = None then l\<lparr>lg_file := Some path, lg_files := (lg_files l)(path \<mapsto> [])\<rparr>
      else l\<lparr>lg_file := None\<rparr>)"

definition startLogging :: "bool \<Rightarrow> string \<Rightarrow> logger \<Rightarrow> logger" where
  "startLogging opens dir l = log_open opens (log_path dir 0) (l\<lparr>lg_dir := dir, lg_index := 0\<rparr>)"

definition stopLogging :: "logger \<Rightarrow> logger" where
  "stopLogging l = l\<lparr>lg_file := None\<rparr>"

fun log_prefix :: "log_level \<Rightarrow> string" where
  "log_prefix Err = ''ERR''"
| "log_prefix Warn = ''WARN''"
| "log_prefix Info = ''INFO''"
| "log_prefix Debug = ''DEBUG''"

definition log_line :: "string \<Rightarrow> log_level \<Rightarrow> string \<Rightarrow> string" where
  "log_line stamp lev s = ''['' @ stamp @ '']['' @ log_prefix lev @ ''] '' @ s @ [NL]"

definition log_append :: "log_env \<Rightarrow> string \<Rightarrow> logger \<Rightarrow> logger" where
  "log_append env line l =
     (case lg_file l of
        None \<Rightarrow> l
      | Some p \<Rightarrow>
          (case le_takes env of
             None \<Rightarrow> l\<lparr>lg_files := (lg_files l)(p := map_option (\<lambda>c. c @ line) (lg_files l p))\<rparr>
           | Some n \<Rightarrow> l\<lparr>lg_file := None,
                         lg_files := (lg_files l)(p := map_option (\<lambda>c. c @ take n line) (lg_files l p))\<rparr>))"

text \<open>\<open>m_file.tellp()\<close>: -1 when no file is open or the stream is bad.\<close>

definition log_tellp :: "logger \<Rightarrow> int" where
  "log_tellp l = (case lg_file l of None \<Rightarrow> -1
     | Some p \<Rightarrow> (case lg_files l p of None \<Rightarrow> -1 | Some c \<Rightarrow> int (length c)))"

definition log_rotate :: "log_env \<Rightarrow> logger \<Rightarrow> logger" where
  "log_rotate env l =
     (let i = lg_index l + 1;
          fs = (if unat i \<ge> MAX_LOG_COUNT \<and> le_unlinks env
                then (lg_files l)(log_path (lg_dir l) (i - of_nat MAX_LOG_COUNT) := None)
                else lg_files l)
      in log_open (le_opens env) (log_path (lg_dir l) i) (l\<lparr>lg_file := None, lg_index := i, lg_files := fs\<rparr>))"

definition log_record :: "log_env \<Rightarrow> log_level \<Rightarrow> string \<Rightarrow> logger \<Rightarrow> logger" where
  "log_record env lev s l =
     (let line = log_line (le_stamp env) lev s;
          l1 = log_append env line (l\<lparr>lg_cout := lg_cout l @ line\<rparr>)
      in if log_tellp l1 \<ge> int MAX_LOG_FILESIZE then log_rotate env l1 else l1)"

fun log_records :: "(log_env \<times> log_level \<times> string) list \<Rightarrow> logger \<Rightarrow> logger" where
  "log_records [] l = l"
| "log_records ((env, lev, s) # rs) l = log_records rs (log_record env lev s l)"

section \<open>The files kept\<close>

text \<open>
  The invariant: the file that is written to, if any, is the one with the current number, it
  exists and is below the size limit, every number sixteen or more behind is gone, and every
  other file is as at the start.
\<close>

definition logger_inv :: "files \<Rightarrow> logger \<Rightarrow> bool" where
  "logger_inv old l \<longleftrightarrow>
     (\<forall>p. lg_file l = Some p \<longrightarrow>
        p = log_path (lg_dir l) (lg_index l) \<and> (\<exists>c. lg_files l p = Some c \<and> length c < MAX_LOG_FILESIZE))
   \<and> (\<forall>i. unat i + MAX_LOG_COUNT \<le> unat (lg_index l) \<longrightarrow> lg_files l (log_path (lg_dir l) i) = None)
   \<and> (\<forall>p. (\<forall>i \<le> lg_index l. p \<noteq> log_path (lg_dir l) i) \<longrightarrow> lg_files l p = old p)"

lemma log_path_inj [simp]: "log_path d i = log_path d j \<longleftrightarrow> i = j"
  by (simp add: log_path_def dec_inj word_unat_eq_iff)

lemma startLogging_inv: "logger_inv (lg_files l) (startLogging opens dir l)"
  by (simp add: startLogging_def log_open_def logger_inv_def MAX_LOG_FILESIZE_def MAX_LOG_COUNT_def)

lemma log_append_fields [simp]:
  "lg_index (log_append env line l) = lg_index l" "lg_dir (log_append env line l) = lg_dir l"
  by (simp_all add: log_append_def split: option.split)

lemma log_append_other:
  "lg_file l \<noteq> Some p \<Longrightarrow> lg_files (log_append env line l) p = lg_files l p"
  by (auto simp: log_append_def split: option.split)

text \<open>After a line is written: the invariant but for the size of the file.\<close>

lemma log_append_inv:
  assumes "logger_inv old l"
  shows "logger_inv old (log_append env line l) \<or> log_tellp (log_append env line l) \<ge> int MAX_LOG_FILESIZE"
    and "\<forall>i. unat i + MAX_LOG_COUNT \<le> unat (lg_index l) \<longrightarrow> lg_files (log_append env line l) (log_path (lg_dir l) i) = None"
    and "\<forall>p. (\<forall>i \<le> lg_index l. p \<noteq> log_path (lg_dir l) i) \<longrightarrow> lg_files (log_append env line l) p = old p"
proof -
  have f: "lg_file l = None \<or> lg_file l = Some (log_path (lg_dir l) (lg_index l))"
    using assms by (cases "lg_file l") (auto simp: logger_inv_def)
  show g: "\<forall>i. unat i + MAX_LOG_COUNT \<le> unat (lg_index l) \<longrightarrow> lg_files (log_append env line l) (log_path (lg_dir l) i) = None"
  proof (intro allI impI)
    fix i :: u64 assume i: "unat i + MAX_LOG_COUNT \<le> unat (lg_index l)"
    then have "i \<noteq> lg_index l" by (auto simp: MAX_LOG_COUNT_def)
    then have "lg_file l \<noteq> Some (log_path (lg_dir l) i)" using f by auto
    from log_append_other [OF this] show "lg_files (log_append env line l) (log_path (lg_dir l) i) = None"
      using i assms by (simp add: logger_inv_def)
  qed
  show h: "\<forall>p. (\<forall>i \<le> lg_index l. p \<noteq> log_path (lg_dir l) i) \<longrightarrow> lg_files (log_append env line l) p = old p"
  proof (intro allI impI)
    fix p assume p: "\<forall>i \<le> lg_index l. p \<noteq> log_path (lg_dir l) i"
    then have "lg_file l \<noteq> Some p" using f by auto
    from log_append_other [OF this] show "lg_files (log_append env line l) p = old p"
      using p assms by (simp add: logger_inv_def)
  qed
  show "logger_inv old (log_append env line l) \<or> log_tellp (log_append env line l) \<ge> int MAX_LOG_FILESIZE"
  proof (cases "lg_file (log_append env line l)")
    case None
    then show ?thesis using g h by (simp add: logger_inv_def)
  next
    case (Some p)
    then have p: "lg_file l = Some p" "le_takes env = None" by (auto simp: log_append_def split: option.splits)
    then obtain c where "p = log_path (lg_dir l) (lg_index l)" "lg_files (log_append env line l) p = Some (c @ line)"
      using assms by (auto simp: logger_inv_def log_append_def)
    then show ?thesis using Some g h by (auto simp: logger_inv_def log_tellp_def)
  qed
qed

lemma log_rotate_inv:
  assumes "\<forall>i. unat i + MAX_LOG_COUNT \<le> unat (lg_index l) \<longrightarrow> lg_files l (log_path (lg_dir l) i) = None"
    and "\<forall>p. (\<forall>i \<le> lg_index l. p \<noteq> log_path (lg_dir l) i) \<longrightarrow> lg_files l p = old p"
    and "lg_index l \<noteq> -1" and "le_unlinks env"
  shows "logger_inv old (log_rotate env l)"
proof -
  let ?i = "lg_index l + 1"
  have ui: "unat ?i = Suc (unat (lg_index l))" using assms(3) by (rule unat_Suc)
  have old: "i = ?i - of_nat MAX_LOG_COUNT \<or> unat i + MAX_LOG_COUNT \<le> unat (lg_index l)"
    if "unat i + MAX_LOG_COUNT \<le> unat ?i" for i
  proof (cases "unat i + MAX_LOG_COUNT = unat ?i")
    case True
    then have "of_nat (unat i + MAX_LOG_COUNT) = (of_nat (unat ?i) :: u64)" by simp
    then have "i + of_nat MAX_LOG_COUNT = ?i" by simp
    then show ?thesis by (metis add_diff_cancel_right')
  qed (use that ui in linarith)
  have ne: "unat i + MAX_LOG_COUNT \<le> unat ?i \<Longrightarrow> i \<noteq> ?i" for i
    by (auto simp: MAX_LOG_COUNT_def)
  have r: "lg_index (log_rotate env l) = ?i" "lg_dir (log_rotate env l) = lg_dir l"
    by (simp_all add: log_rotate_def log_open_def Let_def)
  have gone: "lg_files (log_rotate env l) (log_path (lg_dir l) i) = None"
    if i: "unat i + MAX_LOG_COUNT \<le> unat ?i" for i
  proof -
    have c: "MAX_LOG_COUNT \<le> unat ?i" using i by simp
    show ?thesis using old [OF i] ne [OF i] assms(1,4) c
      by (auto simp: log_rotate_def log_open_def Let_def)
  qed
  have other: "lg_files (log_rotate env l) p = old p" if p: "\<forall>i \<le> ?i. p \<noteq> log_path (lg_dir l) i" for p
  proof -
    have "i \<le> ?i" if "i \<le> lg_index l" for i using that ui by (simp add: word_le_nat_alt)
    then have a: "\<forall>i \<le> lg_index l. p \<noteq> log_path (lg_dir l) i" using p by blast
    have "?i - of_nat MAX_LOG_COUNT \<le> ?i" if "MAX_LOG_COUNT \<le> unat ?i"
      using that by (intro word_sub_le) (simp add: word_le_nat_alt MAX_LOG_COUNT_def)
    then show ?thesis using a p assms(2)
      by (auto simp: log_rotate_def log_open_def Let_def)
  qed
  have "p = log_path (lg_dir l) ?i \<and> (\<exists>c. lg_files (log_rotate env l) p = Some c \<and> length c < MAX_LOG_FILESIZE)"
    if "lg_file (log_rotate env l) = Some p" for p
    using that by (auto simp: log_rotate_def log_open_def Let_def MAX_LOG_FILESIZE_def split: if_splits)
  then show ?thesis using gone other by (simp add: logger_inv_def r)
qed

lemma log_record_inv:
  assumes "logger_inv old l" and "lg_index l \<noteq> -1" and "le_unlinks env"
  shows "logger_inv old (log_record env lev s l)"
proof -
  let ?line = "log_line (le_stamp env) lev s"
  let ?l0 = "l\<lparr>lg_cout := lg_cout l @ ?line\<rparr>"
  let ?l1 = "log_append env ?line ?l0"
  have inv0: "logger_inv old ?l0" using assms(1) by (simp add: logger_inv_def)
  note f = log_append_inv [OF inv0, of env ?line]
  show ?thesis
  proof (cases "log_tellp ?l1 \<ge> int MAX_LOG_FILESIZE")
    case True
    have "logger_inv old (log_rotate env ?l1)"
      by (rule log_rotate_inv) (use f(2,3) assms(2,3) in simp_all)
    then show ?thesis using True by (simp add: log_record_def Let_def)
  next
    case False
    then show ?thesis using f(1) by (simp add: log_record_def Let_def)
  qed
qed

lemma log_record_index:
  "lg_index (log_record env lev s l) = lg_index l \<or> lg_index (log_record env lev s l) = lg_index l + 1"
  by (simp add: log_record_def log_rotate_def log_open_def Let_def)

lemma log_record_dir: "lg_dir (log_record env lev s l) = lg_dir l"
  by (simp add: log_record_def log_rotate_def log_open_def Let_def)

lemma log_records_dir: "lg_dir (log_records rs l) = lg_dir l"
  by (induction rs l rule: log_records.induct) (simp_all add: log_record_dir)

lemma log_records_inv:
  assumes "logger_inv old l" and "unat (lg_index l) + length rs < 2 ^ 64" and "\<forall>r\<in>set rs. le_unlinks (fst r)"
  shows "logger_inv old (log_records rs l)"
  using assms
proof (induction rs arbitrary: l)
  case (Cons r rs)
  obtain env lev s where r: "r = (env, lev, s)" by (cases r)
  have "unat (lg_index l) < 2 ^ 64 - 1" using Cons.prems(2) by simp
  moreover have "unat (-1 :: u64) = 2 ^ 64 - 1" by (simp add: unsigned_minus_1_eq_mask mask_eq_exp_minus_1)
  ultimately have ne: "lg_index l \<noteq> -1" by (metis less_irrefl)
  then have "unat (lg_index (log_record env lev s l)) \<le> Suc (unat (lg_index l))"
    using log_record_index [of env lev s l] unat_Suc [OF ne] by auto
  then show ?case using Cons.prems r ne by (simp add: Cons.IH log_record_inv)
qed simp

text \<open>While the files take everything and can be opened, a file is written to.\<close>

lemma log_record_open:
  assumes "lg_file l \<noteq> None" and "le_takes env = None" and "le_opens env"
  shows "lg_file (log_record env lev s l) \<noteq> None"
  using assms by (auto simp: log_record_def log_append_def log_rotate_def log_open_def Let_def)

lemma log_records_open:
  assumes "lg_file l \<noteq> None" and "\<forall>r\<in>set rs. le_takes (fst r) = None \<and> le_opens (fst r)"
  shows "lg_file (log_records rs l) \<noteq> None"
  using assms
proof (induction rs l rule: log_records.induct)
  case (2 env lev s rs l)
  have "lg_file (log_record env lev s l) \<noteq> None" by (rule log_record_open) (use "2.prems" in simp_all)
  then show ?case using 2 by simp
qed simp

text \<open>The number of log files, among those numbered up to the current one.\<close>

definition log_numbers :: "logger \<Rightarrow> u64 set" where
  "log_numbers l = {i. i \<le> lg_index l \<and> lg_files l (log_path (lg_dir l) i) \<noteq> None}"

lemma log_numbers_card:
  assumes "logger_inv old l"
  shows "card (log_numbers l) \<le> MAX_LOG_COUNT"
proof -
  have "unat (lg_index l) - 15 \<le> unat i" if "i \<in> log_numbers l" for i
  proof -
    have "\<not> unat i + MAX_LOG_COUNT \<le> unat (lg_index l)"
      using that assms by (auto simp: log_numbers_def logger_inv_def)
    then show ?thesis by (simp add: MAX_LOG_COUNT_def)
  qed
  then have "unat ` log_numbers l \<subseteq> {unat (lg_index l) - 15 .. unat (lg_index l)}"
    by (auto simp: log_numbers_def word_le_nat_alt)
  then have "card (unat ` log_numbers l) \<le> 16"
    by (rule order_trans [OF card_mono [rotated]]) auto
  moreover have "card (unat ` log_numbers l) = card (log_numbers l)"
    by (rule card_image) (auto simp: inj_on_def word_unat_eq_iff)
  ultimately show ?thesis by (simp add: MAX_LOG_COUNT_def)
qed

lemma log_record_cout: "lg_cout (log_record env lev s l) = lg_cout l @ log_line (le_stamp env) lev s"
  by (simp add: log_record_def log_rotate_def log_open_def log_append_def Let_def split: option.splits)

end
