(* ===== verification/SMS_Sender.thy ===== *)
theory SMS_Sender
  imports Effects Std_Map
begin

text \<open>
  \<open>sms_sender.hpp\<close> and \<open>sms_sender.cpp\<close>: a text message is a file that is written under
  \<open>/tmp\<close> and renamed into the outgoing directory of smstools, and \<open>cleanupSMS\<close> deletes the
  files that were handed over long ago. The two directories are maps from file names to
  contents. What the system answers to a call (\<open>access\<close>, \<open>rename\<close>, the clock) and what becomes
  of a file that is written are inputs. Times are in nanoseconds of the steady clock.
\<close>

definition SMS_TOO_OLD :: int where "SMS_TOO_OLD = 15 * 60"

record sms_sender =
  ss_counter :: u64
  ss_old_files :: "(string, int) std_map"
  ss_tmp :: "string \<rightharpoonup> string"
  ss_outgoing :: "string \<rightharpoonup> string"

text \<open>
  \<open>se_tmp\<close>: what the temporary file holds after the given text was written to it, or \<open>None\<close>
  when it could not be opened; the code checks neither.
\<close>

record send_env =
  se_access_ok :: bool
  se_pid :: nat
  se_tmp :: "string \<Rightarrow> string option"
  se_rename_ok :: bool
  se_now :: int

definition sms_filename :: "nat \<Rightarrow> u64 \<Rightarrow> string" where
  "sms_filename pid k = ''sms_'' @ dec pid @ ''_'' @ dec (unat k)"

definition sms_text :: "string \<Rightarrow> string \<Rightarrow> string" where
  "sms_text to content = ''To: '' @ to @ [NL] @ [NL] @ content @ [NL]"

definition sendSMS :: "send_env \<Rightarrow> string \<Rightarrow> string \<Rightarrow> sms_sender \<Rightarrow> (sms_sender \<times> bool) \<times> effect list" where
  "sendSMS env to content s =
     (if \<not> se_access_ok env then
        ((s, False),
         [Log Err (''3G module not detected (no /dev/ttyUSB2 found). Discarding text message.'')])
      else
        let filename = sms_filename (se_pid env) (ss_counter s);
            text = sms_text to content;
            tmp = (case se_tmp env text of None \<Rightarrow> ss_tmp s | Some written \<Rightarrow> (ss_tmp s)(filename \<mapsto> written));
            s1 = s\<lparr>ss_counter := ss_counter s + 1, ss_tmp := tmp\<rparr>
        in if \<not> se_rename_ok env \<or> tmp filename = None
           then ((s1, False), [Log Err (''Failed to send SMS'' @ [NL])])
           else ((s1\<lparr>ss_tmp := (ss_tmp s1)(filename := None),
                     ss_outgoing := (ss_outgoing s1)(filename := tmp filename),
                     ss_old_files := map_assign filename (se_now env) (ss_old_files s1)\<rparr>, True), []))"

text \<open>One file of the loop in \<open>cleanupSMS\<close>; \<open>can_remove\<close> is the file system's permission.\<close>

definition cleanup_file :: "(string \<Rightarrow> bool) \<Rightarrow> int \<Rightarrow> string \<times> int \<Rightarrow> (string \<rightharpoonup> string) \<Rightarrow> (string \<rightharpoonup> string) res" where
  "cleanup_file can_remove timestamp_now e outgoing =
     (let sms_age = duration_cast (timestamp_now - snd e) 1000000000
      in if sms_age < SMS_TOO_OLD then (outgoing, [])
         else let note = Log Info (''Deleting old SMS file '' @ fst e)
              in if outgoing (fst e) \<noteq> None \<and> can_remove (fst e)
                 then (outgoing(fst e := None), [note])
                 else (outgoing, [note, Log Err (''Failed to delete file /var/spool/sms/outgoing/'' @ fst e)]))"

definition cleanupSMS :: "(string \<Rightarrow> bool) \<Rightarrow> int \<Rightarrow> sms_sender \<Rightarrow> sms_sender res" where
  "cleanupSMS can_remove timestamp_now s =
     (let r = run_ops (cleanup_file can_remove timestamp_now) (ss_old_files s) (ss_outgoing s)
      in (s\<lparr>ss_outgoing := fst r, ss_old_files := []\<rparr>, snd r))"

text \<open>
  The constructor: it empties the outgoing directory of regular files. \<open>dir\<close> is what
  \<open>readdir\<close> returns, with whether the entry is a regular file; \<open>None\<close> is a failed
  \<open>opendir\<close>.
\<close>

definition clean_entry :: "(string \<Rightarrow> bool) \<Rightarrow> string \<times> bool \<Rightarrow> (string \<rightharpoonup> string) \<Rightarrow> (string \<rightharpoonup> string) res" where
  "clean_entry can_remove e outgoing =
     (if \<not> snd e then (outgoing, [])
      else let note = Log Info (''Removing old SMS '' @ fst e)
           in if can_remove (fst e) then (outgoing(fst e := None), [note])
              else (outgoing, [note, Log Err (''Failed to delete old SMS '' @ fst e)]))"

definition cleanOutgoingDir :: "(string \<Rightarrow> bool) \<Rightarrow> (string \<times> bool) list option \<Rightarrow> sms_sender \<Rightarrow> sms_sender res" where
  "cleanOutgoingDir can_remove dir s =
     (case dir of
        None \<Rightarrow> (s, [Log Err ''Failed to open directory /var/spool/sms/outgoing/''])
      | Some entries \<Rightarrow>
          let r = run_ops (clean_entry can_remove) entries (ss_outgoing s)
          in (s\<lparr>ss_outgoing := fst r\<rparr>, snd r))"

definition sms_sender_new :: "(string \<Rightarrow> bool) \<Rightarrow> (string \<times> bool) list option \<Rightarrow> (string \<rightharpoonup> string) \<Rightarrow> (string \<rightharpoonup> string) \<Rightarrow> sms_sender res" where
  "sms_sender_new can_remove dir tmp outgoing =
     cleanOutgoingDir can_remove dir
       \<lparr>ss_counter = 0, ss_old_files = [], ss_tmp = tmp, ss_outgoing = outgoing\<rparr>"

section \<open>Message files\<close>

text \<open>
  The names already handed out by this process: the invariant says that every outgoing and
  every tracked file of this process has a smaller number than the counter.
\<close>

definition sender_inv :: "nat \<Rightarrow> sms_sender \<Rightarrow> bool" where
  "sender_inv pid s \<longleftrightarrow>
     map_inv (ss_old_files s)
   \<and> (\<forall>k. ss_outgoing s (sms_filename pid k) \<noteq> None \<longrightarrow> k < ss_counter s)
   \<and> (\<forall>e\<in>set (ss_old_files s). \<exists>k < ss_counter s. fst e = sms_filename pid k)"

lemma sms_filename_inj [simp]: "sms_filename pid j = sms_filename pid k \<longleftrightarrow> j = k"
  by (simp add: sms_filename_def dec_inj word_unat_eq_iff)

lemma sendSMS_fresh: "sender_inv pid s \<Longrightarrow> ss_outgoing s (sms_filename pid (ss_counter s)) = None"
  by (force simp: sender_inv_def)

lemma sendSMS_inv:
  assumes "sender_inv (se_pid env) s" and "ss_counter s \<noteq> -1"
  shows "sender_inv (se_pid env) (fst (fst (sendSMS env to content s)))"
proof -
  let ?f = "sms_filename (se_pid env) (ss_counter s)"
  have old: "\<forall>e\<in>set (map_assign ?f (se_now env) (ss_old_files s)). \<exists>k < ss_counter s + 1. fst e = sms_filename (se_pid env) k"
  proof
    fix e assume "e \<in> set (map_assign ?f (se_now env) (ss_old_files s))"
    then have "e = (?f, se_now env) \<or> e \<in> set (ss_old_files s)"
      using set_map_assign by fastforce
    then show "\<exists>k < ss_counter s + 1. fst e = sms_filename (se_pid env) k"
      using assms u64_less_Suc by (force simp: sender_inv_def intro: less_imp_le)
  qed
  show ?thesis
    using assms(1) old u64_less_Suc [OF _ assms(2)]
    by (auto simp: sendSMS_def Let_def sender_inv_def map_assign_inv less_imp_le split: if_splits)
qed

lemma cleanup_outgoing:
  "fst (run_ops (cleanup_file can_remove now) es outgoing) f =
     (if outgoing f \<noteq> None \<and> can_remove f
         \<and> (\<exists>t. (f, t) \<in> set es \<and> SMS_TOO_OLD \<le> duration_cast (now - t) 1000000000)
      then None else outgoing f)"
  by (induction es arbitrary: outgoing)
     (auto simp: fst_then_do cleanup_file_def Let_def)

lemma cleanupSMS_outgoing:
  "ss_outgoing (fst (cleanupSMS can_remove now s)) f =
     (if can_remove f
         \<and> (\<exists>t. (f, t) \<in> set (ss_old_files s) \<and> SMS_TOO_OLD \<le> duration_cast (now - t) 1000000000)
      then None else ss_outgoing s f)"
  by (auto simp: cleanupSMS_def Let_def cleanup_outgoing)

lemma cleanupSMS_forgets: "ss_old_files (fst (cleanupSMS can_remove now s)) = []"
  by (simp add: cleanupSMS_def Let_def)

lemma cleanupSMS_inv: "sender_inv pid s \<Longrightarrow> sender_inv pid (fst (cleanupSMS can_remove now s))"
  by (auto simp: sender_inv_def cleanupSMS_forgets cleanupSMS_outgoing split: if_splits)
     (auto simp: cleanupSMS_def Let_def)

text \<open>A run of cleanups, at the given times.\<close>

fun cleanups :: "(string \<Rightarrow> bool) \<Rightarrow> int list \<Rightarrow> sms_sender \<Rightarrow> sms_sender" where
  "cleanups can_remove [] s = s"
| "cleanups can_remove (t # ts) s = cleanups can_remove ts (fst (cleanupSMS can_remove t s))"

lemma cleanups_untracked:
  "ss_old_files s = [] \<Longrightarrow> ss_outgoing (cleanups can_remove ts s) = ss_outgoing s"
proof (induction ts arbitrary: s)
  case (Cons t ts)
  have "ss_outgoing (fst (cleanupSMS can_remove t s)) = ss_outgoing s"
    using Cons.prems by (auto simp: fun_eq_iff cleanupSMS_outgoing)
  then show ?case using Cons.IH [of "fst (cleanupSMS can_remove t s)"] by (simp add: cleanupSMS_forgets)
qed simp

lemma clean_entries:
  "fst (run_ops (clean_entry can_remove) es outgoing) f =
     (if can_remove f \<and> (f, True) \<in> set es then None else outgoing f)"
  by (induction es arbitrary: outgoing) (auto simp: fst_then_do clean_entry_def Let_def)

end
