(* ===== verification/SMS_Receiver.thy ===== *)
theory SMS_Receiver
  imports Effects
begin

text \<open>
  \<open>sms_receiver.hpp\<close> and \<open>sms_receiver.cpp\<close>: a thread waits for changes in the incoming
  directory of smstools and hands the sender and the text of each message file to a
  callback. The files are a map from paths to contents; the results of \<open>poll\<close> and
  \<open>read\<close> are inputs, where a read gives the names of the inotify events that fit the buffer.
\<close>

definition SMSTOOL_INCOMING_DIR :: string where
  "SMSTOOL_INCOMING_DIR = ''/var/spool/sms/incoming/''"

text \<open>The lines left after the first empty one.\<close>

fun skip_header :: "string list \<Rightarrow> string list" where
  "skip_header [] = []"
| "skip_header (line # rest) = (if line = [] then rest else skip_header rest)"

text \<open>\<open>parseSMS\<close>: the call of the callback, if there is one. \<open>None\<close> is a file that cannot be opened.\<close>

definition parseSMS :: "string \<Rightarrow> string option \<Rightarrow> (string \<times> string) option res" where
  "parseSMS path file =
     (case file of
        None \<Rightarrow> (None, [Log Err (''Failed to read content of SMS '' @ [DQ] @ path @ [DQ])])
      | Some content \<Rightarrow>
          (case getlines NL content of
             [] \<Rightarrow> (None, [])
           | from # rest \<Rightarrow>
               if str_rfind from ''From: '' \<noteq> Some 0 then (None, [])
               else (Some (drop 6 from, concat (skip_header rest)),
                     [Log Info (''Parsed SMS file '' @ [DQ] @ path @ [DQ])])))"

datatype watch_event =
    Poll_Error int
  | Poll_Timeout
  | Watch_Error
  | Watch_Events "string list"

text \<open>
  One turn of the loop of \<open>run\<close>: it reads as many events as fit and looks at the first.
\<close>

definition receive_step :: "(string \<Rightarrow> string option) \<Rightarrow> watch_event \<Rightarrow> (exn + (string \<times> string) option) \<times> effect list" where
  "receive_step files ev =
     (case ev of
        Poll_Error ret \<Rightarrow>
          let msg = ''Failed to poll in sms server, error -'' @ dec (nat (- ret)) in (Inl (Runtime_Error msg), [Log Err msg])
      | Poll_Timeout \<Rightarrow> (Inr None, [])
      | Watch_Error \<Rightarrow> (Inr None, [Log Err (''sms_receiver read failed'' @ [NL])])
      | Watch_Events names \<Rightarrow>
          (case names of
             [] \<Rightarrow> (Inr None, [])
           | name # _ \<Rightarrow>
               let path = SMSTOOL_INCOMING_DIR @ name
               in case parseSMS path (files path) of (call, e) \<Rightarrow> (Inr call, e)))"

text \<open>
  The loop. A turn has what the files hold then and what the system answers; the list ends
  where \<open>m_running\<close> is found cleared. The results are the calls of the callback, in order.
\<close>

type_synonym receive_turn = "(string \<Rightarrow> string option) \<times> watch_event"

fun receive_loop :: "receive_turn list \<Rightarrow> (exn + (string \<times> string) list) \<times> effect list" where
  "receive_loop [] = (Inr [], [])"
| "receive_loop ((files, ev) # turns) =
     (case receive_step files ev of
        (Inl x, e) \<Rightarrow> (Inl x, e)
      | (Inr call, e) \<Rightarrow>
          (case receive_loop turns of
             (Inl x, e') \<Rightarrow> (Inl x, e @ e')
           | (Inr calls, e') \<Rightarrow> (Inr (case call of None \<Rightarrow> calls | Some c \<Rightarrow> c # calls), e @ e')))"

text \<open>\<open>run\<close>: \<open>fd\<close> and \<open>wd\<close> are the results of \<open>inotify_init\<close> and \<open>inotify_add_watch\<close>.\<close>

definition open_watch :: "int \<Rightarrow> int \<Rightarrow> (exn + int) \<times> effect list" where
  "open_watch fd wd =
     (if fd < 0 then (Inl (Runtime_Error ''inotify_init failed''), [Log Err ''inotify_init failed''])
      else if wd < 0 then
        (Inl (Runtime_Error ''inotify_add_watch failed''), [Close_Fd fd, Log Err ''inotify_add_watch failed''])
      else (Inr fd, []))"

definition sms_receiver_run :: "int \<Rightarrow> int \<Rightarrow> receive_turn list \<Rightarrow> (exn + (string \<times> string) list) \<times> effect list" where
  "sms_receiver_run fd wd turns =
     (case open_watch fd wd of
        (Inl x, e0) \<Rightarrow> (Inl x, e0)
      | (Inr watch, e0) \<Rightarrow>
          (case receive_loop turns of
             (Inl x, e) \<Rightarrow> (Inl x, e0 @ e)
           | (Inr calls, e) \<Rightarrow> (Inr calls, e0 @ e @ [Close_Fd watch])))"

record sms_receiver =
  sr_running :: bool
  sr_thread :: bool

definition sms_receiver_new :: sms_receiver where
  "sms_receiver_new = \<lparr>sr_running = False, sr_thread = False\<rparr>"

definition sms_receiver_start :: "sms_receiver \<Rightarrow> sms_receiver res" where
  "sms_receiver_start r =
     (if sr_running r then (r, [Log Warn ''Attempted to start already running sms server''])
      else (r\<lparr>sr_running := True, sr_thread := True\<rparr>, []))"

definition sms_receiver_stop :: "sms_receiver \<Rightarrow> sms_receiver res" where
  "sms_receiver_stop r =
     (if \<not> sr_running r then (r, [Log Warn ''Attempted to stop already stopped sms server''])
      else (r\<lparr>sr_running := False, sr_thread := False\<rparr>, []))"

text \<open>The destructor.\<close>

definition sms_receiver_delete :: "sms_receiver \<Rightarrow> sms_receiver" where
  "sms_receiver_delete r = (if sr_running r then r\<lparr>sr_running := False, sr_thread := False\<rparr> else r)"

section \<open>What is parsed\<close>

lemma skip_header_split:
  assumes "\<forall>l\<in>set hs. l \<noteq> []"
  shows "skip_header (hs @ [] # rest) = rest"
  using assms by (induction hs) auto

lemma str_rfind_Some: "str_rfind s p = Some i \<Longrightarrow> starts_with (drop i s) p"
  by (induction s p arbitrary: i rule: str_rfind.induct)
     (auto simp: starts_with_def split: option.splits if_splits)

lemma str_rfind_None: "str_rfind s p = None \<longleftrightarrow> \<not> str_contains s p"
  by (induction s p rule: str_rfind.induct) (auto simp: starts_with_def split: option.splits)

lemma str_rfind_tail: "str_rfind (c # s) p = Some 0 \<longleftrightarrow> starts_with (c # s) p \<and> \<not> str_contains s p"
  by (auto simp: str_rfind_None [symmetric] split: option.splits)

text \<open>The sender line is accepted when it starts with the tag and the tag does not occur again.\<close>

lemma from_accepted:
  "str_rfind (''From: '' @ s) ''From: '' = Some 0 \<longleftrightarrow> \<not> str_contains s ''From: ''"
proof -
  have sw: "\<not> starts_with (CHR ''r'' # t) ''From: ''" "\<not> starts_with (CHR ''o'' # t) ''From: ''"
    "\<not> starts_with (CHR ''m'' # t) ''From: ''" "\<not> starts_with (CHR '':'' # t) ''From: ''"
    "\<not> starts_with (CHR '' '' # t) ''From: ''" for t
    by (simp_all add: starts_with_def)
  have "starts_with (''From: '' @ s) ''From: ''" by (rule starts_with_self)
  then show ?thesis by (simp add: str_rfind_tail sw del: str_rfind.simps)
qed

text \<open>A message file as smstools writes it.\<close>

definition sms_file :: "string \<Rightarrow> string list \<Rightarrow> string list \<Rightarrow> string" where
  "sms_file from headers text =
     concat (map (\<lambda>l. l @ [NL]) (((''From: '' @ from) # headers) @ [] # text))"

lemma parseSMS_file:
  assumes "NL \<notin> set from" and "\<not> str_contains from ''From: ''"
    and "\<forall>l\<in>set headers. l \<noteq> [] \<and> NL \<notin> set l" and "\<forall>l\<in>set text. NL \<notin> set l"
  shows "fst (parseSMS path (Some (sms_file from headers text))) = Some (from, concat text)"
proof -
  have "getlines NL (sms_file from headers text) = ((''From: '' @ from) # headers) @ [] # text"
    unfolding sms_file_def by (rule getlines_concat) (use assms in auto)
  then show ?thesis using from_accepted [of "from"] assms(2,3)
    by (simp add: parseSMS_def skip_header_split del: str_rfind.simps)
qed

lemma parseSMS_not_from:
  assumes "getlines NL content = from # rest" and "str_rfind from ''From: '' \<noteq> Some 0"
  shows "parseSMS path (Some content) = (None, [])"
  using assms by (simp add: parseSMS_def)

section \<open>What is delivered\<close>

text \<open>A message file with the given sender and text.\<close>

definition message_file :: "string option \<Rightarrow> string \<times> string \<Rightarrow> bool" where
  "message_file file msg \<longleftrightarrow> (\<exists>headers body. file = Some (sms_file (fst msg) headers body)
     \<and> NL \<notin> set (fst msg) \<and> \<not> str_contains (fst msg) ''From: ''
     \<and> (\<forall>l\<in>set headers. l \<noteq> [] \<and> NL \<notin> set l) \<and> (\<forall>l\<in>set body. NL \<notin> set l) \<and> snd msg = concat body)"

lemma message_fileI:
  assumes "NL \<notin> set from" and "\<not> str_contains from ''From: ''"
    and "\<forall>l\<in>set headers. l \<noteq> [] \<and> NL \<notin> set l" and "\<forall>l\<in>set body. NL \<notin> set l" and "text = concat body"
  shows "message_file (Some (sms_file from headers body)) (from, text)"
  using assms unfolding message_file_def by (intro exI [of _ headers] exI [of _ body]) simp

text \<open>
  A turn in which the file of the message is the first that smstools has written since the last
  read; the other names of the same read do not matter, as the code drops them.
\<close>

definition arrives :: "receive_turn \<Rightarrow> string \<times> string \<Rightarrow> bool" where
  "arrives turn msg \<longleftrightarrow> (case turn of (files, ev) \<Rightarrow>
     \<exists>name names. ev = Watch_Events (name # names) \<and> message_file (files (SMSTOOL_INCOMING_DIR @ name)) msg)"

lemma arrives_one:
  "message_file (Some text) msg \<Longrightarrow> arrives ([SMSTOOL_INCOMING_DIR @ name \<mapsto> text], Watch_Events [name]) msg"
  by (simp add: arrives_def)

lemma receive_step_arrives:
  assumes "arrives (files, ev) msg"
  shows "fst (receive_step files ev) = Inr (Some msg)"
proof -
  obtain name names headers body where ev: "ev = Watch_Events (name # names)"
    and f: "files (SMSTOOL_INCOMING_DIR @ name) = Some (sms_file (fst msg) headers body)"
    and c: "NL \<notin> set (fst msg)" "\<not> str_contains (fst msg) ''From: ''"
      "\<forall>l\<in>set headers. l \<noteq> [] \<and> NL \<notin> set l" "\<forall>l\<in>set body. NL \<notin> set l" "snd msg = concat body"
    using assms by (auto simp: arrives_def message_file_def)
  have "fst (parseSMS (SMSTOOL_INCOMING_DIR @ name) (files (SMSTOOL_INCOMING_DIR @ name))) = Some msg"
    unfolding f using parseSMS_file [OF c(1-4)] c(5) by (metis prod.collapse)
  then show ?thesis
    by (cases "parseSMS (SMSTOOL_INCOMING_DIR @ name) (files (SMSTOOL_INCOMING_DIR @ name))")
       (simp add: receive_step_def ev Let_def)
qed

text \<open>A turn that neither fails nor brings a file.\<close>

definition quiet_turn :: "receive_turn \<Rightarrow> bool" where
  "quiet_turn turn \<longleftrightarrow> snd turn \<in> {Poll_Timeout, Watch_Error, Watch_Events []}"

lemma receive_loop_quiet:
  assumes "quiet_turn turn"
  shows "fst (receive_loop (turn # turns)) = fst (receive_loop turns)"
  using assms by (cases turn) (auto simp: quiet_turn_def receive_step_def split: prod.split sum.split)

lemma receive_loop_arrives:
  assumes "arrives turn msg"
  shows "fst (receive_loop (turn # turns)) = map_sum id (Cons msg) (fst (receive_loop turns))"
proof -
  obtain files ev where t: "turn = (files, ev)" by (cases turn)
  obtain e where "receive_step files ev = (Inr (Some msg), e)"
    using receive_step_arrives assms unfolding t by (metis prod.collapse)
  then show ?thesis unfolding t by (auto split: prod.split sum.split)
qed

end
