(* ===== verification/Support_Props.thy ===== *)
theory Support_Props
  imports Logger SMS_Sender SMS_Receiver Helpers Timer Protocol
begin

text \<open>
  Properties of the parts the station rests on: the log files, the message files of smstools
  in both directions, the timers, the addresses on the wire and the uptime.
\<close>

section \<open>Log files\<close>

definition record_line :: "log_env \<times> log_level \<times> string \<Rightarrow> string" where
  "record_line r = (case r of (env, lev, s) \<Rightarrow> log_line (le_stamp env) lev s)"

lemma log_records_cout: "lg_cout (log_records rs l) = lg_cout l @ concat (map record_line rs)"
  by (induction rs l rule: log_records.induct) (simp_all add: log_record_cout record_line_def)

text \<open>C30: after any number of records (below 2 to the 64) since the start of the log, at most
  sixteen of the files with a number up to the current one exist, as long as old files can be
  deleted; all other files, those an earlier run left under higher numbers among them, are as
  they were; the file that is written to, if any, is the current one and below one mebibyte,
  and there is one as long as the files can be opened and take every line; the standard output
  has every record in order, whatever fails.\<close>

theorem log_files_bounded:
  assumes "length rs < 2 ^ 64" and "\<forall>r\<in>set rs. le_unlinks (fst r)"
  shows "let l' = log_records rs (startLogging opens dir l) in
      card {i. i \<le> lg_index l' \<and> lg_files l' (log_path dir i) \<noteq> None} \<le> 16
    \<and> (\<forall>p. (\<forall>i \<le> lg_index l'. p \<noteq> log_path dir i) \<longrightarrow> lg_files l' p = lg_files l p)
    \<and> (\<forall>p. lg_file l' = Some p \<longrightarrow> p = log_path dir (lg_index l') \<and> (\<exists>c. lg_files l' p = Some c \<and> length c < 1024 * 1024))
    \<and> (lg_file l = None \<and> opens \<and> (\<forall>r\<in>set rs. le_takes (fst r) = None \<and> le_opens (fst r)) \<longrightarrow> lg_file l' \<noteq> None)
    \<and> lg_cout l' = lg_cout l @ concat (map record_line rs)"
proof -
  let ?l0 = "startLogging opens dir l" and ?l' = "log_records rs (startLogging opens dir l)"
  have l0: "lg_dir ?l0 = dir" "lg_index ?l0 = 0" "lg_cout ?l0 = lg_cout l" "lg_file l = None \<and> opens \<longrightarrow> lg_file ?l0 \<noteq> None"
    by (simp_all add: startLogging_def log_open_def)
  have inv: "logger_inv (lg_files l) ?l'"
    using assms l0(2) by (intro log_records_inv startLogging_inv) simp_all
  have dir: "lg_dir ?l' = dir" by (simp add: log_records_dir l0)
  note card = log_numbers_card [OF inv, unfolded log_numbers_def MAX_LOG_COUNT_def dir]
  have "lg_file l = None \<and> opens \<and> (\<forall>r\<in>set rs. le_takes (fst r) = None \<and> le_opens (fst r)) \<longrightarrow> lg_file ?l' \<noteq> None"
    using log_records_open [of ?l0 rs] l0(4) by blast
  then show ?thesis
    using card inv unfolding logger_inv_def MAX_LOG_FILESIZE_def dir Let_def by (simp add: log_records_cout l0)
qed

definition sample_log_env :: log_env where
  "sample_log_env = \<lparr>le_stamp = ''00:00'', le_takes = None, le_unlinks = True, le_opens = True\<rparr>"

definition sample_logger :: logger where
  "sample_logger = \<lparr>lg_dir = [], lg_index = 5, lg_file = None, lg_cout = [], lg_files = Map.empty\<rparr>"

lemma log_files_bounded_witness:
  "lg_file (log_records [(sample_log_env, Err, ''x'')] (startLogging True ''.'' sample_logger)) \<noteq> None"
  using log_files_bounded [of "[(sample_log_env, Err, ''x'')]" True "''.''" sample_logger]
  by (simp add: Let_def sample_log_env_def sample_logger_def)

section \<open>Outgoing messages\<close>

fun send_all :: "(send_env \<times> string \<times> string) list \<Rightarrow> sms_sender \<Rightarrow> sms_sender" where
  "send_all [] s = s"
| "send_all ((env, to, content) # ms) s = send_all ms (fst (fst (sendSMS env to content s)))"

definition delivered :: "send_env \<Rightarrow> bool" where
  "delivered env \<longleftrightarrow> se_access_ok env \<and> se_rename_ok env \<and> (\<forall>text. se_tmp env text = Some text)"

lemma sendSMS_outgoing:
  "f \<noteq> sms_filename (se_pid env) (ss_counter s) \<Longrightarrow> ss_outgoing (fst (fst (sendSMS env to content s))) f = ss_outgoing s f"
  "delivered env \<Longrightarrow> ss_outgoing (fst (fst (sendSMS env to content s))) (sms_filename (se_pid env) (ss_counter s))
     = Some (sms_text to content)"
  by (simp_all add: sendSMS_def delivered_def Let_def)

lemma sendSMS_counter:
  "ss_counter (fst (fst (sendSMS env to content s))) \<in> {ss_counter s, ss_counter s + 1}"
  "delivered env \<Longrightarrow> ss_counter (fst (fst (sendSMS env to content s))) = ss_counter s + 1"
  by (simp_all add: sendSMS_def Let_def delivered_def)

text \<open>One file for each message, in order: it holds the message's text.\<close>

definition files_for :: "(string \<rightharpoonup> string) \<Rightarrow> (string \<times> string) list \<Rightarrow> string list \<Rightarrow> bool" where
  "files_for outgoing ms fs \<longleftrightarrow> list_all2 (\<lambda>(to, content) f. outgoing f = Some (sms_text to content)) ms fs"

lemma files_for_simps [simp]:
  "files_for outgoing [] []"
  "files_for outgoing ((to, content) # ms) (f # fs) \<longleftrightarrow> outgoing f = Some (sms_text to content) \<and> files_for outgoing ms fs"
  by (simp_all add: files_for_def)

text \<open>The messages of a list that were delivered.\<close>

definition delivered_of :: "(send_env \<times> string \<times> string) list \<Rightarrow> (string \<times> string) list" where
  "delivered_of ms = map snd (filter (\<lambda>m. delivered (fst m)) ms)"

lemma send_all_keeps:
  assumes "sender_inv pid s" and "unat (ss_counter s) + length ms < 2 ^ 64" and "\<forall>m\<in>set ms. se_pid (fst m) = pid"
  shows "ss_outgoing s \<subseteq>\<^sub>m ss_outgoing (send_all ms s)
    \<and> (\<exists>fs. distinct fs \<and> set fs \<inter> dom (ss_outgoing s) = {} \<and> files_for (ss_outgoing (send_all ms s)) (delivered_of ms) fs)"
  using assms
proof (induction ms arbitrary: s)
  case Nil
  show ?case by (intro conjI exI [of _ "[]"]) (simp_all add: delivered_of_def)
next
  case (Cons m ms)
  obtain env to content where m: "m = (env, to, content)" by (cases m)
  let ?s = "fst (fst (sendSMS env to content s))" and ?f = "sms_filename pid (ss_counter s)"
  have pid: "se_pid env = pid" using Cons.prems(3) m by simp
  have ne: "ss_counter s \<noteq> -1" using Cons.prems(2) by (intro max_counter) simp
  have inv: "sender_inv pid ?s" using sendSMS_inv [of env s to content] Cons.prems(1) ne pid by simp
  have "unat (ss_counter ?s) \<le> Suc (unat (ss_counter s))"
    using sendSMS_counter(1) [of env to content s] unat_Suc [OF ne] by auto
  then have "ss_outgoing ?s \<subseteq>\<^sub>m ss_outgoing (send_all ms ?s) \<and> (\<exists>fs. distinct fs
      \<and> set fs \<inter> dom (ss_outgoing ?s) = {} \<and> files_for (ss_outgoing (send_all ms ?s)) (delivered_of ms) fs)"
    using Cons.IH [OF inv] Cons.prems(2,3) by simp
  then obtain fs where le': "ss_outgoing ?s \<subseteq>\<^sub>m ss_outgoing (send_all ms ?s)" and fs: "distinct fs"
      "set fs \<inter> dom (ss_outgoing ?s) = {}" "files_for (ss_outgoing (send_all ms ?s)) (delivered_of ms) fs"
    by (elim conjE exE)
  have none: "ss_outgoing s ?f = None" by (rule sendSMS_fresh [OF Cons.prems(1)])
  have "ss_outgoing ?s g = ss_outgoing s g" if "g \<in> dom (ss_outgoing s)" for g
    using that none by (intro sendSMS_outgoing(1)) (auto simp: pid)
  then have le: "ss_outgoing s \<subseteq>\<^sub>m ss_outgoing ?s" by (simp add: map_le_def)
  have step: "ss_outgoing s \<subseteq>\<^sub>m ss_outgoing (send_all (m # ms) s)" using map_le_trans [OF le le'] m by simp
  have new: "set fs \<inter> dom (ss_outgoing s) = {}" using fs(2) map_le_implies_dom_le [OF le] by blast
  show ?case
  proof (cases "delivered env")
    case True
    note f = sendSMS_outgoing(2) [OF True, of to content s, unfolded pid]
    then have "?f \<notin> set fs" and "ss_outgoing (send_all ms ?s) ?f = Some (sms_text to content)"
      using fs(2) le' by (auto simp: map_le_def dom_def)
    moreover have "delivered_of (m # ms) = (to, content) # delivered_of ms" using True m by (simp add: delivered_of_def)
    ultimately show ?thesis using step fs(1,3) new none m by (intro conjI exI [of _ "?f # fs"]) auto
  next
    case False
    then have "delivered_of (m # ms) = delivered_of ms" using m by (simp add: delivered_of_def)
    then show ?thesis using step fs(1,3) new m by (intro conjI exI [of _ fs]) simp_all
  qed
qed

text \<open>C25: messages handed to smstools never overwrite one another or a file that is there: when
  the files of this process in the outgoing directory are those its counter has passed, every
  file of the directory stays as it is, and the messages that were delivered are in files of
  their own, a new and different one for each message, equal texts included.\<close>

theorem sms_never_overwritten:
  assumes "sender_inv pid s" and "unat (ss_counter s) + length ms < 2 ^ 64" and "\<forall>m\<in>set ms. se_pid (fst m) = pid"
  shows "ss_outgoing s \<subseteq>\<^sub>m ss_outgoing (send_all ms s)
    \<and> (\<exists>fs. distinct fs \<and> set fs \<inter> dom (ss_outgoing s) = {} \<and> files_for (ss_outgoing (send_all ms s)) (delivered_of ms) fs)"
  using send_all_keeps [OF assms] .

definition sample_sender :: sms_sender where
  "sample_sender = \<lparr>ss_counter = 0, ss_old_files = [], ss_tmp = Map.empty, ss_outgoing = [''other'' \<mapsto> ''x'']\<rparr>"

definition sample_send :: "int \<Rightarrow> send_env" where
  "sample_send now = \<lparr>se_access_ok = True, se_pid = 812, se_tmp = Some, se_rename_ok = True, se_now = now\<rparr>"

lemma sample_sender_inv: "sender_inv 812 sample_sender"
  by (simp add: sender_inv_def sample_sender_def sms_filename_def)

lemma sms_never_overwritten_witness:
  "\<exists>f g. f \<noteq> g \<and> ss_outgoing (send_all [(sample_send 0, ''33102030405'', ''PONG''), (sample_send 1, ''33102030405'', ''PONG'')] sample_sender) f
      = Some (sms_text ''33102030405'' ''PONG'')
    \<and> ss_outgoing (send_all [(sample_send 0, ''33102030405'', ''PONG''), (sample_send 1, ''33102030405'', ''PONG'')] sample_sender) g
      = Some (sms_text ''33102030405'' ''PONG'')"
proof -
  let ?ms = "[(sample_send 0, ''33102030405'', ''PONG''), (sample_send 1, ''33102030405'', ''PONG'')]"
  have d: "delivered_of ?ms = [(''33102030405'', ''PONG''), (''33102030405'', ''PONG'')]"
    by (simp add: delivered_of_def delivered_def sample_send_def)
  obtain fs where fs: "distinct fs" "files_for (ss_outgoing (send_all ?ms sample_sender)) (delivered_of ?ms) fs"
    using sms_never_overwritten [OF sample_sender_inv, of ?ms] by (auto simp: sample_sender_def sample_send_def)
  then obtain f g where "fs = [f, g]" unfolding d by (auto simp: files_for_def list_all2_Cons1)
  then show ?thesis using fs unfolding d by (intro exI [of _ f] exI [of _ g]) simp
qed

lemma age_iff: "SMS_TOO_OLD \<le> duration_cast (now - t) 1000000000 \<longleftrightarrow> 15 * 60 * 1000000000 \<le> now - t"
  using duration_cast_ge [of 1000000000 "15 * 60" "now - t"] by (simp add: SMS_TOO_OLD_def)

text \<open>C36: a clean-up deletes the tracked files that are fifteen minutes old and only those, and
  forgets all of them: a younger file is not deleted by any later clean-up, whenever it
  runs.\<close>

theorem cleanup_forgets_young_files:
  "ss_outgoing (cleanups can_remove (t # ts) s) f
     = (if can_remove f \<and> (\<exists>sent. (f, sent) \<in> set (ss_old_files s) \<and> 15 * 60 * 1000000000 \<le> t - sent)
        then None else ss_outgoing s f)"
  by (simp add: cleanups_untracked cleanupSMS_forgets cleanupSMS_outgoing age_iff)

section \<open>Incoming messages\<close>

text \<open>A message file as smstools writes it (a sender line, header lines, an empty line, the
  text) gives the sender and the lines of the text, without their line ends.\<close>

theorem sms_file_parsed:
  assumes "NL \<notin> set from" and "\<not> str_contains from ''From: ''"
    and "\<forall>l\<in>set headers. l \<noteq> [] \<and> NL \<notin> set l" and "\<forall>l\<in>set text. NL \<notin> set l"
  shows "fst (parseSMS path (Some (sms_file from headers text))) = Some (from, concat text)"
  by (rule parseSMS_file [OF assms])

lemma sms_file_parsed_witness:
  "fst (parseSMS ''m1'' (Some (sms_file ''33102030405'' [''Sent: 24-01-01''] [''ALL'', '' OFF'']))) = Some (''33102030405'', ''ALL OFF'')"
  using sms_file_parsed [of "''33102030405''" "[''Sent: 24-01-01'']" "[''ALL'', '' OFF'']" "''m1''"] by (simp add: starts_with_def)

text \<open>What the thread hands over of the messages one read tells it of: the first.\<close>

fun first_of :: "'a list \<Rightarrow> 'a list" where
  "first_of [] = []"
| "first_of (m # ms) = [m]"

text \<open>A turn whose read brings message files with the given messages, or nothing at all.\<close>

definition read_of :: "receive_turn \<Rightarrow> (string \<times> string) list \<Rightarrow> bool" where
  "read_of turn msgs \<longleftrightarrow> (if msgs = [] then quiet_turn turn
     else \<exists>names. snd turn = Watch_Events names
       \<and> list_all2 (\<lambda>name msg. message_file (fst turn (SMSTOOL_INCOMING_DIR @ name)) msg) names msgs)"

lemma read_of_step:
  assumes "read_of turn msgs"
  shows "fst (receive_loop (turn # turns)) = map_sum id ((@) (first_of msgs)) (fst (receive_loop turns))"
proof (cases msgs)
  case Nil
  then show ?thesis using assms receive_loop_quiet [of turn turns]
    by (cases "fst (receive_loop turns)") (simp_all add: read_of_def)
next
  case (Cons m ms)
  then obtain names where "snd turn = Watch_Events names"
      "list_all2 (\<lambda>name msg. message_file (fst turn (SMSTOOL_INCOMING_DIR @ name)) msg) names (m # ms)"
    using assms by (auto simp: read_of_def)
  then obtain name rest where "snd turn = Watch_Events (name # rest)" "message_file (fst turn (SMSTOOL_INCOMING_DIR @ name)) m"
    by (auto simp: list_all2_Cons2)
  then have "arrives turn m" by (cases turn) (auto simp: arrives_def)
  from receive_loop_arrives [OF this, of turns] show ?thesis using Cons
    by (cases "fst (receive_loop turns)") simp_all
qed

text \<open>C28: of the messages one read of the receiver's thread tells it of, exactly the first is
  handed to the station, sender and text; the others of the same read are lost. The calls come
  in the order of the reads, over any number of turns without news or with failed reads, and
  the thread closes its descriptor when it is stopped.\<close>

theorem inbox_delivered:
  assumes "list_all2 read_of turns batches" and "0 \<le> fd" and "0 \<le> wd"
  shows "fst (sms_receiver_run fd wd turns) = Inr (concat (map first_of batches))
    \<and> fd \<in> set (closed_fds (snd (sms_receiver_run fd wd turns)))"
proof -
  have "fst (receive_loop turns) = Inr (concat (map first_of batches))"
    using assms(1) by induction (simp_all add: read_of_step)
  then obtain e where "receive_loop turns = (Inr (concat (map first_of batches)), e)" by (metis prod.collapse)
  then show ?thesis using assms(2,3) by (simp add: sms_receiver_run_def open_watch_def)
qed

lemma inbox_delivered_witness:
  "fst (sms_receiver_run 3 1
      [(Map.empty, Poll_Timeout),
       ([SMSTOOL_INCOMING_DIR @ ''m1'' \<mapsto> sms_file ''33102030405'' [''Sent: 24-01-01''] [''ALL'', '' OFF''],
         SMSTOOL_INCOMING_DIR @ ''m2'' \<mapsto> sms_file ''33102030405'' [] [''PING'']], Watch_Events [''m1'', ''m2'']),
       (Map.empty, Watch_Error)]) = Inr [(''33102030405'', ''ALL OFF'')]"
proof -
  let ?f = "[SMSTOOL_INCOMING_DIR @ ''m1'' \<mapsto> sms_file ''33102030405'' [''Sent: 24-01-01''] [''ALL'', '' OFF''],
         SMSTOOL_INCOMING_DIR @ ''m2'' \<mapsto> sms_file ''33102030405'' [] [''PING'']]"
  have "message_file (?f (SMSTOOL_INCOMING_DIR @ ''m1'')) (''33102030405'', ''ALL OFF'')"
    by simp (rule message_fileI, simp_all add: starts_with_def)
  moreover have "message_file (?f (SMSTOOL_INCOMING_DIR @ ''m2'')) (''33102030405'', ''PING'')"
    by simp (rule message_fileI, simp_all add: starts_with_def)
  ultimately have "read_of (?f, Watch_Events [''m1'', ''m2'']) [(''33102030405'', ''ALL OFF''), (''33102030405'', ''PING'')]"
    by (simp add: read_of_def)
  moreover have "read_of (Map.empty, Poll_Timeout) []" "read_of (Map.empty, Watch_Error) []"
    by (simp_all add: read_of_def quiet_turn_def)
  ultimately have "list_all2 read_of [(Map.empty, Poll_Timeout), (?f, Watch_Events [''m1'', ''m2'']), (Map.empty, Watch_Error)]
      [[], [(''33102030405'', ''ALL OFF''), (''33102030405'', ''PING'')], []]" by simp
  from inbox_delivered [OF this, of 3 1] show ?thesis by simp
qed

section \<open>Timers, addresses, the uptime\<close>

text \<open>A timer is set to its period exactly, in seconds and nanoseconds below a second, and
  repeats with the same period or not at all.\<close>

theorem timer_set_exactly:
  assumes "timer_start created p periodic t = Inr t'"
  shows "\<exists>sp. t_spec t' = Some sp \<and> 0 \<le> t_fd t'
    \<and> unat (it_value_sec sp) * 1000000000 + unat (it_value_nsec sp) = unat p * 1000000
    \<and> unat (it_value_nsec sp) < 1000000000
    \<and> (it_interval_sec sp, it_interval_nsec sp) = (if periodic then (it_value_sec sp, it_value_nsec sp) else (0, 0))"
proof -
  let ?sp = "timer_spec p periodic"
  have t: "t_spec t' = Some ?sp" "0 \<le> t_fd t'" using assms by (auto simp: timer_start_def Let_def split: if_splits)
  have "unat p = unat p div 1000 * 1000 + unat p mod 1000" by simp
  then have "unat (it_value_sec ?sp) * 1000000000 + unat (it_value_nsec ?sp) = unat p * 1000000"
    unfolding timer_spec_sec timer_spec_nsec by linarith
  moreover have "unat p mod 1000 < 1000" by simp
  then have "unat (it_value_nsec ?sp) < 1000000000" unfolding timer_spec_nsec by linarith
  ultimately show ?thesis using t timer_spec_periodic by (cases periodic) simp_all
qed

lemma timer_set_exactly_witness:
  "\<exists>sp. timer_start 5 30500 True timer_new = Inr \<lparr>t_fd = 5, t_spec = Some sp\<rparr>
    \<and> unat (it_value_sec sp) * 1000000000 + unat (it_value_nsec sp) = 30500 * 1000000"
proof -
  have x: "timer_start 5 30500 True timer_new = Inr \<lparr>t_fd = 5, t_spec = Some (timer_spec 30500 True)\<rparr>"
    by (simp add: timer_start_new)
  show ?thesis using timer_set_exactly [OF x] x by simp
qed

text \<open>A MAC address survives the way into the station's 64-bit key and back, the key is
  below 2 to the 48, and different addresses have different keys.\<close>

theorem mac_key_roundtrip:
  assumes "length mac = 6"
  shows "u64_to_mac (mac_to_u64 mac) = mac \<and> mac_to_u64 mac < 2 ^ 48
    \<and> (\<forall>mac'. length mac' = 6 \<longrightarrow> mac_to_u64 mac' = mac_to_u64 mac \<longrightarrow> mac' = mac)"
  using assms u64_to_mac_to_u64 [of mac] mac_to_u64_bound mac_to_u64_inj [of _ mac] by blast

lemma mac_key_roundtrip_witness: "u64_to_mac (mac_to_u64 [10, 11, 12, 13, 14, 15]) = [10, 11, 12, 13, 14, 15]"
  using mac_key_roundtrip [of "[10, 11, 12, 13, 14, 15]"] by simp

text \<open>The uptime is written as days, hours, minutes and seconds that add up to it (below
  2 to the 32 seconds).\<close>

theorem uptime_text:
  assumes "0 \<le> up" and "up < 2 ^ 32"
  shows "\<exists>d h m s. get_uptime_str (Some up) = dec d @ (if d \<le> 1 then '' day '' else '' days '')
        @ dec h @ ''h '' @ dec m @ ''m '' @ dec s @ ''s''
    \<and> int (d * 86400 + h * 3600 + m * 60 + s) = up \<and> h < 24 \<and> m < 60 \<and> s < 60"
proof -
  let ?n = "nat up"
  have "?n mod 86400 mod 3600 = ?n mod 3600" "?n mod 3600 mod 60 = ?n mod 60" by (simp_all add: mod_mod_cancel)
  moreover have "?n mod 86400 div 3600 * 3600 + ?n mod 86400 mod 3600 = ?n mod 86400"
    "?n mod 3600 div 60 * 60 + ?n mod 3600 mod 60 = ?n mod 3600" "?n div 86400 * 86400 + ?n mod 86400 = ?n"
    by (rule div_mult_mod_eq)+
  ultimately have "?n div 86400 * 86400 + ?n mod 86400 div 3600 * 3600 + ?n mod 3600 div 60 * 60 + ?n mod 60 = ?n"
    by linarith
  moreover have "?n mod 86400 div 3600 < 24" "?n mod 3600 div 60 < 60"
    by (rule less_mult_imp_div_less, simp)+
  moreover have "int ?n = up" using assms by simp
  ultimately show ?thesis
    using get_uptime_str_eq [OF assms] mod_less_divisor [of 60 ?n] unfolding Let_def
    by (metis zero_less_numeral)
qed

lemma uptime_text_witness:
  "\<exists>d h m s. int (d * 86400 + h * 3600 + m * 60 + s) = 100000 \<and> h < 24 \<and> m < 60 \<and> s < 60"
  using uptime_text [of 100000] by auto

end
