(* ===== verification/Daemon.thy ===== *)
theory Daemon
  imports Station Servers Support_Props
begin

text \<open>
  The daemon as \<open>main.cpp\<close> composes it: its start-up and the passes of its main loop.
\<close>

section \<open>Start-up\<close>

text \<open>What the start reads from the system: the results of the calls, in the order of the code.\<close>

record main_env =
  mn_program :: string
  mn_git_hash :: string
  mn_build_time :: string
  mn_fds :: "nat \<Rightarrow> int"
  mn_rnd :: u32
  mn_writable :: bool
  mn_disk :: "string option"
  mn_sock :: int
  mn_bind :: int
  mn_listen :: "int \<Rightarrow> int"
  mn_web :: "int option"

record daemon =
  dm_station :: base_station
  dm_device_server :: device_server
  dm_sms_receiver :: sms_receiver
  dm_web_server :: web_server

definition print_help :: "string \<Rightarrow> string" where
  "print_help program_name = ''Usage: '' @ program_name @ '' [options]'' @ [NL] @ ''Options:'' @ [NL]
     @ ''    --device-server-port <port>       Set device server port'' @ [NL]
     @ ''    --version, -v                     Print version'' @ [NL]
     @ ''    --help, -h                        Print help'' @ [NL]"

text \<open>The station and its servers, on the given port; an exception leaves \<open>main\<close> and ends the program.\<close>

definition daemon_start :: "main_env \<Rightarrow> int \<Rightarrow> (exn + daemon) \<times> effect list" where
  "daemon_start env port =
     (let e0 = [Log Info (mn_program env @ '' (version: '' @ get_version_str (mn_git_hash env) (mn_build_time env) @ '') started'')]
      in case base_station_new (mn_fds env) (mn_rnd env) (mn_writable env) (mn_disk env) of
           Inl x \<Rightarrow> (Inl x, e0)
         | Inr (bs, e1) \<Rightarrow>
             (case device_server_start (mn_sock env) (mn_bind env) (mn_listen env) (device_server_new (word_of_int port)) of
                (Inl x, ds, e2) \<Rightarrow> (Inl x, e0 @ e1 @ e2)
              | (Inr ds, _, e2) \<Rightarrow>
                  (case sms_receiver_start sms_receiver_new of (sr, e3) \<Rightarrow>
                   case web_server_start (mn_web env) web_server_new of
                     (Inl x, e4) \<Rightarrow> (Inl x, e0 @ e1 @ e2 @ e3 @ e4)
                   | (Inr ws, e4) \<Rightarrow>
                       (Inr \<lparr>dm_station = bs, dm_device_server = ds, dm_sms_receiver = sr, dm_web_server = ws\<rparr>,
                        e0 @ e1 @ e2 @ e3 @ e4))))"

text \<open>An exit has its code and what was written to the standard output and to the standard error.\<close>

datatype outcome = Exits int string string | Dies exn | Runs daemon

definition main :: "main_env \<Rightarrow> string list \<Rightarrow> outcome" where
  "main env args =
     (case parse_args args DEFAULT_DEVICE_SERVER_PORT of
        Help \<Rightarrow> Exits 0 (print_help (mn_program env)) []
      | Version \<Rightarrow> Exits 0 (get_version_str (mn_git_hash env) (mn_build_time env) @ [NL]) []
      | Invalid opt \<Rightarrow> Exits (-1) (print_help (mn_program env)) (''Invalid option: '' @ [DQ] @ opt @ [DQ, NL])
      | Throw x \<Rightarrow> Dies x
      | Run port \<Rightarrow> (case daemon_start env port of (Inl x, _) \<Rightarrow> Dies x | (Inr dm, _) \<Rightarrow> Runs dm))"

lemma base_station_new_iff:
  "(\<exists>bs e. base_station_new fds rnd w disk = Inr (bs, e)) \<longleftrightarrow> (\<forall>k < 7. 0 \<le> fds k)"
proof -
  have t: "timer_start fd p q timer_new = (if fd < 0 then Inl (Runtime_Error ''Failed to create timer'')
      else Inr \<lparr>t_fd = fd, t_spec = Some (timer_spec p q)\<rparr>)" for fd p q
    by (simp add: timer_start_def timer_new_def Let_def)
  have k: "(\<forall>k < 7. 0 \<le> fds k) \<longleftrightarrow> 0 \<le> fds 0 \<and> 0 \<le> fds 1 \<and> 0 \<le> fds 2 \<and> 0 \<le> fds 3 \<and> 0 \<le> fds 4 \<and> 0 \<le> fds 5 \<and> 0 \<le> fds 6"
  proof -
    have "k < 7 \<longleftrightarrow> k = 0 \<or> k = 1 \<or> k = 2 \<or> k = 3 \<or> k = 4 \<or> k = 5 \<or> k = 6" for k :: nat by presburger
    then show ?thesis by auto
  qed
  show ?thesis unfolding k base_station_new_def t by (simp split: prod.split)
qed

lemma main_runs_ok:
  assumes "mn_listen env (-1) < 0"
  shows "(\<exists>dm. main env args = Runs dm \<and> station_reach (dm_station dm)
      \<and> ds_running (dm_device_server dm) \<and> ds_fd (dm_device_server dm) = mn_sock env
      \<and> sr_running (dm_sms_receiver dm) \<and> ws_daemon (dm_web_server dm) = mn_web env)
    \<longleftrightarrow> (\<exists>port. parse_args args DEFAULT_DEVICE_SERVER_PORT = Run port) \<and> (\<forall>k < 7. 0 \<le> mn_fds env k)
      \<and> 0 \<le> mn_sock env \<and> 0 \<le> mn_bind env \<and> 0 \<le> mn_listen env (mn_sock env) \<and> mn_web env \<noteq> None"
    (is "?l \<longleftrightarrow> ?r")
proof -
  have ds: "device_server_start (mn_sock env) (mn_bind env) (mn_listen env) (device_server_new p) = (r, ds', e) \<Longrightarrow>
      (\<exists>d. r = Inr d) \<longleftrightarrow> 0 \<le> mn_sock env \<and> 0 \<le> mn_bind env \<and> 0 \<le> mn_listen env (mn_sock env)" for p r ds' e
    using assms by (auto simp: device_server_start_def device_server_new_def Let_def split: if_splits)
  have run: "device_server_start (mn_sock env) (mn_bind env) (mn_listen env) (device_server_new p) = (Inr d, ds', e) \<Longrightarrow>
      ds_running d \<and> ds_fd d = mn_sock env" for p d ds' e
    using assms by (auto simp: device_server_start_def device_server_new_def Let_def split: if_splits)
  note simps = main_def daemon_start_def sms_receiver_start_def sms_receiver_new_def web_server_start_def web_server_new_def Let_def
  show ?thesis
  proof
    assume ?l
    then show ?r
      using base_station_new_iff [of "mn_fds env" "mn_rnd env" "mn_writable env" "mn_disk env"]
      by (auto simp: simps split: main_result.splits sum.splits prod.splits option.splits dest: ds)
  next
    assume r: ?r
    then obtain port where p: "parse_args args DEFAULT_DEVICE_SERVER_PORT = Run port" by blast
    obtain bs e where b: "base_station_new (mn_fds env) (mn_rnd env) (mn_writable env) (mn_disk env) = Inr (bs, e)"
      using r base_station_new_iff by blast
    obtain d ds' e2 where d: "device_server_start (mn_sock env) (mn_bind env) (mn_listen env) (device_server_new (word_of_int port)) = (Inr d, ds', e2)"
      using ds r by (metis prod.collapse)
    obtain w where "mn_web env = Some w" using r by blast
    then show ?l using p b d run [OF d] start [OF b] by (simp add: simps)
  qed
qed

text \<open>C20: the daemon reaches its main loop exactly when its options are right, its seven timers and
  its socket can be created, the socket can be bound and listened on, and the web server
  starts; its station is then a freshly started one, and its servers run. In every other case
  it ends, with an exit code or an exception.\<close>

theorem main_runs_iff:
  assumes "mn_listen env (-1) < 0"
  shows "(\<exists>dm. main env args = Runs dm \<and> station_reach (dm_station dm)
      \<and> ds_running (dm_device_server dm) \<and> ds_fd (dm_device_server dm) = mn_sock env
      \<and> sr_running (dm_sms_receiver dm) \<and> ws_daemon (dm_web_server dm) = mn_web env)
    \<longleftrightarrow> (\<exists>port. parse_args args DEFAULT_DEVICE_SERVER_PORT = Run port) \<and> (\<forall>k < 7. 0 \<le> mn_fds env k)
      \<and> 0 \<le> mn_sock env \<and> 0 \<le> mn_bind env \<and> 0 \<le> mn_listen env (mn_sock env) \<and> mn_web env \<noteq> None"
  by (rule main_runs_ok [OF assms])

definition sample_main :: main_env where
  "sample_main = \<lparr>mn_program = ''base_station'', mn_git_hash = ''abc1234'', mn_build_time = ''today'', mn_fds = (\<lambda>k. int k + 3),
     mn_rnd = 7, mn_writable = True, mn_disk = None, mn_sock = 12, mn_bind = 0, mn_listen = (\<lambda>fd. if fd < 0 then -1 else 0), mn_web = Some 1\<rparr>"

lemma sample_main_fields:
  "mn_fds sample_main = (\<lambda>k. int k + 3)" "mn_sock sample_main = 12" "mn_bind sample_main = 0"
  "mn_listen sample_main = (\<lambda>fd. if fd < 0 then -1 else 0)" "mn_web sample_main = Some 1"
  by (simp_all only: sample_main_def main_env.simps)

lemma main_runs_iff_witness:
  "\<exists>dm. main sample_main [''--device-server-port'', dec 32000] = Runs dm \<and> station_reach (dm_station dm)
    \<and> ds_fd (dm_device_server dm) = 12"
proof -
  let ?args = "[''--device-server-port'', dec 32000]"
  have p: "parse_args ?args DEFAULT_DEVICE_SERVER_PORT = Run 32000" using stoi_dec [of 32000] by simp
  have l: "mn_listen sample_main (-1) < 0" by (simp add: sample_main_fields)
  have "\<exists>dm. main sample_main ?args = Runs dm \<and> station_reach (dm_station dm)
      \<and> ds_running (dm_device_server dm) \<and> ds_fd (dm_device_server dm) = mn_sock sample_main
      \<and> sr_running (dm_sms_receiver dm) \<and> ws_daemon (dm_web_server dm) = mn_web sample_main"
  proof (rule iffD2 [OF main_runs_iff [OF l]], intro conjI)
    show "\<exists>port. parse_args ?args DEFAULT_DEVICE_SERVER_PORT = Run port" using p by (rule exI)
  qed (simp_all add: sample_main_fields)
  then obtain dm where "main sample_main ?args = Runs dm" "station_reach (dm_station dm)" "ds_fd (dm_device_server dm) = mn_sock sample_main"
    by (elim exE conjE)
  then show ?thesis unfolding sample_main_fields by (intro exI conjI)
qed

section \<open>The main loop\<close>

text \<open>
  A turn of one of the other threads: of the device server's loop, which queues the connection
  it accepts, at the given time; the start of the receiver's thread; a turn of its loop, which
  queues the message it reads. An exception in a thread ends the process.
\<close>

datatype thread_turn =
    Server_Turn int bool int string int
  | Receiver_Start int int
  | Receiver_Turn "string \<Rightarrow> string option" watch_event

fun run_turn :: "thread_turn \<Rightarrow> base_station \<Rightarrow> exn + base_station res" where
  "run_turn (Server_Turn ret pollin fd peer now) bs =
     (case device_server_turn True ret pollin fd peer of
        (Inl x, e) \<Rightarrow> Inl x
      | (Inr None, e) \<Rightarrow> Inr (bs, e)
      | (Inr (Some client_fd), e) \<Rightarrow> Inr (handleNewDevice now client_fd bs, e))"
| "run_turn (Receiver_Start fd wd) bs =
     (case open_watch fd wd of (Inl x, e) \<Rightarrow> Inl x | (Inr watch, e) \<Rightarrow> Inr (bs, e))"
| "run_turn (Receiver_Turn files ev) bs =
     (case receive_step files ev of
        (Inl x, e) \<Rightarrow> Inl x
      | (Inr None, e) \<Rightarrow> Inr (bs, e)
      | (Inr (Some (sender, content)), e) \<Rightarrow> Inr (handleSMSCommand sender content bs, e))"

fun run_turns :: "thread_turn list \<Rightarrow> base_station \<Rightarrow> exn + base_station res" where
  "run_turns [] bs = Inr (bs, [])"
| "run_turns (t # ts) bs =
     (case run_turn t bs of
        Inl x \<Rightarrow> Inl x
      | Inr (bs1, e1) \<Rightarrow> (case run_turns ts bs1 of Inl x \<Rightarrow> Inl x | Inr (bs2, e2) \<Rightarrow> Inr (bs2, e1 @ e2)))"

text \<open>
  Passes of \<open>process\<close>, 50 milliseconds apart, and before each the turns the other threads made.
  A pass whose reboot works is the last.
\<close>

fun main_loop :: "(thread_turn list \<times> tick_env) list \<Rightarrow> base_station \<Rightarrow> exn + base_station res" where
  "main_loop [] bs = Inr (bs, [])"
| "main_loop ((turns, te) # passes) bs =
     (case run_turns turns bs of
        Inl x \<Rightarrow> Inl x
      | Inr (bs1, e1) \<Rightarrow>
          (case process te bs1 of
             Inl x \<Rightarrow> Inl x
           | Inr (bs2, e2) \<Rightarrow>
               if te_reboots te \<and> Reboot \<in> set e2 then Inl Rebooted
               else (case main_loop passes bs2 of Inl x \<Rightarrow> Inl x | Inr (bs3, e3) \<Rightarrow> Inr (bs3, e1 @ e2 @ e3))))"

text \<open>The system gives an accepted connection a descriptor that is not in use.\<close>

definition new_fd :: "thread_turn \<Rightarrow> base_station \<Rightarrow> bool" where
  "new_fd t bs = (case t of Server_Turn ret pollin fd peer now \<Rightarrow> fd \<notin> set (conn_fds bs) | _ \<Rightarrow> True)"

fun new_fds :: "thread_turn list \<Rightarrow> base_station \<Rightarrow> bool" where
  "new_fds [] bs = True"
| "new_fds (t # ts) bs = (new_fd t bs \<and> (case run_turn t bs of Inl x \<Rightarrow> True | Inr (bs1, _) \<Rightarrow> new_fds ts bs1))"

fun new_fds_run :: "(thread_turn list \<times> tick_env) list \<Rightarrow> base_station \<Rightarrow> bool" where
  "new_fds_run [] bs = True"
| "new_fds_run ((turns, te) # passes) bs =
     (new_fds turns bs
      \<and> (case run_turns turns bs of
           Inl x \<Rightarrow> True
         | Inr (bs1, _) \<Rightarrow> (case process te bs1 of Inl x \<Rightarrow> True | Inr (bs2, _) \<Rightarrow> new_fds_run passes bs2)))"

text \<open>
  What ends the daemon: \<open>poll\<close> fails in a thread, or the watch of the directory cannot be set
  up; a client that is found readable has sent half a message, an endless name, or a request
  whose reply it does not take; the owner has it rebooted.
\<close>

definition thread_fails :: "thread_turn \<Rightarrow> bool" where
  "thread_fails t = (case t of
     Server_Turn ret _ _ _ _ \<Rightarrow> ret < 0
   | Receiver_Start fd wd \<Rightarrow> fd < 0 \<or> wd < 0
   | Receiver_Turn _ ev \<Rightarrow> (case ev of Poll_Error _ \<Rightarrow> True | _ \<Rightarrow> False))"

definition misbehaves :: "conn_env \<Rightarrow> int \<Rightarrow> bool" where
  "misbehaves env fd \<longleftrightarrow> list_ex (bad_client env fd) [Blocked, Bad_Access, Killed]"

fun fair_run :: "(thread_turn list \<times> tick_env) list \<Rightarrow> base_station \<Rightarrow> bool" where
  "fair_run [] bs = True"
| "fair_run ((turns, te) # passes) bs =
     (\<not> list_ex thread_fails turns
      \<and> (case run_turns turns bs of
           Inl x \<Rightarrow> True
         | Inr (bs1, _) \<Rightarrow>
             \<not> (0 < te_poll te \<and> list_ex (misbehaves (te_conn te)) (conn_fds bs1))
             \<and> (case process te bs1 of
                  Inl x \<Rightarrow> True
                | Inr (bs2, e) \<Rightarrow> \<not> (te_reboots te \<and> Reboot \<in> set e) \<and> fair_run passes bs2)))"

lemma misbehaves_iff: "misbehaves env fd \<longleftrightarrow> (\<exists>x. bad_client env fd x)"
  by (auto simp: misbehaves_def bad_client_def stops_parser_def reply_fails_def
      split: read_result.splits write_result.splits if_splits)

lemma receive_step_fails:
  "(\<exists>x e. receive_step files ev = (Inl x, e)) \<longleftrightarrow> (case ev of Poll_Error _ \<Rightarrow> True | _ \<Rightarrow> False)"
  by (auto simp: receive_step_def Let_def split: watch_event.split list.split prod.split)

lemma run_turn_returns:
  "(\<exists>bs' e. run_turn t bs = Inr (bs', e)) \<longleftrightarrow> \<not> thread_fails t"
proof (cases t)
  case (Server_Turn ret pollin fd peer now)
  then show ?thesis by (auto simp: thread_fails_def device_server_turn_def Let_def split: sum.splits option.splits)
next
  case (Receiver_Start fd wd)
  then show ?thesis by (auto simp: thread_fails_def open_watch_def)
next
  case (Receiver_Turn files ev)
  then show ?thesis using receive_step_fails [of files ev]
    by (cases "receive_step files ev"; cases "fst (receive_step files ev)")
       (auto simp: thread_fails_def split: option.split watch_event.splits)
qed

lemma run_turn_inv:
  assumes "run_turn t bs = Inr (bs', e)" and "new_fd t bs" and "station_inv bs"
  shows "station_inv bs'"
proof -
  have "station_inv (handleNewDevice now fd bs)" if "fd \<notin> set (conn_fds bs)" for now fd
    using step_inv [of bs "New_Device now fd"] assms(3) that by (simp add: event_ok_def)
  moreover have "station_inv (handleSMSCommand sender content bs)" for sender content
    using step_inv [of bs "Sms_In sender content"] assms(3) by (simp add: event_ok_def)
  ultimately show ?thesis using assms
    by (cases t) (auto simp: new_fd_def device_server_turn_def Let_def split: prod.splits sum.splits option.splits if_splits)
qed

lemma run_turns_returns:
  "(\<exists>bs' e. run_turns ts bs = Inr (bs', e)) \<longleftrightarrow> \<not> list_ex thread_fails ts"
proof (induction ts arbitrary: bs)
  case (Cons t ts)
  show ?case
  proof (cases "thread_fails t")
    case True
    then have "run_turn t bs \<noteq> Inr r" for r using run_turn_returns [of t bs] by (cases r) auto
    then show ?thesis using True by (auto split: sum.split)
  next
    case False
    then obtain bs1 e1 where t: "run_turn t bs = Inr (bs1, e1)" using run_turn_returns [of t bs] by blast
    have "(\<exists>bs' e. run_turns (t # ts) bs = Inr (bs', e)) \<longleftrightarrow> (\<exists>bs' e. run_turns ts bs1 = Inr (bs', e))"
      by (auto simp: t split: sum.split)
    then show ?thesis using Cons.IH [of bs1] False by simp
  qed
qed simp

lemma run_turns_inv:
  "run_turns ts bs = Inr (bs', e) \<Longrightarrow> new_fds ts bs \<Longrightarrow> station_inv bs \<Longrightarrow> station_inv bs'"
proof (induction ts arbitrary: bs e)
  case (Cons t ts)
  obtain bs1 e1 e2 where t: "run_turn t bs = Inr (bs1, e1)" and r: "run_turns ts bs1 = Inr (bs', e2)"
    using Cons.prems(1) by (auto split: sum.splits)
  have "station_inv bs1" using run_turn_inv [OF t] Cons.prems(2,3) by simp
  then show ?case using Cons.IH [OF r] Cons.prems(2) t by simp
qed simp

lemma main_loop_returns:
  "new_fds_run passes bs \<Longrightarrow> station_inv bs
    \<Longrightarrow> (\<exists>bs' e. main_loop passes bs = Inr (bs', e) \<and> station_inv bs') \<longleftrightarrow> fair_run passes bs"
proof (induction passes arbitrary: bs)
  case (Cons pass passes)
  obtain turns te where pass: "pass = (turns, te)" by (cases pass)
  show ?case
  proof (cases "list_ex thread_fails turns")
    case True
    then have "run_turns turns bs \<noteq> Inr r" for r using run_turns_returns [of turns bs] by (cases r) auto
    then show ?thesis using pass True by (auto split: sum.split)
  next
    case False
    then obtain bs1 e1 where t: "run_turns turns bs = Inr (bs1, e1)" using run_turns_returns [of turns bs] by blast
    have i: "station_inv bs1" using run_turns_inv [OF t] Cons.prems pass by simp
    have bad: "(\<exists>fd\<in>set (conn_fds bs1). \<exists>x. bad_client (te_conn te) fd x) \<longleftrightarrow> list_ex (misbehaves (te_conn te)) (conn_fds bs1)"
      by (simp add: list_ex_iff misbehaves_iff)
    note pr = process_returns [OF i, of te, unfolded bad]
    show ?thesis
    proof (cases "process te bs1")
      case (Inl x)
      then show ?thesis using pr pass t by simp
    next
      case (Inr r)
      obtain bs2 e2 where p: "process te bs1 = Inr (bs2, e2)" using Inr by (cases r) simp
      have "new_fds_run passes bs2" using Cons.prems(1) pass t p by simp
      note IH = Cons.IH [OF this process_inv [OF p i]]
      have "(\<exists>bs' e. main_loop (pass # passes) bs = Inr (bs', e) \<and> station_inv bs')
          \<longleftrightarrow> \<not> (te_reboots te \<and> Reboot \<in> set e2) \<and> (\<exists>bs' e. main_loop passes bs2 = Inr (bs', e) \<and> station_inv bs')"
        by (auto simp: pass t p split: sum.split)
      then show ?thesis using pr IH False pass t p by simp
    qed
  qed
qed simp

lemma main_station:
  assumes "main env args = Runs dm"
  shows "\<exists>e. base_station_new (mn_fds env) (mn_rnd env) (mn_writable env) (mn_disk env) = Inr (dm_station dm, e)"
  using assms by (auto simp: main_def daemon_start_def Let_def split: main_result.splits sum.splits prod.splits)

text \<open>C18: from a start on, however many passes the main loop makes and whatever the other threads
  queue between them, the daemon goes on, with a well-formed state, exactly as long as none of
  these things happens: \<open>poll\<close> fails in the device server's or the receiver's thread, or the
  incoming directory cannot be watched (an exception then ends the process); a client that is
  found readable has sent half a message, a request without an end byte, or a request whose
  reply it does not take; the station is told to reboot and the call works. (The shell
  commands, the modem and the files are taken to answer.)\<close>

theorem daemon_keeps_running:
  assumes "main env args = Runs dm" and "new_fds_run passes (dm_station dm)"
  shows "(\<exists>bs' e. main_loop passes (dm_station dm) = Inr (bs', e) \<and> config_inv bs' \<and> device_inv bs' \<and> distinct (conn_fds bs'))
    \<longleftrightarrow> fair_run passes (dm_station dm)"
proof -
  have "station_inv (dm_station dm)" using main_station [OF assms(1)] reach_inv [OF start] by blast
  then show ?thesis using main_loop_returns [OF assms(2)] by (simp add: station_inv_def)
qed

text \<open>
  A first pass before which the receiver has started, a message has come and a device has
  connected; it has sent nothing yet.
\<close>

definition quiet_tick :: tick_env where
  "quiet_tick = \<lparr>te_poll = 0, te_conn = sample_conn_env\<lparr>ce_readable := \<lambda>_. False\<rparr>, te_cmd = \<lambda>_. sample_env,
     te_expired = \<lambda>_. False, te_wifi = None, te_modem = sample_modem, te_proc = None, te_reboots = True\<rparr>"

definition sample_turns :: "thread_turn list" where
  "sample_turns = [Receiver_Start 20 1, Server_Turn 1 True 40 ''192.168.1.40'' 0,
     Receiver_Turn [SMSTOOL_INCOMING_DIR @ ''m1'' \<mapsto> sms_file ''33102030405'' [] [''Ping'']] (Watch_Events [''m1''])]"

lemma run_turns_Cons: "run_turn t bs = Inr (bs1, e1) \<Longrightarrow> run_turns ts bs1 = Inr (bs2, e2) \<Longrightarrow> run_turns (t # ts) bs = Inr (bs2, e1 @ e2)"
  by simp

lemma sample_turns_run:
  "\<exists>e. run_turns sample_turns bs = Inr (handleSMSCommand ''33102030405'' ''Ping'' (handleNewDevice 0 40 bs), e)"
proof -
  let ?files = "[SMSTOOL_INCOMING_DIR @ ''m1'' \<mapsto> sms_file ''33102030405'' [] [''Ping'']]"
  have "message_file (Some (sms_file ''33102030405'' [] [''Ping''])) (''33102030405'', ''Ping'')"
    by (rule message_fileI) (simp_all add: starts_with_def)
  then have "fst (receive_step ?files (Watch_Events [''m1''])) = Inr (Some (''33102030405'', ''Ping''))"
    by (rule receive_step_arrives [OF arrives_one])
  then obtain e where e: "receive_step ?files (Watch_Events [''m1'']) = (Inr (Some (''33102030405'', ''Ping'')), e)"
    by (cases "receive_step ?files (Watch_Events [''m1''])") simp
  have r: "run_turn (Receiver_Turn ?files (Watch_Events [''m1''])) (handleNewDevice 0 40 bs)
      = Inr (handleSMSCommand ''33102030405'' ''Ping'' (handleNewDevice 0 40 bs), e)"
    by (simp only: run_turn.simps e prod.case sum.case option.case)
  have o: "run_turn (Receiver_Start 20 1) bs = Inr (bs, [])" by (simp add: open_watch_def)
  have s: "run_turn (Server_Turn 1 True 40 ''192.168.1.40'' 0) bs
      = Inr (handleNewDevice 0 40 bs, [Log Debug (''New device connection from '' @ ''192.168.1.40'')])"
    by (simp add: device_server_turn_def)
  show ?thesis unfolding sample_turns_def
    by (rule exI) (rule run_turns_Cons [OF o run_turns_Cons [OF s run_turns_Cons [OF r run_turns.simps(1)]]])
qed

lemma daemon_keeps_running_witness:
  "\<exists>dm bs' e. main sample_main [] = Runs dm \<and> main_loop [(sample_turns, quiet_tick)] (dm_station dm) = Inr (bs', e)"
proof -
  let ?passes = "[(sample_turns, quiet_tick)]"
  have l: "mn_listen sample_main (-1) < 0" by (simp add: sample_main_fields)
  have "\<exists>dm. main sample_main [] = Runs dm \<and> station_reach (dm_station dm)
      \<and> ds_running (dm_device_server dm) \<and> ds_fd (dm_device_server dm) = mn_sock sample_main
      \<and> sr_running (dm_sms_receiver dm) \<and> ws_daemon (dm_web_server dm) = mn_web sample_main"
    by (rule iffD2 [OF main_runs_ok [OF l]]) (simp add: sample_main_fields)
  then obtain dm where m: "main sample_main [] = Runs dm" by (elim exE conjE)
  obtain e where b: "base_station_new (mn_fds sample_main) (mn_rnd sample_main) (mn_writable sample_main) (mn_disk sample_main)
      = Inr (dm_station dm, e)" using main_station [OF m] by blast
  have c: "conn_fds (dm_station dm) = []" using base_station_new_state [OF b] by (simp add: conn_fds_def)
  let ?bs1 = "handleSMSCommand ''33102030405'' ''Ping'' (handleNewDevice 0 40 (dm_station dm))"
  obtain e1 where t: "run_turns sample_turns (dm_station dm) = Inr (?bs1, e1)" using sample_turns_run by blast
  have q: "te_poll quiet_tick = 0" "te_reboots quiet_tick" "te_expired quiet_tick = (\<lambda>_. False)" "te_cmd quiet_tick = (\<lambda>_. sample_env)"
    by (simp_all add: quiet_tick_def)
  have n: "normalise ''Ping'' = ''PING''" by code_simp
  have "m_commands (dm_station dm) = []" "\<not> m_locked (dm_station dm)" using base_station_new_state [OF b] by simp_all
  then have pc: "parseCommands (\<lambda>_. sample_env) ?bs1 = Inr (?bs1\<lparr>m_commands := []\<rparr>, [Sms ''33102030405'' ''PONG''])"
    by (simp add: parseCommands_def n dropped_def Let_def exec_command_def handleSMSCommand_def handleNewDevice_def)
  have p: "process quiet_tick ?bs1 = Inr (?bs1\<lparr>m_commands := []\<rparr>, [Sms ''33102030405'' ''PONG''])"
    by (simp add: process_def q handleConnections_def pc checkStaleConnections_def checkWifi_def checkLostDevices_def
        check3G_def checkSMSDaemon_def sendBootMsg_def cleanupSMS_tick_def)
  have "new_fds sample_turns (dm_station dm)"
    using c by (simp add: sample_turns_def new_fd_def open_watch_def device_server_turn_def split: sum.split prod.split)
  then have nf: "new_fds_run ?passes (dm_station dm)" by (simp add: t p)
  have "\<not> list_ex thread_fails sample_turns" by (simp add: sample_turns_def thread_fails_def)
  then have "fair_run ?passes (dm_station dm)" by (simp add: t p q)
  then show ?thesis using daemon_keeps_running [OF m nf] m by blast
qed

end
