(* ===== verification/World.thy ===== *)
theory World
  imports Daemon
begin

text \<open>
  The world the daemon's effects act on. The effects of the station's operations are performed
  in their order: a log record by the logger, a text message by the sender of
  \<open>sms_sender.cpp\<close>, which is built at its first use (\<open>SMSSender::instance\<close>) and then deletes
  what it finds in the outgoing directory, a clean-up by the same sender. The records the
  sender logs itself follow. A reboot that works is the last effect that is performed. So the
  messages of the station become files of smstools, and a text message is followed from the
  file it arrives in to the file of its answer.
\<close>

record world =
  wd_log :: logger
  wd_built :: bool
  wd_sms :: sms_sender

text \<open>
  What the system answers while one effect is performed: what becomes of the log records, the
  results for the message file, the permissions and the listing of the outgoing directory, and
  whether a call of \<open>reboot\<close> works.
\<close>

record world_env =
  we_logs :: "nat \<Rightarrow> log_env"
  we_send :: send_env
  we_can_remove :: "string \<Rightarrow> bool"
  we_dir :: "(string \<times> bool) list option"
  we_now :: int
  we_reboots :: bool

fun write_logs :: "(nat \<Rightarrow> log_env) \<Rightarrow> effect list \<Rightarrow> logger \<Rightarrow> logger" where
  "write_logs logs [] l = l"
| "write_logs logs (Log lev s # es) l = write_logs (\<lambda>k. logs (Suc k)) es (log_record (logs 0) lev s l)"
| "write_logs logs (_ # es) l = write_logs logs es l"

text \<open>\<open>SMSSender::instance\<close>: the static object is built when the function is first called.\<close>

definition sms_instance :: "world_env \<Rightarrow> world \<Rightarrow> world res" where
  "sms_instance env w =
     (if wd_built w then (w, [])
      else case sms_sender_new (we_can_remove env) (we_dir env) (ss_tmp (wd_sms w)) (ss_outgoing (wd_sms w)) of
        (s, e) \<Rightarrow> (w\<lparr>wd_built := True, wd_sms := s\<rparr>, e))"

fun act :: "world_env \<Rightarrow> effect \<Rightarrow> world \<Rightarrow> world" where
  "act env (Log lev s) w = w\<lparr>wd_log := log_record (we_logs env 0) lev s (wd_log w)\<rparr>"
| "act env (Sms to content) w =
     (case sms_instance env w of (w1, e1) \<Rightarrow>
      case sendSMS (we_send env) to content (wd_sms w1) of ((s, ok), e2) \<Rightarrow>
        w1\<lparr>wd_sms := s, wd_log := write_logs (we_logs env) (e1 @ e2) (wd_log w1)\<rparr>)"
| "act env Cleanup_Sms w =
     (case sms_instance env w of (w1, e1) \<Rightarrow>
      case cleanupSMS (we_can_remove env) (we_now env) (wd_sms w1) of (s, e2) \<Rightarrow>
        w1\<lparr>wd_sms := s, wd_log := write_logs (we_logs env) (e1 @ e2) (wd_log w1)\<rparr>)"
| "act env _ w = w"

text \<open>The effects that are performed: those up to a reboot that works, which has no other trace here.\<close>

fun performed :: "(nat \<Rightarrow> world_env) \<Rightarrow> effect list \<Rightarrow> effect list" where
  "performed envs [] = []"
| "performed envs (e # es) =
     (if e = Reboot \<and> we_reboots (envs 0) then [] else e # performed (\<lambda>k. envs (Suc k)) es)"

fun act_all :: "(nat \<Rightarrow> world_env) \<Rightarrow> effect list \<Rightarrow> world \<Rightarrow> world" where
  "act_all envs [] w = w"
| "act_all envs (e # es) w = act_all (\<lambda>k. envs (Suc k)) es (act (envs 0) e w)"

definition acts :: "(nat \<Rightarrow> world_env) \<Rightarrow> effect list \<Rightarrow> world \<Rightarrow> world" where
  "acts envs es w = act_all envs (performed envs es) w"

lemma performed_all: "Reboot \<notin> set es \<Longrightarrow> performed envs es = es"
  by (induction es arbitrary: envs) auto

lemma performed_sms: "length (sms_of (performed envs es)) \<le> length (sms_of es)"
proof (induction es arbitrary: envs)
  case (Cons e es)
  then show ?case using Cons.IH [of "\<lambda>k. envs (Suc k)"] by (cases e) simp_all
qed simp

text \<open>The start of the log in \<open>main\<close>, before anything is logged, and the effects of the start-up.\<close>

definition start_logging :: "bool \<Rightarrow> world \<Rightarrow> world" where
  "start_logging opens w = w\<lparr>wd_log := startLogging opens ''.'' (wd_log w)\<rparr>"

definition start_world :: "bool \<Rightarrow> (nat \<Rightarrow> world_env) \<Rightarrow> main_env \<Rightarrow> int \<Rightarrow> world \<Rightarrow> world" where
  "start_world opens envs env port w = acts envs (snd (daemon_start env port)) (start_logging opens w)"

section \<open>The log among the effects\<close>

text \<open>What a list of effects adds to the standard output contains the records among them.\<close>

fun log_items :: "effect list \<Rightarrow> (log_level \<times> string) list" where
  "log_items [] = []"
| "log_items (Log lev s # es) = (lev, s) # log_items es"
| "log_items (_ # es) = log_items es"

lemma write_logs_cout: "\<exists>new. lg_cout (write_logs logs es l) = lg_cout l @ new"
proof (induction logs es l rule: write_logs.induct)
  case (2 logs lev s es l)
  then show ?case by (auto simp: log_record_cout)
qed auto

lemma act_cout:
  "\<exists>new. lg_cout (wd_log (act env e w)) = lg_cout (wd_log w) @ new
     \<and> (\<forall>lev s. e = Log lev s \<longrightarrow> new = log_line (le_stamp (we_logs env 0)) lev s)"
proof -
  have i: "wd_log (fst (sms_instance env w)) = wd_log w" by (simp add: sms_instance_def split: prod.split)
  show ?thesis
  proof (cases e)
    case (Sms to content)
    then show ?thesis using i write_logs_cout by (auto split: prod.split)
  next
    case Cleanup_Sms
    then show ?thesis using i write_logs_cout by (auto split: prod.split)
  qed (simp_all add: log_record_cout)
qed

lemma act_all_records:
  "\<exists>new. lg_cout (wd_log (act_all envs es w)) = lg_cout (wd_log w) @ new
     \<and> (\<forall>lev s. (lev, s) \<in> set (log_items es) \<longrightarrow> (\<exists>k pre post. new = pre @ log_line (le_stamp (we_logs (envs k) 0)) lev s @ post))"
proof (induction es arbitrary: envs w)
  case (Cons e es)
  obtain n1 where n1: "lg_cout (wd_log (act (envs 0) e w)) = lg_cout (wd_log w) @ n1"
    and own: "\<forall>lev s. e = Log lev s \<longrightarrow> n1 = log_line (le_stamp (we_logs (envs 0) 0)) lev s"
    using act_cout by blast
  obtain n2 where n2: "lg_cout (wd_log (act_all (\<lambda>k. envs (Suc k)) es (act (envs 0) e w))) = lg_cout (wd_log (act (envs 0) e w)) @ n2"
    and rest: "\<And>lev s. (lev, s) \<in> set (log_items es) \<Longrightarrow> \<exists>k pre post. n2 = pre @ log_line (le_stamp (we_logs (envs (Suc k)) 0)) lev s @ post"
    using Cons.IH [of "\<lambda>k. envs (Suc k)" "act (envs 0) e w"] by blast
  have "\<exists>k pre post. n1 @ n2 = pre @ log_line (le_stamp (we_logs (envs k) 0)) lev s @ post" if "(lev, s) \<in> set (log_items (e # es))" for lev s
  proof (cases "e = Log lev s")
    case True
    then have "n1 @ n2 = [] @ log_line (le_stamp (we_logs (envs 0) 0)) lev s @ n2" using own by simp
    then show ?thesis by (intro exI)
  next
    case False
    then have "(lev, s) \<in> set (log_items es)" using that by (cases e) auto
    then obtain k pre post where "n2 = pre @ log_line (le_stamp (we_logs (envs (Suc k)) 0)) lev s @ post" using rest by blast
    then have "n1 @ n2 = (n1 @ pre) @ log_line (le_stamp (we_logs (envs (Suc k)) 0)) lev s @ post" by simp
    then show ?thesis by (intro exI)
  qed
  then show ?case using n1 n2 by (intro exI [of _ "n1 @ n2"]) simp
qed simp

text \<open>
  Every record of a list of effects that is performed is written to the standard output, behind
  what was there.
\<close>

lemma records_written:
  "\<exists>new. lg_cout (wd_log (acts envs es w)) = lg_cout (wd_log w) @ new
     \<and> (\<forall>lev s. (lev, s) \<in> set (log_items (performed envs es))
          \<longrightarrow> (\<exists>k pre post. new = pre @ log_line (le_stamp (we_logs (envs k) 0)) lev s @ post))"
  unfolding acts_def by (rule act_all_records)

lemma started_world_logs:
  "\<exists>new. lg_cout (wd_log (start_world opens envs env port w)) = lg_cout (wd_log w) @ new"
  using records_written [of envs "snd (daemon_start env port)" "start_logging opens w"]
  by (auto simp: start_world_def start_logging_def startLogging_def log_open_def)

section \<open>The sender among the effects\<close>

text \<open>
  A world whose sender keeps its invariant, or is not built yet and finds no file with a name
  of its own.
\<close>

definition world_ok :: "nat \<Rightarrow> world \<Rightarrow> bool" where
  "world_ok pid w \<longleftrightarrow>
     (if wd_built w then sender_inv pid (wd_sms w)
      else \<forall>k. ss_outgoing (wd_sms w) (sms_filename pid k) = None)"

definition sent_count :: "world \<Rightarrow> nat" where
  "sent_count w = (if wd_built w then unat (ss_counter (wd_sms w)) else 0)"

lemma sms_sender_new_fields:
  "ss_counter (fst (sms_sender_new can_remove dir tmp outgoing)) = 0"
  "ss_old_files (fst (sms_sender_new can_remove dir tmp outgoing)) = []"
  "outgoing f = None \<Longrightarrow> ss_outgoing (fst (sms_sender_new can_remove dir tmp outgoing)) f = None"
  by (simp_all add: sms_sender_new_def cleanOutgoingDir_def Let_def clean_entries split: option.split)

lemma sms_instance_ok:
  assumes "world_ok pid w"
  shows "wd_built (fst (sms_instance env w))" "sender_inv pid (wd_sms (fst (sms_instance env w)))"
    "unat (ss_counter (wd_sms (fst (sms_instance env w)))) = sent_count w"
proof -
  let ?n = "sms_sender_new (we_can_remove env) (we_dir env) (ss_tmp (wd_sms w)) (ss_outgoing (wd_sms w))"
  have "sender_inv pid (fst ?n)" if "\<not> wd_built w"
    using that assms by (simp add: sender_inv_def world_ok_def sms_sender_new_fields map_inv_def)
  then show "wd_built (fst (sms_instance env w))" "sender_inv pid (wd_sms (fst (sms_instance env w)))"
    "unat (ss_counter (wd_sms (fst (sms_instance env w)))) = sent_count w"
    using assms by (auto simp: sms_instance_def world_ok_def sent_count_def sms_sender_new_fields(1) split_beta)
qed

lemma act_Sms:
  "wd_built (act env (Sms to content) w) = wd_built (fst (sms_instance env w))"
  "wd_sms (act env (Sms to content) w) = fst (fst (sendSMS (we_send env) to content (wd_sms (fst (sms_instance env w)))))"
  by (simp_all split: prod.split)

lemma act_Cleanup:
  "wd_built (act env Cleanup_Sms w) = wd_built (fst (sms_instance env w))"
  "wd_sms (act env Cleanup_Sms w) = fst (cleanupSMS (we_can_remove env) (we_now env) (wd_sms (fst (sms_instance env w))))"
  by (simp_all split: prod.split)

lemma act_other:
  "(\<forall>to content. e \<noteq> Sms to content) \<Longrightarrow> e \<noteq> Cleanup_Sms
    \<Longrightarrow> wd_built (act env e w) = wd_built w \<and> wd_sms (act env e w) = wd_sms w"
  by (cases e) simp_all

lemma sms_of_Cons: "sms_of (e # es) = sms_of [e] @ sms_of es"
  by (cases e) simp_all

lemma act_ok:
  assumes "world_ok pid w" and "se_pid (we_send env) = pid" and "sent_count w + length (sms_of [e]) < 2 ^ 64"
  shows "world_ok pid (act env e w) \<and> sent_count (act env e w) \<le> sent_count w + length (sms_of [e])"
proof -
  let ?w1 = "fst (sms_instance env w)"
  note i = sms_instance_ok [OF assms(1), of env]
  consider (sms) to content where "e = Sms to content" | (clean) "e = Cleanup_Sms"
    | (other) "\<forall>to content. e \<noteq> Sms to content" "e \<noteq> Cleanup_Sms" by blast
  then show ?thesis
  proof cases
    case sms
    have ne: "ss_counter (wd_sms ?w1) \<noteq> -1" using i(3) assms(3) sms by (intro max_counter) simp
    have "sender_inv pid (wd_sms (act env e w))"
      unfolding sms act_Sms using sendSMS_inv [of "we_send env", OF _ ne] i(2) assms(2) by simp
    moreover have "unat (ss_counter (wd_sms (act env e w))) \<le> Suc (sent_count w)"
      unfolding sms act_Sms using sendSMS_counter(1) [of "we_send env" to content "wd_sms ?w1"] unat_Suc [OF ne] i(3) by auto
    ultimately show ?thesis using i(1) unfolding sms world_ok_def sent_count_def act_Sms(1) by simp
  next
    case clean
    have "ss_counter (wd_sms (act env e w)) = ss_counter (wd_sms ?w1)"
      unfolding clean act_Cleanup by (simp add: cleanupSMS_def Let_def)
    moreover have "sender_inv pid (wd_sms (act env e w))"
      unfolding clean act_Cleanup by (rule cleanupSMS_inv [OF i(2)])
    ultimately show ?thesis using i unfolding clean world_ok_def sent_count_def act_Cleanup(1) by simp
  next
    case other
    then show ?thesis using act_other [OF other, of env w] assms(1) by (simp add: world_ok_def sent_count_def)
  qed
qed

text \<open>
  A file that holds the given text and whose time of sending, if it is tracked, is not fifteen
  minutes back at any of the clean-ups.
\<close>

definition young :: "(nat \<Rightarrow> world_env) \<Rightarrow> int \<Rightarrow> bool" where
  "young envs sent \<longleftrightarrow> (\<forall>k. we_now (envs k) - sent < 15 * 60 * 1000000000)"

definition holds :: "(nat \<Rightarrow> world_env) \<Rightarrow> string \<Rightarrow> string \<Rightarrow> world \<Rightarrow> bool" where
  "holds envs f txt w \<longleftrightarrow> wd_built w \<and> ss_outgoing (wd_sms w) f = Some txt
     \<and> (\<forall>sent. (f, sent) \<in> set (ss_old_files (wd_sms w)) \<longrightarrow> young envs sent)"

lemma young_Suc: "young envs sent \<Longrightarrow> young (\<lambda>k. envs (Suc k)) sent"
  by (simp add: young_def)

lemma act_holds:
  assumes "world_ok pid w" and "se_pid (we_send (envs 0)) = pid" and "holds envs f txt w"
  shows "holds envs f txt (act (envs 0) e w)"
proof -
  let ?env = "envs 0"
  have w: "wd_built w" "ss_outgoing (wd_sms w) f = Some txt"
      "\<And>sent. (f, sent) \<in> set (ss_old_files (wd_sms w)) \<Longrightarrow> young envs sent"
    using assms(3) by (auto simp: holds_def)
  then have i: "fst (sms_instance ?env w) = w" by (simp add: sms_instance_def)
  consider (sms) to content where "e = Sms to content" | (clean) "e = Cleanup_Sms"
    | (other) "\<forall>to content. e \<noteq> Sms to content" "e \<noteq> Cleanup_Sms" by blast
  then show ?thesis
  proof cases
    case sms
    have "sender_inv pid (wd_sms w)" using assms(1) w(1) by (simp add: world_ok_def)
    then have ne: "f \<noteq> sms_filename pid (ss_counter (wd_sms w))" using sendSMS_fresh w(2) by fastforce
    have old: "(f, sent) \<in> set (ss_old_files (wd_sms w))"
      if "(f, sent) \<in> set (map_assign (sms_filename pid (ss_counter (wd_sms w))) t (ss_old_files (wd_sms w)))" for sent t
      using that ne set_map_assign by fastforce
    show ?thesis
      using ne w old assms(2) unfolding sms holds_def act_Sms i
      by (auto simp: sendSMS_def Let_def split: if_splits)
  next
    case clean
    have "\<not> (15 * 60 * 1000000000 \<le> we_now ?env - sent)" if "(f, sent) \<in> set (ss_old_files (wd_sms w))" for sent
      using w(3) [OF that] by (simp add: young_def not_le)
    then show ?thesis
      using w unfolding clean holds_def act_Cleanup i by (auto simp: cleanupSMS_outgoing cleanupSMS_forgets age_iff)
  next
    case other
    then show ?thesis using act_other [OF other, of ?env w] w by (simp add: holds_def)
  qed
qed

text \<open>The file of a message that is delivered has the number the sender's counter has reached.\<close>

lemma act_Sms_holds:
  assumes "world_ok pid w" and "se_pid (we_send (envs 0)) = pid" and "delivered (we_send (envs 0))"
    and "young envs (se_now (we_send (envs 0)))" and "sent_count w + 1 < 2 ^ 64"
  shows "\<exists>k. unat k = sent_count w \<and> holds envs (sms_filename pid k) (sms_text to content) (act (envs 0) (Sms to content) w)"
    and "sent_count (act (envs 0) (Sms to content) w) = Suc (sent_count w)"
proof -
  let ?w1 = "fst (sms_instance (envs 0) w)"
  let ?f = "sms_filename pid (ss_counter (wd_sms ?w1))"
  note i = sms_instance_ok [OF assms(1), of "envs 0"]
  have fresh: "(?f, sent) \<notin> set (ss_old_files (wd_sms ?w1))" for sent
    using i(2) by (force simp: sender_inv_def)
  have "sent = se_now (we_send (envs 0))"
    if "(?f, sent) \<in> set (map_assign ?f (se_now (we_send (envs 0))) (ss_old_files (wd_sms ?w1)))" for sent
    using that fresh set_map_assign by fastforce
  then have "\<forall>sent. (?f, sent) \<in> set (ss_old_files (wd_sms (act (envs 0) (Sms to content) w))) \<longrightarrow> young envs sent"
    using assms(2-4) unfolding act_Sms by (auto simp: sendSMS_def delivered_def Let_def)
  moreover have "ss_outgoing (wd_sms (act (envs 0) (Sms to content) w)) ?f = Some (sms_text to content)"
    using sendSMS_outgoing(2) [OF assms(3), of to content "wd_sms ?w1"] assms(2) unfolding act_Sms by simp
  ultimately have "holds envs ?f (sms_text to content) (act (envs 0) (Sms to content) w)"
    using i(1) unfolding holds_def act_Sms(1) by simp
  then show "\<exists>k. unat k = sent_count w \<and> holds envs (sms_filename pid k) (sms_text to content) (act (envs 0) (Sms to content) w)"
    using i(3) by blast
  have ne: "ss_counter (wd_sms ?w1) \<noteq> -1" using i(3) assms(5) by (intro max_counter) simp
  have "ss_counter (wd_sms (act (envs 0) (Sms to content) w)) = ss_counter (wd_sms ?w1) + 1"
    unfolding act_Sms by (rule sendSMS_counter(2) [OF assms(3)])
  then show "sent_count (act (envs 0) (Sms to content) w) = Suc (sent_count w)"
    using i(1,3) unat_Suc [OF ne] unfolding sent_count_def act_Sms(1) by simp
qed

lemma act_count:
  assumes "world_ok pid w" and "\<forall>to content. e \<noteq> Sms to content"
  shows "sent_count w \<le> sent_count (act env e w)"
proof (cases "e = Cleanup_Sms")
  case True
  have "ss_counter (wd_sms (act env e w)) = ss_counter (wd_sms (fst (sms_instance env w)))"
    unfolding True act_Cleanup by (simp add: cleanupSMS_def Let_def)
  then show ?thesis using sms_instance_ok [OF assms(1), of env] unfolding True sent_count_def act_Cleanup(1) by simp
next
  case False
  then show ?thesis using act_other [OF assms(2) False, of env w] by (simp add: sent_count_def)
qed

lemma holds_Suc: "holds envs f txt w \<Longrightarrow> holds (\<lambda>k. envs (Suc k)) f txt w"
  by (auto simp: holds_def young_def)

lemma acts_hold:
  assumes "holds envs f txt w" and "world_ok pid w" and "\<forall>k. se_pid (we_send (envs k)) = pid"
    and "sent_count w + length (sms_of es) < 2 ^ 64"
  shows "ss_outgoing (wd_sms (act_all envs es w)) f = Some txt"
  using assms
proof (induction es arbitrary: envs w)
  case Nil
  then show ?case by (simp add: holds_def)
next
  case (Cons e es)
  have ok: "world_ok pid (act (envs 0) e w)" "sent_count (act (envs 0) e w) \<le> sent_count w + length (sms_of [e])"
    using act_ok [OF Cons.prems(2), of "envs 0" e] Cons.prems(3,4) sms_of_Cons [of e es] by simp_all
  have "holds (\<lambda>k. envs (Suc k)) f txt (act (envs 0) e w)"
    using Cons.prems(3) by (intro holds_Suc act_holds [OF Cons.prems(2) _ Cons.prems(1)]) simp
  then show ?case using Cons.IH [OF _ ok(1)] Cons.prems(3,4) ok(2) sms_of_Cons [of e es] by simp
qed

text \<open>Every message gets a file; the files have different numbers, none of them used before.\<close>

definition numbered_from :: "nat \<Rightarrow> nat \<Rightarrow> string list \<Rightarrow> bool" where
  "numbered_from pid n fs \<longleftrightarrow> distinct fs \<and> (\<forall>f\<in>set fs. \<exists>k. f = sms_filename pid k \<and> n \<le> unat k)"

lemma numbered_from_less: "numbered_from pid n fs \<Longrightarrow> m \<le> n \<Longrightarrow> numbered_from pid m fs"
  unfolding numbered_from_def by (meson order_trans)

lemma numbered_from_Cons:
  assumes "numbered_from pid (Suc n) fs" and "unat k = n"
  shows "numbered_from pid n (sms_filename pid k # fs)"
  using assms unfolding numbered_from_def by (fastforce intro: Suc_leD)

lemma acts_deliver:
  assumes "world_ok pid w" and "\<forall>k. se_pid (we_send (envs k)) = pid \<and> delivered (we_send (envs k))"
    and "\<forall>k. young envs (se_now (we_send (envs k)))" and "sent_count w + length (sms_of es) < 2 ^ 64"
  shows "\<exists>fs. numbered_from pid (sent_count w) fs \<and> files_for (ss_outgoing (wd_sms (act_all envs es w))) (sms_of es) fs"
  using assms
proof (induction es arbitrary: envs w)
  case Nil
  show ?case by (intro exI [of _ "[]"]) (simp add: numbered_from_def)
next
  case (Cons e es)
  let ?w = "act (envs 0) e w" and ?es = "\<lambda>k. envs (Suc k)"
  have ok: "world_ok pid ?w" "sent_count ?w \<le> sent_count w + length (sms_of [e])"
    using act_ok [OF Cons.prems(1), of "envs 0" e] Cons.prems(2,4) sms_of_Cons [of e es] by simp_all
  obtain fs where fs: "numbered_from pid (sent_count ?w) fs" "files_for (ss_outgoing (wd_sms (act_all ?es es ?w))) (sms_of es) fs"
    using Cons.IH [OF ok(1), of ?es] Cons.prems(2-4) ok(2) young_Suc sms_of_Cons [of e es] by auto
  show ?case
  proof (cases "\<exists>to content. e = Sms to content")
    case True
    then obtain to content where e: "e = Sms to content" by blast
    have c: "sent_count w + 1 < 2 ^ 64" using Cons.prems(4) e by simp
    note h = act_Sms_holds [OF Cons.prems(1) _ _ _ c, of envs to content]
    obtain k where k: "unat k = sent_count w" "holds envs (sms_filename pid k) (sms_text to content) ?w"
      using h(1) Cons.prems(2,3) e by blast
    have n: "sent_count ?w = Suc (sent_count w)" using h(2) Cons.prems(2,3) e by blast
    have "ss_outgoing (wd_sms (act_all ?es es ?w)) (sms_filename pid k) = Some (sms_text to content)"
      using acts_hold [OF holds_Suc [OF k(2)] ok(1), of es] Cons.prems(2,4) ok(2) sms_of_Cons [of e es] by simp
    then show ?thesis using numbered_from_Cons [OF fs(1) [unfolded n] k(1)] fs(2) e
      by (intro exI [of _ "sms_filename pid k # fs"]) simp
  next
    case False
    have s: "sms_of (e # es) = sms_of es" using False by (cases e) simp_all
    have "sent_count w \<le> sent_count ?w" by (rule act_count [OF Cons.prems(1)]) (use False in blast)
    from numbered_from_less [OF fs(1) this] fs(2) show ?thesis unfolding s act_all.simps by (intro exI conjI)
  qed
qed

section \<open>From message file to message file\<close>

text \<open>The system lets the messages through, and no clean-up comes fifteen minutes after one of them.\<close>

definition world_lets :: "nat \<Rightarrow> (nat \<Rightarrow> world_env) \<Rightarrow> bool" where
  "world_lets pid envs \<longleftrightarrow> (\<forall>k. se_pid (we_send (envs k)) = pid \<and> delivered (we_send (envs k))
     \<and> young envs (se_now (we_send (envs k))))"

definition sample_world :: world where
  "sample_world = start_logging True \<lparr>wd_log = sample_logger, wd_built = False, wd_sms = sample_sender\<rparr>"

definition sample_world_env :: world_env where
  "sample_world_env = \<lparr>we_logs = \<lambda>_. sample_log_env, we_send = sample_send 0, we_can_remove = \<lambda>_. True,
     we_dir = Some [(''.'', False), (''other'', True)], we_now = 5,
     we_reboots = False\<rparr>"

lemma sample_world_ok: "world_ok 812 sample_world" "world_lets 812 (\<lambda>_. sample_world_env)" "sent_count sample_world = 0"
  by (simp_all add: world_ok_def sample_world_def start_logging_def sample_sender_def sms_filename_def world_lets_def sample_world_env_def
      sample_send_def delivered_def young_def sent_count_def)

text \<open>C19: when the system lets the messages through and no clean-up comes fifteen minutes after one
  of them, every text message a pass of the main loop sends, the first of the daemon included,
  is in a file of its own of smstools' outgoing directory when the effects of the pass have
  been performed: a different file for each message, equal texts included, with a number
  the sender has not used before, whatever else the pass logs, sends and cleans up. When the pass reboots
  the machine, that holds of the messages before the reboot.\<close>

theorem messages_become_files:
  assumes "process te bs = Inr (bs', e)" and "world_ok pid w" and "world_lets pid envs"
    and "sent_count w + length (sms_of e) < 2 ^ 64"
  shows "\<exists>fs. numbered_from pid (sent_count w) fs \<and> files_for (ss_outgoing (wd_sms (acts envs e w))) (sms_of (performed envs e)) fs"
proof -
  have "sent_count w + length (sms_of (performed envs e)) < 2 ^ 64"
    using assms(4) performed_sms [of envs e] by linarith
  then show ?thesis using acts_deliver [OF assms(2)] assms(3) by (simp add: world_lets_def acts_def)
qed

lemma messages_become_files_witness:
  "\<exists>bs' e f g. process quiet_tick (station_init None\<lparr>m_commands := [(''33102030405'', ''ping''), (''33102030405'', ''ping'')]\<rparr>) = Inr (bs', e)
    \<and> f \<noteq> g \<and> ss_outgoing (wd_sms (acts (\<lambda>_. sample_world_env) e sample_world)) f = Some (sms_text ''33102030405'' ''PONG'')
    \<and> ss_outgoing (wd_sms (acts (\<lambda>_. sample_world_env) e sample_world)) g = Some (sms_text ''33102030405'' ''PONG'')"
proof -
  let ?m = "(''33102030405'', ''ping'')"
  let ?bs = "station_init None\<lparr>m_commands := [?m, ?m]\<rparr>"
  let ?e = "[Sms ''33102030405'' ''PONG'', Sms ''33102030405'' ''PONG'']"
  have n: "normalise ''ping'' = ''PING''" by code_simp
  have f: "te_poll quiet_tick = 0" "te_expired quiet_tick = (\<lambda>_. False)" "te_cmd quiet_tick = (\<lambda>_. sample_env)"
    by (simp_all add: quiet_tick_def)
  have x: "exec_command sample_env from ''PING'' bs = Inr (bs, [Sms from ''PONG''])" for "from" bs
    by (simp add: exec_command_def)
  have c: "parseCommands (\<lambda>_. sample_env) ?bs = Inr (station_init None, ?e)"
    by (simp add: parseCommands_def n x dropped_def station_init_def Let_def)
  have p: "process quiet_tick ?bs = Inr (station_init None, ?e)"
    by (simp add: process_def f handleConnections_def c checkStaleConnections_def
        checkWifi_def checkLostDevices_def check3G_def checkSMSDaemon_def sendBootMsg_def cleanupSMS_tick_def)
  have perf: "performed (\<lambda>_. sample_world_env) ?e = ?e" by (rule performed_all) simp
  obtain fs where fs: "numbered_from 812 (sent_count sample_world) fs"
      "files_for (ss_outgoing (wd_sms (acts (\<lambda>_. sample_world_env) ?e sample_world))) (sms_of ?e) fs"
    using messages_become_files [OF p sample_world_ok(1,2)] by (auto simp: sample_world_ok(3) perf simp del: performed.simps)
  then obtain f g where "fs = [f, g]" by (auto simp: files_for_def list_all2_Cons1)
  then have "f \<noteq> g" "ss_outgoing (wd_sms (acts (\<lambda>_. sample_world_env) ?e sample_world)) f = Some (sms_text ''33102030405'' ''PONG'')"
      "ss_outgoing (wd_sms (acts (\<lambda>_. sample_world_env) ?e sample_world)) g = Some (sms_text ''33102030405'' ''PONG'')"
    using fs by (simp_all add: numbered_from_def)
  then show ?thesis using p by (intro exI conjI)
qed

lemma command_answered:
  assumes "config_inv bs" and "\<not> m_locked bs" and "m_commands bs = []" and "stands_for (normalise text) op"
  shows "\<exists>bs' e. parseCommands env (handleSMSCommand phone text bs) = Inr (bs', e)
    \<and> requested_state bs' = spec_step op (requested_state bs) \<and> sms_of e = [(phone, normalise text)] \<and> Reboot \<notin> set e"
proof -
  let ?bs = "handleSMSCommand phone text bs"
  have q: "queue_for (m_commands ?bs) [op]" "config_inv ?bs" "\<not> m_locked ?bs" "requested_state ?bs = requested_state bs"
    using assms by (simp_all add: queue_for_def handleSMSCommand_def)
  obtain bs' e where "parse_queue env (m_commands ?bs) ?bs = Inr (bs', e)"
    "requested_state bs' = fold spec_step [op] (requested_state ?bs)"
    "sms_of e = map (\<lambda>m. (fst m, normalise (snd m))) (m_commands ?bs)" "Reboot \<notin> set e"
    using parse_queue_refines [OF q(1-3), of env] by (elim exE conjE)
  then show ?thesis using assms(3) q(4) by (auto simp: parseCommands_def handleSMSCommand_def)
qed

text \<open>C10: a heater command in the file that a read of the incoming directory names first is carried
  out and its answer is in a file of the outgoing directory: the receiver's thread hands sender
  and text to the station, the unlocked station performs the operation on the states of the heaters, and the sender
  writes the normalised text back to the phone it came from, when the modem is there and the
  files can be written.\<close>

theorem text_message_answered:
  assumes "station_reach bs" and "\<not> m_locked bs" and "m_commands bs = []"
    and "arrives (files, ev) (phone, text)" and "stands_for (normalise text) op"
    and "world_ok pid w" and "world_lets pid envs" and "sent_count w + 1 < 2 ^ 64"
  shows "\<exists>msg bs' e. fst (receive_step files ev) = Inr (Some msg)
    \<and> parseCommands env (handleSMSCommand (fst msg) (snd msg) bs) = Inr (bs', e)
    \<and> requested_state bs' = spec_step op (requested_state bs)
    \<and> (\<exists>f. ss_outgoing (wd_sms (acts envs e w)) f = Some (sms_text phone (normalise text)))"
proof -
  have "config_inv bs" using reach_inv [OF assms(1)] by (simp add: station_inv_def)
  then obtain bs' e where p: "parseCommands env (handleSMSCommand phone text bs) = Inr (bs', e)"
      "requested_state bs' = spec_step op (requested_state bs)" "sms_of e = [(phone, normalise text)]" "Reboot \<notin> set e"
    using command_answered [OF _ assms(2,3,5), of env phone] by blast
  have "\<exists>fs. numbered_from pid (sent_count w) fs \<and> files_for (ss_outgoing (wd_sms (act_all envs e w))) (sms_of e) fs"
    by (rule acts_deliver [OF assms(6)]) (use assms(7,8) p(3) in \<open>simp_all add: world_lets_def\<close>)
  then have "\<exists>f. ss_outgoing (wd_sms (acts envs e w)) f = Some (sms_text phone (normalise text))"
    unfolding p(3) acts_def performed_all [OF p(4)] by (auto simp: files_for_def list_all2_Cons1)
  then show ?thesis using receive_step_arrives [OF assms(4)] p(1,2)
    by (intro exI [of _ "(phone, text)"] exI [of _ bs'] exI [of _ e]) simp
qed

lemma text_message_answered_witness:
  "\<exists>bs bs' e f. station_reach bs
    \<and> parseCommands (\<lambda>_. sample_env) (handleSMSCommand ''33102030405'' ''all eco'' bs) = Inr (bs', e)
    \<and> ss_outgoing (wd_sms (acts (\<lambda>_. sample_world_env) e sample_world)) f = Some (sms_text ''33102030405'' ''ALL ECO'')"
proof -
  obtain bs where r: "station_reach bs" and b: "\<not> m_locked bs" "m_commands bs = []"
    using station_reach_sample by blast
  let ?f = "[SMSTOOL_INCOMING_DIR @ ''m1'' \<mapsto> sms_file ''33102030405'' [''Sent: 24-01-01''] [''all eco'']]"
  have a: "arrives (?f, Watch_Events [''m1'']) (''33102030405'', ''all eco'')"
    by (rule arrives_one, rule message_fileI) (simp_all add: starts_with_def)
  have n: "normalise ''all eco'' = ''ALL ECO''" by code_simp
  have s: "stands_for (normalise ''all eco'') (Set_All HEATER_ECO)" by (simp add: n)
  have c: "sent_count sample_world + 1 < 2 ^ 64" by (simp add: sample_world_ok(3))
  have m: "fst (receive_step ?f (Watch_Events [''m1''])) = Inr (Some (''33102030405'', ''all eco''))"
    by (rule receive_step_arrives [OF a])
  from text_message_answered [OF r b a s sample_world_ok(1,2) c, of "\<lambda>_. sample_env"] r m
  show ?thesis by (fastforce simp: n)
qed

end
