(* ===== verification/FW_Settings.thy ===== *)
theory FW_Settings
  imports Protocol Helpers
begin

text \<open>
  \<open>settings.cpp\<close> of the heater firmware: the settings of a heater controller, as the packed
  struct of 200 bytes it is in memory and in the EEPROM. The EEPROM library and the
  \<open>toCharArray\<close> of the Arduino \<open>String\<close> are not part of the repository: they are arguments of
  the definitions, and \<open>eeprom_ok\<close> and \<open>copies_strings\<close> state what the code relies on.
\<close>

section \<open>The EEPROM library\<close>

text \<open>
  The operations on the cached content: \<open>begin\<close> loads it from the flash, \<open>commit\<close> writes it
  back; \<open>ee_restart\<close> is what is left of the library's state after a restart of the chip or a
  power cut. Written bytes are read back, and after a restart \<open>begin\<close> gives what was last
  committed or loaded.
\<close>

record 'e eeprom =
  ee_begin :: "nat \<Rightarrow> 'e \<Rightarrow> 'e"
  ee_read :: "nat \<Rightarrow> 'e \<Rightarrow> byte"
  ee_write :: "nat \<Rightarrow> byte \<Rightarrow> 'e \<Rightarrow> 'e"
  ee_commit :: "'e \<Rightarrow> 'e"
  ee_restart :: "'e \<Rightarrow> 'e"

definition eeprom_ok :: "nat \<Rightarrow> 'e eeprom \<Rightarrow> bool" where
  "eeprom_ok len ee \<longleftrightarrow>
     (\<forall>i j b e. i < len \<longrightarrow> j < len \<longrightarrow> ee_read ee j (ee_write ee i b e) = (if j = i then b else ee_read ee j e))
   \<and> (\<forall>j e. j < len \<longrightarrow> ee_read ee j (ee_commit ee e) = ee_read ee j e)
   \<and> (\<forall>j e. j < len \<longrightarrow> ee_read ee j (ee_begin ee len (ee_restart ee (ee_commit ee e))) = ee_read ee j e)
   \<and> (\<forall>j e. j < len \<longrightarrow> ee_read ee j (ee_begin ee len (ee_restart ee (ee_begin ee len e))) = ee_read ee j (ee_begin ee len e))"

definition copies_strings :: "(string \<Rightarrow> nat \<Rightarrow> byte list) \<Rightarrow> bool" where
  "copies_strings tca \<longleftrightarrow>
     (\<forall>s n. length s < n \<longrightarrow> CHR 0x00 \<notin> set s \<longrightarrow> tca s n = map (\<lambda>c. of_nat (of_char c)) s @ [0])"

section \<open>The struct\<close>

record settings_t =
  st_magic0 :: u32
  st_name :: "byte list"
  st_ssid :: "byte list"
  st_password :: "byte list"
  st_basestation :: "byte list"
  st_magic1 :: u32

definition EEPROM_LEN :: nat where "EEPROM_LEN = 512"
definition MAGIC0 :: u32 where "MAGIC0 = 0xf1772e9a"
definition MAGIC1 :: u32 where "MAGIC1 = 0x86b81fcb"
definition SETTINGS_SIZE :: nat where "SETTINGS_SIZE = 200"

definition u32_bytes :: "u32 \<Rightarrow> byte list" where
  "u32_bytes w = [ucast w, ucast (drop_bit 8 w), ucast (drop_bit 16 w), ucast (drop_bit 24 w)]"

definition bytes_u32 :: "byte list \<Rightarrow> u32" where
  "bytes_u32 bs = ucast (bs ! 0) OR push_bit 8 (ucast (bs ! 1)) OR push_bit 16 (ucast (bs ! 2))
     OR push_bit 24 (ucast (bs ! 3))"

definition settings_bytes :: "settings_t \<Rightarrow> byte list" where
  "settings_bytes s = u32_bytes (st_magic0 s) @ st_name s @ st_ssid s @ st_password s @ st_basestation s
     @ u32_bytes (st_magic1 s)"

definition bytes_settings :: "byte list \<Rightarrow> settings_t" where
  "bytes_settings bs =
     \<lparr>st_magic0 = bytes_u32 bs, st_name = take 32 (drop 4 bs), st_ssid = take 64 (drop 36 bs),
      st_password = take 64 (drop 100 bs), st_basestation = take 32 (drop 164 bs),
      st_magic1 = bytes_u32 (drop 196 bs)\<rparr>"

definition settings_ok :: "settings_t \<Rightarrow> bool" where
  "settings_ok s \<longleftrightarrow> length (st_name s) = 32 \<and> length (st_ssid s) = 64 \<and> length (st_password s) = 64
     \<and> length (st_basestation s) = 32"

text \<open>\<open>memset(&settings, 0, sizeof(settings))\<close>\<close>

definition settings_zero :: settings_t where
  "settings_zero = \<lparr>st_magic0 = 0, st_name = replicate 32 0, st_ssid = replicate 64 0,
     st_password = replicate 64 0, st_basestation = replicate 32 0, st_magic1 = 0\<rparr>"

definition is_valid :: "settings_t \<Rightarrow> bool" where
  "is_valid s \<longleftrightarrow> st_magic0 s = MAGIC0 \<and> st_magic1 s = MAGIC1"

section \<open>The operations\<close>

text \<open>The result, the settings and the library's state.\<close>

definition settings_load :: "'e eeprom \<Rightarrow> 'e \<Rightarrow> bool \<times> settings_t \<times> 'e" where
  "settings_load ee e =
     (let e1 = ee_begin ee EEPROM_LEN e;
          s = bytes_settings (map (\<lambda>addr. ee_read ee addr e1) [0..<SETTINGS_SIZE])
      in if is_valid s then (True, s, e1) else (False, settings_zero, e1))"

definition eeprom_erase :: "'e eeprom \<Rightarrow> 'e \<Rightarrow> 'e" where
  "eeprom_erase ee e = ee_commit ee (fold (\<lambda>i. ee_write ee i 0xFF) [0..<EEPROM_LEN] e)"

definition settings_erase :: "'e eeprom \<Rightarrow> 'e \<Rightarrow> settings_t \<times> 'e" where
  "settings_erase ee e = (settings_zero, eeprom_erase ee e)"

text \<open>A copied string in a field that was zero.\<close>

definition fill :: "byte list \<Rightarrow> byte list \<Rightarrow> byte list" where
  "fill copied field = copied @ drop (length copied) field"

definition settings_create :: "'e eeprom \<Rightarrow> (string \<Rightarrow> nat \<Rightarrow> byte list) \<Rightarrow> string \<Rightarrow> string \<Rightarrow> string \<Rightarrow> string \<Rightarrow> 'e \<Rightarrow> settings_t \<times> 'e" where
  "settings_create ee tca name ssid password basestation e =
     (let e1 = eeprom_erase ee e;
          s = settings_zero\<lparr>st_magic0 := MAGIC0, st_magic1 := MAGIC1,
                st_name := fill (tca name 32) (st_name settings_zero),
                st_ssid := fill (tca ssid 64) (st_ssid settings_zero),
                st_password := fill (tca password 64) (st_password settings_zero),
                st_basestation := fill (tca basestation 32) (st_basestation settings_zero)\<rparr>;
          e2 = fold (\<lambda>addr. ee_write ee addr (settings_bytes s ! addr)) [0..<SETTINGS_SIZE] e1
      in (s, ee_commit ee e2))"

definition settings_get_name :: "settings_t \<Rightarrow> byte list" where
  "settings_get_name s = (if is_valid s then st_name s else replicate 32 0)"

definition settings_get_ssid :: "settings_t \<Rightarrow> byte list" where
  "settings_get_ssid s = (if is_valid s then st_ssid s else replicate 64 0)"

definition settings_get_password :: "settings_t \<Rightarrow> byte list" where
  "settings_get_password s = (if is_valid s then st_password s else replicate 64 0)"

definition settings_get_basestation :: "settings_t \<Rightarrow> byte list" where
  "settings_get_basestation s = (if is_valid s then st_basestation s else replicate 32 0)"

text \<open>The bytes before the first 0; all of them when there is none.\<close>

definition c_bytes :: "byte list \<Rightarrow> byte list" where
  "c_bytes bs = takeWhile (\<lambda>b. b \<noteq> 0) bs"

definition byte_alnum :: "byte \<Rightarrow> bool" where
  "byte_alnum b \<longleftrightarrow> is_alnum (char_of (unat b))"

text \<open>
  What \<open>strlen\<close> of a field sees: the struct is packed, so that an unterminated field runs on into
  the next. What comes behind the struct makes no difference: valid settings end in bytes that
  are neither 0 nor letters or digits, and others fail the check anyway.
\<close>

definition from_basestation :: "settings_t \<Rightarrow> byte list" where
  "from_basestation s = st_basestation s @ u32_bytes (st_magic1 s)"

definition from_ssid :: "settings_t \<Rightarrow> byte list" where
  "from_ssid s = st_ssid s @ st_password s @ from_basestation s"

definition from_name :: "settings_t \<Rightarrow> byte list" where
  "from_name s = st_name s @ from_ssid s"

definition settings_check :: "settings_t \<Rightarrow> bool" where
  "settings_check s =
     (if c_bytes (from_name s) = [] \<or> c_bytes (from_ssid s) = [] \<or> c_bytes (from_basestation s) = [] then False
      else if \<not> list_all byte_alnum (c_bytes (from_name s)) then False
      else is_valid s)"

lemma c_bytes_on:
  assumes "length (c_bytes bs) < length bs"
  shows "c_bytes (bs @ rest) = c_bytes bs"
proof -
  have "\<not> (\<forall>b\<in>set bs. b \<noteq> 0)"
  proof
    assume "\<forall>b\<in>set bs. b \<noteq> 0"
    then have "c_bytes bs = bs" unfolding c_bytes_def by (simp only: takeWhile_eq_all_conv)
    then show False using assms by simp
  qed
  then obtain b where "b \<in> set bs" "\<not> b \<noteq> 0" by blast
  then show ?thesis unfolding c_bytes_def by (rule takeWhile_append1)
qed

text \<open>The check of settings whose fields are terminated.\<close>

lemma settings_check_fields:
  assumes "length (c_bytes (st_name s)) < length (st_name s)" and "length (c_bytes (st_ssid s)) < length (st_ssid s)"
    and "length (c_bytes (st_basestation s)) < length (st_basestation s)"
  shows "settings_check s \<longleftrightarrow> c_bytes (st_name s) \<noteq> [] \<and> c_bytes (st_ssid s) \<noteq> [] \<and> c_bytes (st_basestation s) \<noteq> []
    \<and> list_all byte_alnum (c_bytes (st_name s)) \<and> is_valid s"
  using assms by (simp add: settings_check_def from_name_def from_ssid_def from_basestation_def c_bytes_on)

section \<open>The struct is a codec\<close>

lemma bytes_u32_bytes: "bytes_u32 (u32_bytes w @ rest) = w"
proof (rule bit_eqI)
  fix n assume "possible_bit TYPE(u32) n"
  then have n: "n < 32" by simp
  have b: "bit (push_bit k (ucast (ucast (drop_bit k w) :: byte)) :: u32) n \<longleftrightarrow> k \<le> n \<and> n < k + 8 \<and> bit w n" for k
    using n by (auto simp: bit_simps)
  have b0: "bit (ucast (ucast w :: byte) :: u32) n \<longleftrightarrow> n < 8 \<and> bit w n" using n by (auto simp: bit_simps)
  have "n < 8 \<or> 8 \<le> n \<and> n < 16 \<or> 16 \<le> n \<and> n < 24 \<or> 24 \<le> n \<and> n < 32" using n by linarith
  then show "bit (bytes_u32 (u32_bytes w @ rest)) n = bit w n"
    by (auto simp: bytes_u32_def u32_bytes_def bit_or_iff b b0)
qed

interpretation magic_codec: prefix_codec u32_bytes bytes_u32 "\<lambda>_. True" 4
  by unfold_locales (simp_all add: bytes_u32_bytes, simp add: u32_bytes_def)

interpretation settings_codec: prefix_codec settings_bytes bytes_settings settings_ok SETTINGS_SIZE
proof unfold_locales
  fix s :: settings_t and rest
  assume ok: "settings_ok s"
  have l: "length (u32_bytes w) = 4" for w by (simp add: u32_bytes_def)
  show "length (settings_bytes s) = SETTINGS_SIZE"
    using ok by (simp add: settings_bytes_def settings_ok_def SETTINGS_SIZE_def l)
  have d: "drop 4 (settings_bytes s @ rest) = st_name s @ st_ssid s @ st_password s @ st_basestation s @ u32_bytes (st_magic1 s) @ rest"
    by (simp add: settings_bytes_def l)
  have "drop 36 (settings_bytes s @ rest) = drop 32 (drop 4 (settings_bytes s @ rest))"
    "drop 100 (settings_bytes s @ rest) = drop 96 (drop 4 (settings_bytes s @ rest))"
    "drop 164 (settings_bytes s @ rest) = drop 160 (drop 4 (settings_bytes s @ rest))"
    "drop 196 (settings_bytes s @ rest) = drop 192 (drop 4 (settings_bytes s @ rest))" by (simp_all del: drop_append)
  then have "take 32 (drop 4 (settings_bytes s @ rest)) = st_name s"
    "take 64 (drop 36 (settings_bytes s @ rest)) = st_ssid s"
    "take 64 (drop 100 (settings_bytes s @ rest)) = st_password s"
    "take 32 (drop 164 (settings_bytes s @ rest)) = st_basestation s"
    "bytes_u32 (drop 196 (settings_bytes s @ rest)) = st_magic1 s"
    using ok bytes_u32_bytes [of "st_magic1 s" rest] unfolding d settings_ok_def by simp_all
  moreover have "bytes_u32 (settings_bytes s @ rest) = st_magic0 s"
    using bytes_u32_bytes [of "st_magic0 s"] by (simp add: settings_bytes_def)
  ultimately show "bytes_settings (settings_bytes s @ rest) = s" by (simp add: bytes_settings_def)
qed

section \<open>What was written is loaded\<close>

lemma fold_writes:
  assumes "eeprom_ok len ee" and "n \<le> len" and "j < len"
  shows "ee_read ee j (fold (\<lambda>i. ee_write ee i (f i)) [0..<n] e) = (if j < n then f j else ee_read ee j e)"
  using assms(2)
proof (induction n)
  case (Suc n)
  then show ?case using assms(1,3) by (auto simp: eeprom_ok_def less_Suc_eq)
qed simp

lemma settings_create_ok:
  assumes "copies_strings tca" and "length name < 32" "length ssid < 64" "length password < 64" "length basestation < 32"
    and "\<forall>s\<in>{name, ssid, password, basestation}. CHR 0x00 \<notin> set s"
  shows "settings_ok (fst (settings_create ee tca name ssid password basestation e))"
    and "is_valid (fst (settings_create ee tca name ssid password basestation e))"
  using assms by (simp_all add: settings_create_def Let_def settings_ok_def settings_zero_def fill_def copies_strings_def is_valid_def)

lemma load_created:
  assumes "eeprom_ok EEPROM_LEN ee" and "settings_create ee tca name ssid password basestation e = (s, e')"
    and "settings_ok s" and "is_valid s"
  shows "\<exists>e''. settings_load ee (ee_restart ee e') = (True, s, e'')"
proof -
  let ?w = "fold (\<lambda>addr. ee_write ee addr (settings_bytes s ! addr)) [0..<SETTINGS_SIZE] (eeprom_erase ee e)"
  have e': "e' = ee_commit ee ?w" using assms(2) by (auto simp: settings_create_def Let_def)
  have sz: "SETTINGS_SIZE \<le> EEPROM_LEN" by (simp add: SETTINGS_SIZE_def EEPROM_LEN_def)
  have "ee_read ee j (ee_begin ee EEPROM_LEN (ee_restart ee e')) = settings_bytes s ! j" if "j < SETTINGS_SIZE" for j
  proof -
    have j: "j < EEPROM_LEN" using that sz by simp
    then have "ee_read ee j (ee_begin ee EEPROM_LEN (ee_restart ee e')) = ee_read ee j ?w"
      unfolding e' using assms(1) by (simp add: eeprom_ok_def)
    then show ?thesis using fold_writes [OF assms(1) sz j] that by simp
  qed
  then have "map (\<lambda>addr. ee_read ee addr (ee_begin ee EEPROM_LEN (ee_restart ee e'))) [0..<SETTINGS_SIZE]
      = map (\<lambda>j. settings_bytes s ! j) [0..<SETTINGS_SIZE]" by simp
  also have "\<dots> = settings_bytes s"
    using settings_codec.length_enc [OF assms(3)] by (metis map_nth)
  finally show ?thesis
    using settings_codec.dec_enc_exact [OF assms(3)] assms(4) by (simp add: settings_load_def Let_def)
qed

lemma c_bytes_append: "0 \<notin> set bs \<Longrightarrow> c_bytes (bs @ 0 # rest) = bs"
  unfolding c_bytes_def by (induction bs) auto

lemma unat_char_byte: "unat (of_nat (of_char c) :: byte) = of_char c"
proof -
  have "(of_char c :: nat) < 256" by (rule nat_of_char_less_256)
  then show ?thesis by (simp add: unat_of_nat take_bit_nat_eq_self)
qed

lemma char_of_char_byte [simp]: "char_of (unat (of_nat (of_char c) :: byte)) = c"
  by (simp add: unat_char_byte)

lemma char_byte_nonzero: "(of_nat (of_char c) :: byte) = 0 \<longleftrightarrow> c = CHR 0x00"
proof -
  have "(of_nat (of_char c) :: byte) = 0 \<longleftrightarrow> (of_char c :: nat) = 0"
    by (metis unat_char_byte unsigned_0 word_unat_eq_iff)
  also have "\<dots> \<longleftrightarrow> c = CHR 0x00"
    using of_char_eq_iff [of c "CHR 0x00", where ?'a = nat] by simp
  finally show ?thesis .
qed

text \<open>A field filled with a string holds its characters.\<close>

lemma c_bytes_fill:
  assumes "copies_strings tca" and "length s < n" and "CHR 0x00 \<notin> set s"
  shows "c_bytes (fill (tca s n) (replicate n 0)) = map (\<lambda>c. of_nat (of_char c)) s"
proof -
  have "0 \<notin> set (map (\<lambda>c. of_nat (of_char c) :: byte) s)" using assms(3) by (auto simp: char_byte_nonzero eq_commute [of 0])
  then show ?thesis using assms c_bytes_append by (auto simp: copies_strings_def fill_def)
qed

end
