(* ===== verification/FW_Uncommissioned.thy ===== *)
theory FW_Uncommissioned
  imports FW_Settings
begin

text \<open>
  \<open>uncommissioned.cpp\<close> of the heater firmware: the device without settings runs an access
  point with a registration form; a registration joins the given network, and when that
  works the settings are written and the chip restarts. Also the reset button, which both
  modes handle alike. The clock (\<open>millis\<close>, 32 bits on this chip), the pins and the state of
  the wireless network are inputs.
\<close>

text \<open>\<open>board.h\<close>: the pins; a pin's mode is known once it was set.\<close>

datatype pin_mode = INPUT | INPUT_PULLUP | OUTPUT

definition BUTTON_PIN :: nat where "BUTTON_PIN = 5"
definition LED1_PIN :: nat where "LED1_PIN = 0"
definition POSITIVE_OUTPUT_PIN :: nat where "POSITIVE_OUTPUT_PIN = 12"
definition NEGATIVE_OUTPUT_PIN :: nat where "NEGATIVE_OUTPUT_PIN = 13"

lemmas pin_defs = BUTTON_PIN_def LED1_PIN_def POSITIVE_OUTPUT_PIN_def NEGATIVE_OUTPUT_PIN_def

definition BUTTON_PRESS_TIMEOUT :: u32 where "BUTTON_PRESS_TIMEOUT = 10000"

section \<open>The reset button\<close>

record button =
  b_pressed :: bool
  b_start :: u32

definition button_new :: button where "button_new = \<lparr>b_pressed = False, b_start = 0\<rparr>"

text \<open>One look at the button; the second result is whether it was held long enough.\<close>

definition button_step :: "bool \<Rightarrow> u32 \<Rightarrow> button \<Rightarrow> button \<times> bool" where
  "button_step low now b =
     (if low then
        if \<not> b_pressed b then (b\<lparr>b_pressed := True, b_start := now\<rparr>, False)
        else (b, now - b_start b \<ge> BUTTON_PRESS_TIMEOUT)
      else (b\<lparr>b_pressed := False\<rparr>, False))"

fun button_run :: "(bool \<times> u32) list \<Rightarrow> button \<Rightarrow> button \<times> bool" where
  "button_run [] b = (b, False)"
| "button_run ((low, now) # obs) b =
     (case button_step low now b of (b1, fired) \<Rightarrow>
        if fired then (b1, True) else button_run obs b1)"

section \<open>Registration\<close>

record uncommissioned =
  u_pin_mode :: "nat \<rightharpoonup> pin_mode"
  u_button :: button
  u_joining :: bool
  u_device_name :: string
  u_wifi_ssid :: string
  u_wifi_password :: string
  u_basestation_addr :: string
  u_join_start :: u32
  u_led :: bool
  u_blink :: u32

text \<open>\<open>setup_uncommissioned\<close>: the pins it sets; the names of its network are made of the address.\<close>

definition setup_uncommissioned :: uncommissioned where
  "setup_uncommissioned =
     \<lparr>u_pin_mode = [LED1_PIN \<mapsto> OUTPUT, BUTTON_PIN \<mapsto> INPUT_PULLUP, POSITIVE_OUTPUT_PIN \<mapsto> INPUT, NEGATIVE_OUTPUT_PIN \<mapsto> INPUT],
     u_button = button_new, u_joining = False, u_device_name = [], u_wifi_ssid = [],
     u_wifi_password = [], u_basestation_addr = [], u_join_start = 0, u_led = True, u_blink = 0\<rparr>"

definition ap_password :: "byte list \<Rightarrow> string" where
  "ap_password mac = concat (map hex2 (take 6 mac))"

definition ap_ssid :: "byte list \<Rightarrow> string" where
  "ap_ssid mac = ''heater-'' @ ap_password mac"

definition check_params :: "string \<Rightarrow> string \<Rightarrow> string \<Rightarrow> string \<Rightarrow> bool" where
  "check_params device_name wifi_ssid wifi_password basestation_addr =
     (if length device_name \<ge> 31 \<or> length wifi_ssid \<ge> 63 \<or> length wifi_password \<ge> 63 \<or> length basestation_addr \<ge> 31
      then False
      else if length device_name = 0 \<or> length wifi_ssid = 0 \<or> length basestation_addr = 0 then False
      else list_all is_alnum device_name)"

text \<open>
  The handler of \<open>/register\<close>, given the parameters of the form that are there. The second
  result is whether the page buffer is sent back. A form without the base station's address
  is dereferenced as a null pointer.
\<close>

definition register_handler :: "string option \<Rightarrow> string option \<Rightarrow> string option \<Rightarrow> string option \<Rightarrow> u32
    \<Rightarrow> uncommissioned \<Rightarrow> exn + uncommissioned \<times> bool" where
  "register_handler name ssid password basestation now u =
     (case (name, ssid, password) of
        (Some n, Some s, Some p) \<Rightarrow>
          if \<not> u_joining u then
            (case basestation of
               None \<Rightarrow> Inl Bad_Access
             | Some b \<Rightarrow>
                 let u1 = u\<lparr>u_device_name := n, u_wifi_ssid := s, u_wifi_password := p, u_basestation_addr := b\<rparr>
                 in if check_params n s p b then Inr (u1\<lparr>u_join_start := now, u_joining := True\<rparr>, False)
                    else Inr (u1, True))
          else Inr (u, False)
      | _ \<Rightarrow> Inr (u, True))"

section \<open>The loop\<close>

text \<open>
  What one turn is given: the stations on the access point, the readings of the clock, the
  button, and \<open>WiFi.status()\<close> after the wait for the network (which ends when it is joined or
  ten seconds after the registration, and does nothing else).
\<close>

record turn =
  tu_stations :: nat
  tu_led_now :: u32
  tu_led_set :: u32
  tu_button_low :: bool
  tu_button_now :: u32
  tu_joined :: bool

definition blink :: "turn \<Rightarrow> uncommissioned \<Rightarrow> uncommissioned" where
  "blink tu u =
     (if tu_stations tu = 0 then u\<lparr>u_led := True, u_blink := 0\<rparr>
      else if tu_led_now tu - u_blink u > 100 then u\<lparr>u_led := \<not> u_led u, u_blink := tu_led_set tu\<rparr>
      else u)"

text \<open>The state, the settings and the EEPROM after the turn, and whether the chip restarts.\<close>

definition loop_uncommissioned :: "'e eeprom \<Rightarrow> (string \<Rightarrow> nat \<Rightarrow> byte list) \<Rightarrow> turn
    \<Rightarrow> uncommissioned \<times> settings_t \<times> 'e \<Rightarrow> (uncommissioned \<times> settings_t \<times> 'e) \<times> bool" where
  "loop_uncommissioned ee tca tu st =
     (case st of (u, s, e) \<Rightarrow>
        let u1 = blink tu u
        in case button_step (tu_button_low tu) (tu_button_now tu) (u_button u1) of (b, fired) \<Rightarrow>
          let u2 = u1\<lparr>u_button := b\<rparr>
          in if fired then (case settings_erase ee e of (s', e') \<Rightarrow> ((u2, s', e'), True))
             else if u_joining u2 then
               (if tu_joined tu then
                  (case settings_create ee tca (u_device_name u2) (u_wifi_ssid u2) (u_wifi_password u2) (u_basestation_addr u2) e of
                     (s', e') \<Rightarrow> ((u2, s', e'), True))
                else ((u2, s, e), True))
             else ((u2, s, e), False))"

section \<open>Laws\<close>

definition held_from :: "u32 \<Rightarrow> (bool \<times> u32) list \<Rightarrow> bool" where
  "held_from t0 obs \<longleftrightarrow> (\<exists>held t rest. obs = held @ (True, t) # rest \<and> (\<forall>ob\<in>set held. fst ob) \<and> BUTTON_PRESS_TIMEOUT \<le> t - t0)"

lemma held_from_step: "held_from t0 obs \<Longrightarrow> held_from t0 ((True, t) # obs)"
  unfolding held_from_def by (metis append_Cons fst_conv set_ConsD)

lemma held_from_now: "BUTTON_PRESS_TIMEOUT \<le> t - t0 \<Longrightarrow> held_from t0 ((True, t) # obs)"
  unfolding held_from_def by (metis append_Nil empty_iff list.set(1))

lemma button_run_held:
  assumes "snd (button_run obs b)"
  shows "(b_pressed b \<and> held_from (b_start b) obs) \<or> (\<exists>before t0 rest. obs = before @ (True, t0) # rest \<and> held_from t0 rest)"
  using assms
proof (induction obs b rule: button_run.induct)
  case (2 low now obs b)
  obtain b1 fired where st: "button_step low now b = (b1, fired)" by (metis prod.collapse)
  have later: "\<exists>before t0 rest. (low, now) # obs = before @ (True, t0) # rest \<and> held_from t0 rest"
    if "\<exists>before t0 rest. obs = before @ (True, t0) # rest \<and> held_from t0 rest"
    using that by (metis append_Cons)
  show ?case
  proof (cases fired)
    case True
    then show ?thesis using st held_from_now by (auto simp: button_step_def split: if_splits)
  next
    case False
    then have "snd (button_run obs b1)" using "2.prems" st by simp
    then have IH: "(b_pressed b1 \<and> held_from (b_start b1) obs)
        \<or> (\<exists>before t0 rest. obs = before @ (True, t0) # rest \<and> held_from t0 rest)"
      using "2.IH" [OF st [symmetric] False] by simp
    show ?thesis
    proof (cases "\<exists>before t0 rest. obs = before @ (True, t0) # rest \<and> held_from t0 rest")
      case False
      then have h: "b_pressed b1" "held_from (b_start b1) obs" using IH by blast+
      then have low: "low" using st by (auto simp: button_step_def split: if_splits)
      show ?thesis
      proof (cases "b_pressed b")
        case True
        then have "b1 = b" using st low by (simp add: button_step_def)
        then show ?thesis using h held_from_step low by auto
      next
        case False
        then have "b_start b1 = now" using st low by (auto simp: button_step_def)
        then show ?thesis using h low by (metis append_Nil)
      qed
    qed (use later in blast)
  qed
qed simp

text \<open>The reset fires only after the button was down at every look over ten seconds: there
  is a press that started at least ten seconds (modulo the wrap of the clock) before the
  last look, with no release in between.\<close>

theorem reset_needs_hold:
  assumes "snd (button_run obs button_new)"
  shows "\<exists>before t0 held t rest. obs = before @ (True, t0) # held @ (True, t) # rest
    \<and> (\<forall>ob\<in>set held. fst ob) \<and> 10000 \<le> t - t0"
  using button_run_held [OF assms]
  unfolding held_from_def button_new_def BUTTON_PRESS_TIMEOUT_def by (simp only: button.simps) blast

lemma reset_needs_hold_witness:
  "\<exists>before t0 held t rest. [(True, 4294960000), (True, 3000)] = before @ (True, t0 :: u32) # held @ (True, t) # rest
    \<and> 10000 \<le> t - t0"
proof -
  have "snd (button_run [(True, 4294960000), (True, 3000)] button_new)" by code_simp
  from reset_needs_hold [OF this] show ?thesis by blast
qed

text \<open>C14: a registration with the parameters the form's handler accepts, on a network that can be
  joined, restarts the chip into a commissioned device: it loads valid settings that pass
  the check at start-up and hold the name, the network, the password and the base station.\<close>

theorem registration_commissions:
  assumes "eeprom_ok EEPROM_LEN ee" and "copies_strings tca"
    and "register_handler (Some n) (Some s) (Some p) (Some b) now u = Inr (u', page)" and "u_joining u' \<and> \<not> u_joining u"
    and "\<forall>t\<in>{n, s, p, b}. CHR 0x00 \<notin> set t"
    and "tu_joined tu" and "\<not> tu_button_low tu"
  shows "\<exists>u'' st e' e''. loop_uncommissioned ee tca tu (u', st0, e) = ((u'', st, e'), True)
    \<and> settings_load ee (ee_restart ee e') = (True, st, e'') \<and> settings_check st
    \<and> map (\<lambda>b. char_of (unat b)) (c_bytes (settings_get_name st)) = n
    \<and> map (\<lambda>b. char_of (unat b)) (c_bytes (settings_get_ssid st)) = s
    \<and> map (\<lambda>b. char_of (unat b)) (c_bytes (settings_get_password st)) = p
    \<and> map (\<lambda>b. char_of (unat b)) (c_bytes (settings_get_basestation st)) = b"
proof -
  have ck: "check_params n s p b" and u': "u_device_name u' = n" "u_wifi_ssid u' = s" "u_wifi_password u' = p" "u_basestation_addr u' = b"
    using assms(3,4) by (auto simp: register_handler_def Let_def split: if_splits)
  have len: "length n < 32" "length s < 64" "length p < 64" "length b < 32" and ne: "n \<noteq> []" "s \<noteq> []" "b \<noteq> []"
    and al: "list_all is_alnum n"
    using ck by (auto simp: check_params_def split: if_splits)
  obtain st e' where cr: "settings_create ee tca n s p b e = (st, e')" by (metis prod.collapse)
  note ok = settings_create_ok [OF assms(2) len assms(5), of ee e, unfolded cr fst_conv]
  obtain e'' where ld: "settings_load ee (ee_restart ee e') = (True, st, e'')" using load_created [OF assms(1) cr ok] by blast
  have st: "st_name st = fill (tca n 32) (replicate 32 0)" "st_ssid st = fill (tca s 64) (replicate 64 0)"
    "st_password st = fill (tca p 64) (replicate 64 0)" "st_basestation st = fill (tca b 32) (replicate 32 0)"
    using cr by (auto simp: settings_create_def Let_def settings_zero_def)
  have c: "c_bytes (st_name st) = map (\<lambda>c. of_nat (of_char c)) n" "c_bytes (st_ssid st) = map (\<lambda>c. of_nat (of_char c)) s"
    "c_bytes (st_password st) = map (\<lambda>c. of_nat (of_char c)) p" "c_bytes (st_basestation st) = map (\<lambda>c. of_nat (of_char c)) b"
    unfolding st using c_bytes_fill [OF assms(2)] len assms(5) by simp_all
  have "settings_check st"
    using c ne al ok len by (subst settings_check_fields) (simp_all add: settings_ok_def list_all_iff byte_alnum_def)
  moreover have "\<exists>u''. loop_uncommissioned ee tca tu (u', st0, e) = ((u'', st, e'), True)"
  proof -
    have bl: "u_joining (blink tu u')" "u_device_name (blink tu u') = n" "u_wifi_ssid (blink tu u') = s"
      "u_wifi_password (blink tu u') = p" "u_basestation_addr (blink tu u') = b"
      using assms(4) u' by (simp_all add: blink_def)
    then show ?thesis using assms(6,7) cr by (simp add: loop_uncommissioned_def button_step_def Let_def)
  qed
  moreover have "map (\<lambda>b. char_of (unat b)) (c_bytes (settings_get_name st)) = n"
    "map (\<lambda>b. char_of (unat b)) (c_bytes (settings_get_ssid st)) = s"
    "map (\<lambda>b. char_of (unat b)) (c_bytes (settings_get_password st)) = p"
    "map (\<lambda>b. char_of (unat b)) (c_bytes (settings_get_basestation st)) = b"
    using ok(2) by (simp_all add: settings_get_name_def settings_get_ssid_def settings_get_password_def
        settings_get_basestation_def c comp_def)
  ultimately show ?thesis using ld by blast
qed

text \<open>An EEPROM as a cache over a flash, and the copy of a string, for the witness.\<close>

definition sample_eeprom :: "((nat \<Rightarrow> byte) \<times> (nat \<Rightarrow> byte)) eeprom" where
  "sample_eeprom = \<lparr>ee_begin = (\<lambda>_ (c, f). (f, f)), ee_read = (\<lambda>i (c, f). c i), ee_write = (\<lambda>i b (c, f). (c(i := b), f)),
     ee_commit = (\<lambda>(c, f). (c, c)), ee_restart = (\<lambda>(c, f). (\<lambda>_. 0, f))\<rparr>"

definition sample_copy :: "string \<Rightarrow> nat \<Rightarrow> byte list" where
  "sample_copy s n = map (\<lambda>c. of_nat (of_char c)) (take (n - 1) s) @ [0]"

lemma samples_ok: "eeprom_ok n sample_eeprom" "copies_strings sample_copy"
  by (auto simp: eeprom_ok_def sample_eeprom_def copies_strings_def sample_copy_def split: prod.splits)

lemma registration_commissions_witness:
  "\<exists>u' page u'' st e'. register_handler (Some ''DESK'') (Some ''home'') (Some []) (Some ''base'') 7 setup_uncommissioned = Inr (u', page)
    \<and> loop_uncommissioned sample_eeprom sample_copy
        \<lparr>tu_stations = 1, tu_led_now = 0, tu_led_set = 0, tu_button_low = False, tu_button_now = 0, tu_joined = True\<rparr>
        (u', settings_zero, (\<lambda>_. 0, \<lambda>_. 0)) = ((u'', st, e'), True) \<and> settings_check st"
proof -
  let ?u = "setup_uncommissioned\<lparr>u_device_name := ''DESK'', u_wifi_ssid := ''home'', u_wifi_password := [], u_basestation_addr := ''base'',
      u_join_start := 7, u_joining := True\<rparr>"
  have ck: "check_params ''DESK'' ''home'' [] ''base''" by code_simp
  have r: "register_handler (Some ''DESK'') (Some ''home'') (Some []) (Some ''base'') 7 setup_uncommissioned = Inr (?u, False)"
    using ck by (simp add: register_handler_def setup_uncommissioned_def Let_def)
  show ?thesis
    using registration_commissions [OF samples_ok r, of "\<lparr>tu_stations = 1, tu_led_now = 0, tu_led_set = 0, tu_button_low = False, tu_button_now = 0, tu_joined = True\<rparr>" settings_zero "(\<lambda>_. 0, \<lambda>_. 0)"] r
    by (auto simp: setup_uncommissioned_def)
qed

end
