(* ===== verification/FW_Commissioned.thy ===== *)
theory FW_Commissioned
  imports FW_Uncommissioned Error_Monitor
begin

text \<open>
  \<open>commissioned.cpp\<close> of the heater firmware: the device with settings asks the base station
  for its state once a minute and drives the two pins of the heater's pilot wire. The
  results of the network calls, the clock, the button and the status of the wireless network
  are inputs; the queue of the library cppQueue is an argument (\<open>queue_ok\<close> is what the code
  relies on). The \<open>sprintf\<close> of the failed connection has no buffer argument and is undefined;
  it is not modelled.
\<close>

section \<open>The error records\<close>

datatype error_code_t =
    CANNOT_CONNECT_TO_BASE_STATION
  | REPLY_TIMEOUT
  | MESSAGE_PROTOCOL_NOT_SUPPORTED
  | INVALID_MESSAGE_TYPE
  | INVALID_HEATER_STATE
  | MESSAGE_READ_FAILURE
  | REQUEST_WRITE_FAILURE

record error_record =
  er_code :: error_code_t
  er_timestamp :: u32

definition MAX_ERROR_RECORDED :: nat where "MAX_ERROR_RECORDED = 5"

record 'q cpp_queue =
  q_full :: "'q \<Rightarrow> bool"
  q_drop :: "'q \<Rightarrow> 'q"
  q_push :: "error_record \<Rightarrow> 'q \<Rightarrow> 'q"
  q_count :: "'q \<Rightarrow> nat"
  q_peek :: "nat \<Rightarrow> 'q \<Rightarrow> error_record"

text \<open>A first-in first-out queue of the given capacity, seen as a list, oldest first.\<close>

definition queue_ok :: "nat \<Rightarrow> ('q \<Rightarrow> error_record list) \<Rightarrow> 'q cpp_queue \<Rightarrow> bool" where
  "queue_ok cap elems Q \<longleftrightarrow>
     (\<forall>q. q_full Q q = (cap \<le> length (elems q)))
   \<and> (\<forall>q. elems (q_drop Q q) = tl (elems q))
   \<and> (\<forall>q r. length (elems q) < cap \<longrightarrow> elems (q_push Q r q) = elems q @ [r])
   \<and> (\<forall>q. q_count Q q = length (elems q))
   \<and> (\<forall>q i. i < length (elems q) \<longrightarrow> q_peek Q i q = elems q ! i)"

definition record_error :: "'q cpp_queue \<Rightarrow> error_code_t \<Rightarrow> u32 \<Rightarrow> 'q \<Rightarrow> 'q" where
  "record_error Q code timestamp q =
     (let q1 = (if q_full Q q then q_drop Q q else q)
      in q_push Q \<lparr>er_code = code, er_timestamp = timestamp\<rparr> q1)"

fun error_text :: "error_code_t \<Rightarrow> string" where
  "error_text CANNOT_CONNECT_TO_BASE_STATION = ''Cannot connect to base station''"
| "error_text REPLY_TIMEOUT = ''Timeout waiting for reply from base station''"
| "error_text MESSAGE_PROTOCOL_NOT_SUPPORTED = ''Message protocol not supported''"
| "error_text INVALID_MESSAGE_TYPE = ''Received invalid message type''"
| "error_text INVALID_HEATER_STATE = ''Received invalid heater state''"
| "error_text MESSAGE_READ_FAILURE = ''Failed to read message from client''"
| "error_text REQUEST_WRITE_FAILURE = ''Failed to send message to base station''"

text \<open>The loop over the records, from index \<open>i\<close>.\<close>

function errors_from :: "'q cpp_queue \<Rightarrow> 'q \<Rightarrow> nat \<Rightarrow> string" where
  "errors_from Q q i =
     (if i < q_count Q q then
        (let rec = q_peek Q i q
         in error_text (er_code rec) @ '', timestamp='' @ dec (unat (er_timestamp rec))
            @ (if Suc i < q_count Q q then ''<br>'' else []) @ errors_from Q q (Suc i))
      else [])"
  by pat_completeness auto
termination
  by (relation "measure (\<lambda>(Q, q, i). q_count Q q - i)") auto

declare errors_from.simps [simp del]

definition build_errors_webpage :: "'q cpp_queue \<Rightarrow> 'q \<Rightarrow> string" where
  "build_errors_webpage Q q = (if q_count Q q = 0 then ''No errors'' else errors_from Q q 0)"

section \<open>The state of the device\<close>

datatype led_state_t = DISCONNECTED_FROM_WIFI | DISCONNECTED_FROM_BASE_STATION | CONNECTED_TO_BASE_STATION

definition CONNECTION_MAX_ATTEMPT :: nat where "CONNECTION_MAX_ATTEMPT = 3"
definition HEATER_STATE_TIMEOUT :: u32 where "HEATER_STATE_TIMEOUT = 1000"
definition SEND_HEATER_STATE_REQ_EV :: u32 where "SEND_HEATER_STATE_REQ_EV = 1"
definition SEND_HEATER_STATE_REQ_PERIOD :: u32 where "SEND_HEATER_STATE_REQ_PERIOD = 60 * 1000"
definition REQUEST_STATE_FAILURE_THRESHOLD :: u32 where "REQUEST_STATE_FAILURE_THRESHOLD = 15"
definition DEFAULT_HEATER_STATE :: byte where "DEFAULT_HEATER_STATE = 1"

record 'q controller =
  c_pin_mode :: "nat \<rightharpoonup> pin_mode"
  c_button :: button
  c_last_timestamp :: u32
  c_events :: u32
  c_led_state :: led_state_t
  c_led :: bool
  c_led_counter :: int
  c_fail_count :: u32
  c_fail_since_boot :: u32
  c_heater_state :: byte
  c_positive :: bool
  c_negative :: bool
  c_msg_counter :: u64
  c_errors :: 'q
  c_settings :: settings_t

text \<open>The levels of the two pins, positive first.\<close>

definition pins_of :: "byte \<Rightarrow> bool \<times> bool" where
  "pins_of st =
     (if st = 1 then (False, True)
      else if st = 2 then (True, True)
      else if st = 3 then (False, False)
      else (True, False))"

definition apply_heater_state :: "'q controller \<Rightarrow> 'q controller" where
  "apply_heater_state c = c\<lparr>c_positive := fst (pins_of (c_heater_state c)), c_negative := snd (pins_of (c_heater_state c))\<rparr>"

text \<open>The ticker of the LED; \<open>button_high\<close> is the level of the button's pin.\<close>

definition update_leds :: "bool \<Rightarrow> 'q controller \<Rightarrow> 'q controller" where
  "update_leds button_high c =
     (let c1 = (case c_led_state c of
          DISCONNECTED_FROM_WIFI \<Rightarrow> c\<lparr>c_led := \<not> c_led c, c_led_counter := 0\<rparr>
        | DISCONNECTED_FROM_BASE_STATION \<Rightarrow>
            if c_led_counter c \<ge> 6 then c\<lparr>c_led := True, c_led_counter := 0\<rparr> else c\<lparr>c_led := False\<rparr>
        | CONNECTED_TO_BASE_STATION \<Rightarrow> c\<lparr>c_led := \<not> button_high\<rparr>)
      in c1\<lparr>c_led_counter := c_led_counter c1 + 1\<rparr>)"

definition wifi_connected :: "'q controller \<Rightarrow> 'q controller" where
  "wifi_connected c = c\<lparr>c_events := c_events c OR SEND_HEATER_STATE_REQ_EV, c_led_state := DISCONNECTED_FROM_BASE_STATION\<rparr>"

definition wifi_disconnected :: "'q controller \<Rightarrow> 'q controller" where
  "wifi_disconnected c = c\<lparr>c_led_state := DISCONNECTED_FROM_WIFI\<rparr>"

definition send_heater_state_req_callback :: "'q controller \<Rightarrow> 'q controller" where
  "send_heater_state_req_callback c = c\<lparr>c_events := c_events c OR SEND_HEATER_STATE_REQ_EV\<rparr>"

text \<open>
  \<open>setup_commissioned\<close> on a device whose settings were loaded: the state after it, the EEPROM,
  and whether the chip restarts. \<open>rnd\<close> is the random number.
\<close>

definition initial_counter :: "u64 \<Rightarrow> u64" where
  "initial_counter rnd = push_bit 32 (rnd AND 0x0FFFFFFF)"

definition setup_commissioned :: "'e eeprom \<Rightarrow> 'q \<Rightarrow> u64 \<Rightarrow> settings_t \<Rightarrow> 'e \<Rightarrow> ('q controller \<times> 'e) \<times> bool" where
  "setup_commissioned ee q0 rnd s e =
     (let c = apply_heater_state
            \<lparr>c_pin_mode = [LED1_PIN \<mapsto> OUTPUT, BUTTON_PIN \<mapsto> INPUT_PULLUP, POSITIVE_OUTPUT_PIN \<mapsto> OUTPUT, NEGATIVE_OUTPUT_PIN \<mapsto> OUTPUT],
              c_button = button_new, c_last_timestamp = 0, c_events = 0, c_led_state = DISCONNECTED_FROM_WIFI,
              c_led = True, c_led_counter = 0, c_fail_count = 0, c_fail_since_boot = 0, c_heater_state = DEFAULT_HEATER_STATE,
              c_positive = False, c_negative = False, c_msg_counter = 0, c_errors = q0, c_settings = s\<rparr>
      in if \<not> settings_check s then
           (case settings_erase ee e of (s', e') \<Rightarrow> ((c\<lparr>c_settings := s'\<rparr>, e'), True))
         else ((c\<lparr>c_msg_counter := initial_counter rnd\<rparr>, e), False))"

text \<open>What \<open>setup_commissioned\<close> prints into a buffer of 64 bytes.\<close>

definition name_log :: "string \<Rightarrow> string" where
  "name_log name = ''Heater controller name: '' @ [DQ] @ name @ [DQ]"

definition base_station_log :: "string \<Rightarrow> string" where
  "base_station_log addr = ''Base station addr: '' @ [DQ] @ addr @ [DQ]"

definition ssid_log :: "string \<Rightarrow> string" where
  "ssid_log ssid = ''Connecting to Wifi network: '' @ [DQ] @ ssid @ [DQ]"

text \<open>The period of the requests: some jitter, so that not all devices ask at once.\<close>

definition request_period :: "u64 \<Rightarrow> u32" where
  "request_period msg_counter = SEND_HEATER_STATE_REQ_PERIOD + 50 * ucast (drop_bit 32 msg_counter AND 0xF)"

section \<open>A request\<close>

text \<open>
  What the network and the clock answer during one request: the attempts to connect, the
  results of \<open>write\<close> (0 a failure), the readings of the clock before and after the wait for
  the reply, the results of \<open>read\<close> (no byte a failure) and the time of the network.
\<close>

record request_env =
  rq_connect :: "nat \<Rightarrow> bool"
  rq_write :: "nat \<Rightarrow> nat"
  rq_start :: u32
  rq_end :: u32
  rq_read :: "nat \<Rightarrow> byte list"
  rq_epoch :: u32
  rq_mac :: "byte list"

fun try_connect :: "(nat \<Rightarrow> bool) \<Rightarrow> nat \<Rightarrow> nat \<Rightarrow> bool" where
  "try_connect connect k 0 = False"
| "try_connect connect k (Suc attempts) =
     (if connect k then True else if attempts > 0 then try_connect connect (Suc k) attempts else False)"

text \<open>The 64 bytes of the request: the struct filled with 0xFF, the header, the 32 bytes of the name.\<close>

definition request_message :: "byte list \<Rightarrow> u64 \<Rightarrow> settings_t \<Rightarrow> byte list" where
  "request_message mac counter s =
     header_bytes \<lparr>hd_version = 1, hd_type = REQ_HEATER_STATE, hd_mac_addr = mac, hd_counter = counter\<rparr>
     @ settings_get_name s @ replicate 16 0xFF"

text \<open>Whether the whole message is written.\<close>

function write_request :: "(nat \<Rightarrow> nat) \<Rightarrow> nat \<Rightarrow> nat \<Rightarrow> bool" where
  "write_request w k left =
     (if left > 0 then
        (let ret = min (w k) left in if ret = 0 then False else write_request w (Suc k) (left - ret))
      else True)"
  by pat_completeness auto
termination
  by (relation "measure (\<lambda>(w, k, left). left)") (auto simp: Let_def min_def)

declare write_request.simps [simp del]

text \<open>The bytes read; fewer than 64 when a \<open>read\<close> fails.\<close>

function read_reply :: "(nat \<Rightarrow> byte list) \<Rightarrow> nat \<Rightarrow> byte list \<Rightarrow> byte list" where
  "read_reply r k acc =
     (if length acc < MESSAGE_SIZE then
        (let got = take (MESSAGE_SIZE - length acc) (r k)
         in if got = [] then acc else read_reply r (Suc k) (acc @ got))
      else acc)"
  by pat_completeness auto
termination
proof (relation "measure (\<lambda>(r, k, acc). MESSAGE_SIZE - length acc)")
  fix r :: "nat \<Rightarrow> byte list" and k :: nat and acc got :: "byte list"
  assume "length acc < MESSAGE_SIZE" and "got \<noteq> []"
  moreover have "0 < length got" using \<open>got \<noteq> []\<close> by simp
  ultimately have "MESSAGE_SIZE - length (acc @ got) < MESSAGE_SIZE - length acc"
    unfolding length_append by linarith
  then show "((r, Suc k, acc @ got), (r, k, acc)) \<in> measure (\<lambda>(r, k, acc). MESSAGE_SIZE - length acc)" by simp
qed simp

declare read_reply.simps [simp del]

definition request_failed :: "'q cpp_queue \<Rightarrow> error_code_t \<Rightarrow> u32 \<Rightarrow> 'q controller \<Rightarrow> 'q controller" where
  "request_failed Q code epoch c =
     c\<lparr>c_fail_count := c_fail_count c + 1, c_fail_since_boot := c_fail_since_boot c + 1,
       c_errors := record_error Q code epoch (c_errors c)\<rparr>"

definition handle_reply :: "'q cpp_queue \<Rightarrow> u32 \<Rightarrow> byte list \<Rightarrow> 'q controller \<Rightarrow> 'q controller" where
  "handle_reply Q epoch reply c =
     (let header = parse_header reply
      in if hd_version header \<noteq> 1 then request_failed Q MESSAGE_PROTOCOL_NOT_SUPPORTED epoch c
         else if hd_type header = REQ_HEATER_STATE then request_failed Q INVALID_MESSAGE_TYPE epoch c
         else if hd_type header \<noteq> HEATER_STATE_REPLY then request_failed Q INVALID_MESSAGE_TYPE epoch c
         else
           let new_heater_state = reply ! header_size
           in if new_heater_state \<in> {0, 1, 2, 3} then
                let c1 = c\<lparr>c_led_state := CONNECTED_TO_BASE_STATION, c_last_timestamp := epoch, c_fail_count := 0\<rparr>
                in if c_heater_state c1 \<noteq> new_heater_state
                   then apply_heater_state (c1\<lparr>c_heater_state := new_heater_state\<rparr>) else c1
              else request_failed Q INVALID_HEATER_STATE epoch c)"

definition send_request :: "'q cpp_queue \<Rightarrow> request_env \<Rightarrow> 'q controller \<Rightarrow> 'q controller" where
  "send_request Q env c =
     (if \<not> try_connect (rq_connect env) 0 CONNECTION_MAX_ATTEMPT
      then request_failed Q CANNOT_CONNECT_TO_BASE_STATION (rq_epoch env) c
      else
        let c1 = c\<lparr>c_msg_counter := c_msg_counter c + 1\<rparr>
        in if \<not> write_request (rq_write env) 0 MESSAGE_SIZE then request_failed Q REQUEST_WRITE_FAILURE (rq_epoch env) c1
           else if rq_end env - rq_start env \<ge> HEATER_STATE_TIMEOUT then request_failed Q REPLY_TIMEOUT (rq_epoch env) c1
           else
             let reply = read_reply (rq_read env) 0 []
             in if length reply < MESSAGE_SIZE then request_failed Q MESSAGE_READ_FAILURE (rq_epoch env) c1
                else handle_reply Q (rq_epoch env) reply c1)"

section \<open>The loop\<close>

text \<open>At a factory reset the LED is switched off and toggled three times.\<close>

record commissioned_turn =
  ct_button_low :: bool
  ct_button_now :: u32
  ct_wifi :: bool
  ct_request :: request_env

definition check_failures :: "'q controller \<Rightarrow> 'q controller" where
  "check_failures c =
     (if c_fail_count c = REQUEST_STATE_FAILURE_THRESHOLD then
        (apply_heater_state (c\<lparr>c_heater_state := DEFAULT_HEATER_STATE\<rparr>))\<lparr>c_led_state := DISCONNECTED_FROM_BASE_STATION\<rparr>
      else c)"

definition loop_commissioned :: "'e eeprom \<Rightarrow> 'q cpp_queue \<Rightarrow> commissioned_turn \<Rightarrow> 'q controller \<times> 'e \<Rightarrow> ('q controller \<times> 'e) \<times> bool" where
  "loop_commissioned ee Q ct st =
     (case st of (c, e) \<Rightarrow>
        case button_step (ct_button_low ct) (ct_button_now ct) (c_button c) of (b, fired) \<Rightarrow>
          let c1 = c\<lparr>c_button := b\<rparr>
          in if fired then (case settings_erase ee e of (s', e') \<Rightarrow> ((c1\<lparr>c_settings := s', c_led := True\<rparr>, e'), True))
             else
               let c2 = (if ct_wifi ct \<and> c_events c1 AND SEND_HEATER_STATE_REQ_EV \<noteq> 0
                         then send_request Q (ct_request ct) (c1\<lparr>c_events := c_events c1 AND NOT SEND_HEATER_STATE_REQ_EV\<rparr>)
                         else c1)
               in ((check_failures c2, e), False))"

end
