(* ===== verification/FW_Props.thy ===== *)
theory FW_Props
  imports FW_Commissioned
begin

text \<open>
  Laws of the commissioned device: the pins follow the state, which is one of the four; the
  last five errors are kept; fifteen failed requests in a row force DEFROST, while a device
  that has lost the wireless network keeps its state; the LED's rhythm and the sizes of the
  buffers.
\<close>

section \<open>Errors\<close>

lemma record_error_elems:
  assumes "queue_ok MAX_ERROR_RECORDED elems Q" and "length (elems q) \<le> MAX_ERROR_RECORDED"
  shows "elems (record_error Q code ts q)
    = drop (Suc (length (elems q)) - MAX_ERROR_RECORDED) (elems q @ [\<lparr>er_code = code, er_timestamp = ts\<rparr>])"
proof (cases "length (elems q) = MAX_ERROR_RECORDED")
  case True
  then have "q_full Q q" using assms(1) by (simp add: queue_ok_def)
  moreover have "length (elems (q_drop Q q)) < MAX_ERROR_RECORDED"
    using assms(1) True by (simp add: queue_ok_def MAX_ERROR_RECORDED_def)
  ultimately show ?thesis using assms(1) True
    by (auto simp: record_error_def queue_ok_def drop_Suc MAX_ERROR_RECORDED_def)
next
  case False
  then have "length (elems q) < MAX_ERROR_RECORDED" using assms(2) by simp
  then show ?thesis using assms(1) by (auto simp: record_error_def queue_ok_def)
qed

lemma record_error_length:
  assumes "queue_ok MAX_ERROR_RECORDED elems Q" and "length (elems q) \<le> MAX_ERROR_RECORDED"
  shows "length (elems (record_error Q code ts q)) \<le> MAX_ERROR_RECORDED"
  using record_error_elems [OF assms] assms(2) by (simp add: MAX_ERROR_RECORDED_def)

fun record_errors :: "'q cpp_queue \<Rightarrow> error_record list \<Rightarrow> 'q \<Rightarrow> 'q" where
  "record_errors Q [] q = q"
| "record_errors Q (r # rs) q = record_errors Q rs (record_error Q (er_code r) (er_timestamp r) q)"

lemma record_errors_elems:
  assumes "queue_ok MAX_ERROR_RECORDED elems Q" and "length (elems q) \<le> MAX_ERROR_RECORDED"
  shows "elems (record_errors Q rs q) = drop (length (elems q @ rs) - MAX_ERROR_RECORDED) (elems q @ rs)"
  using assms(2)
proof (induction rs arbitrary: q)
  case (Cons r rs)
  let ?q = "record_error Q (er_code r) (er_timestamp r) q"
  have r: "\<lparr>er_code = er_code r, er_timestamp = er_timestamp r\<rparr> = r" by (cases r) simp
  have q: "elems ?q = drop (Suc (length (elems q)) - MAX_ERROR_RECORDED) (elems q @ [r])"
    using record_error_elems [OF assms(1) Cons.prems, of "er_code r" "er_timestamp r"] unfolding r .
  have "elems (record_errors Q rs ?q) = drop (length (elems ?q @ rs) - MAX_ERROR_RECORDED) (elems ?q @ rs)"
    by (rule Cons.IH [OF record_error_length [OF assms(1) Cons.prems]])
  also have "elems ?q @ rs = drop (Suc (length (elems q)) - MAX_ERROR_RECORDED) (elems q @ r # rs)"
    unfolding q using Cons.prems by (simp add: MAX_ERROR_RECORDED_def)
  finally show ?case using Cons.prems
    by (cases "length (elems q) = 5") (simp_all add: MAX_ERROR_RECORDED_def)
qed simp

text \<open>The queue of errors holds the last five of those recorded, oldest first.\<close>

theorem last_errors_kept:
  assumes "queue_ok MAX_ERROR_RECORDED elems Q" and "elems q = []"
  shows "elems (record_errors Q rs q) = drop (length rs - 5) rs"
  using record_errors_elems [OF assms(1), of q rs] assms(2) by (simp add: MAX_ERROR_RECORDED_def)

definition list_queue :: "nat \<Rightarrow> error_record list cpp_queue" where
  "list_queue cap = \<lparr>q_full = (\<lambda>q. cap \<le> length q), q_drop = tl, q_push = (\<lambda>r q. if length q < cap then q @ [r] else q),
     q_count = length, q_peek = (\<lambda>i q. q ! i)\<rparr>"

lemma list_queue_ok: "queue_ok cap (\<lambda>q. q) (list_queue cap)"
  by (simp add: queue_ok_def list_queue_def)

lemma last_errors_kept_witness:
  "record_errors (list_queue MAX_ERROR_RECORDED) (map (\<lambda>t. \<lparr>er_code = REPLY_TIMEOUT, er_timestamp = t\<rparr>) [1, 2, 3, 4, 5, 6]) []
   = map (\<lambda>t. \<lparr>er_code = REPLY_TIMEOUT, er_timestamp = t\<rparr>) [2, 3, 4, 5, 6]"
  using last_errors_kept [OF list_queue_ok, of "[]" "map (\<lambda>t. \<lparr>er_code = REPLY_TIMEOUT, er_timestamp = t\<rparr>) [1, 2, 3, 4, 5, 6]"]
  by simp

lemma dec_length: "n < 10 ^ Suc k \<Longrightarrow> length (dec n) \<le> Suc k"
proof (induction k arbitrary: n)
  case 0
  then show ?case by (simp add: dec.simps [of n])
next
  case (Suc k)
  have "n div 10 < 10 ^ Suc k" using Suc.prems by (simp add: div_less_iff_less_mult)
  from Suc.IH [OF this] show ?case by (subst dec.simps) auto
qed

lemma dec_u32_length: "length (dec (unat (w :: u32))) \<le> 10"
proof -
  have "unat w < 2 ^ LENGTH(32)" by (rule unsigned_less)
  then have "unat w < 10 ^ Suc 9" by simp
  from dec_length [OF this] show ?thesis by simp
qed

lemma error_text_length: "length (error_text code) \<le> 43"
  by (cases code) simp_all

lemma errors_from_length: "length (errors_from Q q i) \<le> 69 * (q_count Q q - i)"
proof (induction "q_count Q q - i" arbitrary: i)
  case 0
  then show ?case by (subst errors_from.simps) simp
next
  case (Suc k)
  have "length (errors_from Q q (Suc i)) \<le> 69 * (q_count Q q - Suc i)" using Suc by (intro Suc.hyps(1)) simp
  moreover have "length (error_text (er_code (q_peek Q i q))) \<le> 43" by (rule error_text_length)
  moreover have "length (dec (unat (er_timestamp (q_peek Q i q)))) \<le> 10" by (rule dec_u32_length)
  ultimately show ?case using Suc(2) by (subst errors_from.simps) (auto simp: Let_def)
qed

text \<open>The text of the recorded errors fits its buffer of 512 bytes, with its terminator.\<close>

theorem errors_page_fits:
  assumes "queue_ok MAX_ERROR_RECORDED elems Q" and "length (elems q) \<le> MAX_ERROR_RECORDED"
  shows "length (build_errors_webpage Q q) < 512"
proof -
  have "q_count Q q \<le> 5" using assms by (simp add: queue_ok_def MAX_ERROR_RECORDED_def)
  then show ?thesis using errors_from_length [of Q q 0] by (simp add: build_errors_webpage_def)
qed

lemma errors_page_fits_witness:
  "length (build_errors_webpage (list_queue MAX_ERROR_RECORDED) (replicate 5 \<lparr>er_code = REPLY_TIMEOUT, er_timestamp = -1\<rparr>)) < 512"
  by (rule errors_page_fits [OF list_queue_ok]) (simp add: MAX_ERROR_RECORDED_def)

section \<open>The state and the pins\<close>

definition controller_inv :: "('q \<Rightarrow> error_record list) \<Rightarrow> 'q controller \<Rightarrow> bool" where
  "controller_inv elems c \<longleftrightarrow>
     c_heater_state c \<in> {0, 1, 2, 3} \<and> (c_positive c, c_negative c) = pins_of (c_heater_state c)
   \<and> length (elems (c_errors c)) \<le> MAX_ERROR_RECORDED"

lemma apply_pins: "(c_positive (apply_heater_state c), c_negative (apply_heater_state c)) = pins_of (c_heater_state (apply_heater_state c))"
  by (simp add: apply_heater_state_def)

lemma apply_fields [simp]:
  "c_heater_state (apply_heater_state c) = c_heater_state c" "c_errors (apply_heater_state c) = c_errors c"
  "c_fail_count (apply_heater_state c) = c_fail_count c" "c_settings (apply_heater_state c) = c_settings c"
  by (simp_all add: apply_heater_state_def)

lemma request_failed_inv:
  "queue_ok MAX_ERROR_RECORDED elems Q \<Longrightarrow> controller_inv elems c \<Longrightarrow> controller_inv elems (request_failed Q code ts c)"
  by (simp add: controller_inv_def request_failed_def record_error_length)

lemma handle_reply_inv:
  assumes "queue_ok MAX_ERROR_RECORDED elems Q" and "controller_inv elems c"
  shows "controller_inv elems (handle_reply Q ts reply c)"
proof -
  have up: "controller_inv elems (apply_heater_state (d\<lparr>c_heater_state := st\<rparr>))"
    if "st \<in> {0, 1, 2, 3}" "length (elems (c_errors d)) \<le> MAX_ERROR_RECORDED" for st d
    using that apply_pins [of "d\<lparr>c_heater_state := st\<rparr>"] by (simp add: controller_inv_def)
  have same: "controller_inv elems (c\<lparr>c_led_state := l, c_last_timestamp := t, c_fail_count := n\<rparr>)" for l t n
    using assms(2) by (simp add: controller_inv_def)
  have "length (elems (c_errors c)) \<le> MAX_ERROR_RECORDED" using assms(2) by (simp add: controller_inv_def)
  then show ?thesis
    unfolding handle_reply_def Let_def using request_failed_inv [OF assms] up same by simp
qed

lemma send_request_inv:
  assumes "queue_ok MAX_ERROR_RECORDED elems Q" and "controller_inv elems c"
  shows "controller_inv elems (send_request Q env c)"
proof -
  have "controller_inv elems (c\<lparr>c_msg_counter := n\<rparr>)" for n using assms(2) by (simp add: controller_inv_def)
  then show ?thesis using request_failed_inv [OF assms(1)] handle_reply_inv [OF assms(1)] assms(2)
    by (simp add: send_request_def Let_def)
qed

lemma check_failures_inv: "controller_inv elems c \<Longrightarrow> controller_inv elems (check_failures c)"
  using apply_pins [of "c\<lparr>c_heater_state := DEFAULT_HEATER_STATE\<rparr>"]
  by (simp add: check_failures_def controller_inv_def DEFAULT_HEATER_STATE_def)

lemma loop_inv:
  assumes "queue_ok MAX_ERROR_RECORDED elems Q" and "controller_inv elems c"
  shows "controller_inv elems (fst (fst (loop_commissioned ee Q ct (c, e))))"
proof -
  have f: "controller_inv elems (c\<lparr>c_button := b, c_events := ev\<rparr>)" "controller_inv elems (c\<lparr>c_button := b\<rparr>)"
    "controller_inv elems (c\<lparr>c_button := b, c_settings := s, c_led := l\<rparr>)" for b ev s l
    using assms(2) by (simp_all add: controller_inv_def)
  obtain b fired where st: "button_step (ct_button_low ct) (ct_button_now ct) (c_button c) = (b, fired)" by (metis prod.collapse)
  show ?thesis
    using f send_request_inv [OF assms(1) f(1)]
    by (cases fired) (simp_all add: loop_commissioned_def Let_def st check_failures_inv split: prod.split)
qed

datatype device_event = Led_Tick bool | Request_Tick | Wifi_Up | Wifi_Down | Turn commissioned_turn

text \<open>The events of a commissioned device: its tickers, the handlers of the network, the loop.\<close>

definition device_step :: "'e eeprom \<Rightarrow> 'q cpp_queue \<Rightarrow> device_event \<Rightarrow> 'q controller \<times> 'e \<Rightarrow> 'q controller \<times> 'e" where
  "device_step ee Q ev st =
     (case ev of
        Led_Tick high \<Rightarrow> (update_leds high (fst st), snd st)
      | Request_Tick \<Rightarrow> (send_heater_state_req_callback (fst st), snd st)
      | Wifi_Up \<Rightarrow> (wifi_connected (fst st), snd st)
      | Wifi_Down \<Rightarrow> (wifi_disconnected (fst st), snd st)
      | Turn ct \<Rightarrow> fst (loop_commissioned ee Q ct st))"

lemma device_step_inv:
  assumes "queue_ok MAX_ERROR_RECORDED elems Q" and "controller_inv elems (fst st)"
  shows "controller_inv elems (fst (device_step ee Q ev st))"
proof (cases ev)
  case (Turn ct)
  then show ?thesis using loop_inv [OF assms] by (cases st) (simp add: device_step_def)
qed (use assms(2) in \<open>auto simp: device_step_def controller_inv_def update_leds_def send_heater_state_req_callback_def
      wifi_connected_def wifi_disconnected_def Let_def split: led_state_t.splits\<close>)

text \<open>C21: from its start on, after any events, the device is in one of the four states, its two
  pins are those of that state, and it keeps at most five errors.\<close>

theorem device_always_well:
  assumes "queue_ok MAX_ERROR_RECORDED elems Q" and "elems q0 = []"
    and "setup_commissioned ee q0 rnd s e = ((c, e'), False)"
  shows "controller_inv elems (fst (fold (device_step ee Q) evs (c, e')))"
proof -
  have "controller_inv elems c"
    using assms(2,3) by (auto simp: setup_commissioned_def Let_def controller_inv_def apply_heater_state_def DEFAULT_HEATER_STATE_def split: if_splits prod.splits)
  then show ?thesis
    by (intro fold_invariant [where Q = "\<lambda>_. True" and P = "\<lambda>st. controller_inv elems (fst st)"])
       (simp_all add: device_step_inv [OF assms(1)])
qed

definition blank :: "(nat \<Rightarrow> byte) \<times> (nat \<Rightarrow> byte)" where "blank = (\<lambda>_. 0, \<lambda>_. 0)"

definition sample_settings :: settings_t where
  "sample_settings = fst (settings_create sample_eeprom sample_copy ''DESK'' ''home'' [] ''base'' blank)"

lemma sample_settings_fields:
  "is_valid sample_settings" "settings_ok sample_settings"
  "st_name sample_settings = [68, 69, 83, 75] @ replicate 28 0"
proof -
  show "is_valid sample_settings" "settings_ok sample_settings"
    unfolding sample_settings_def using settings_create_ok [OF samples_ok(2), of "''DESK''" "''home''" "[]" "''base''"] by simp_all
  show "st_name sample_settings = [68, 69, 83, 75] @ replicate 28 0"
    by (simp add: sample_settings_def settings_create_def Let_def settings_zero_def fill_def sample_copy_def numeral_eq_Suc)
qed

lemma sample_check: "settings_check sample_settings"
  by code_simp

lemma device_always_well_witness:
  "\<exists>c e'. setup_commissioned sample_eeprom ([] :: error_record list) 5 sample_settings blank = ((c, e'), False)
    \<and> controller_inv (\<lambda>q. q) (fst (fold (device_step sample_eeprom (list_queue MAX_ERROR_RECORDED)) [Wifi_Up, Request_Tick] (c, e')))"
proof -
  obtain c e' where x: "setup_commissioned sample_eeprom ([] :: error_record list) 5 sample_settings blank = ((c, e'), False)"
    using sample_check by (simp add: setup_commissioned_def Let_def)
  have "controller_inv (\<lambda>q. q) (fst (fold (device_step sample_eeprom (list_queue MAX_ERROR_RECORDED)) [Wifi_Up, Request_Tick] (c, e')))"
    by (rule device_always_well [OF list_queue_ok _ x]) simp
  then show ?thesis using x by blast
qed

section \<open>Failed requests\<close>

text \<open>A request that fails, by what the network answers.\<close>

definition request_fails :: "request_env \<Rightarrow> bool" where
  "request_fails env \<longleftrightarrow>
     \<not> try_connect (rq_connect env) 0 CONNECTION_MAX_ATTEMPT
   \<or> \<not> write_request (rq_write env) 0 MESSAGE_SIZE
   \<or> rq_end env - rq_start env \<ge> HEATER_STATE_TIMEOUT
   \<or> (let reply = read_reply (rq_read env) 0 []; header = parse_header reply
      in length reply < MESSAGE_SIZE \<or> hd_version header \<noteq> 1 \<or> hd_type header \<noteq> HEATER_STATE_REPLY
         \<or> reply ! header_size \<notin> {0, 1, 2, 3})"

lemma send_request_fails:
  assumes "request_fails env"
  shows "\<exists>code n. send_request Q env c = request_failed Q code (rq_epoch env) (c\<lparr>c_msg_counter := n\<rparr>)"
proof -
  define P where "P x \<longleftrightarrow> (\<exists>code n. x = request_failed Q code (rq_epoch env) (c\<lparr>c_msg_counter := n\<rparr>))" for x
  have c: "c = c\<lparr>c_msg_counter := c_msg_counter c\<rparr>" by simp
  have p: "P (request_failed Q code (rq_epoch env) (c\<lparr>c_msg_counter := n\<rparr>))" for code n
    by (auto simp: P_def)
  have p0: "P (request_failed Q code (rq_epoch env) c)" for code
    using p [of code "c_msg_counter c"] by simp
  have "P (send_request Q env c)"
    using assms p p0 unfolding request_fails_def send_request_def handle_reply_def Let_def by auto
  then show ?thesis by (simp add: P_def)
qed

text \<open>One period: the ticker fires and the loop runs.\<close>

definition period :: "'e eeprom \<Rightarrow> 'q cpp_queue \<Rightarrow> 'e \<Rightarrow> commissioned_turn \<Rightarrow> 'q controller \<Rightarrow> 'q controller" where
  "period ee Q e ct c = fst (fst (loop_commissioned ee Q ct (send_heater_state_req_callback c, e)))"

definition failing_turn :: "commissioned_turn \<Rightarrow> bool" where
  "failing_turn ct \<longleftrightarrow> \<not> ct_button_low ct \<and> ct_wifi ct \<and> request_fails (ct_request ct)"

lemma event_set: "(ev OR SEND_HEATER_STATE_REQ_EV) AND SEND_HEATER_STATE_REQ_EV \<noteq> 0"
proof -
  have "bit ((ev OR SEND_HEATER_STATE_REQ_EV) AND SEND_HEATER_STATE_REQ_EV) 0"
    by (simp add: SEND_HEATER_STATE_REQ_EV_def bit_simps)
  then show ?thesis by (metis bit_0_eq bot_apply bot_bool_def)
qed

lemma period_fails:
  assumes "failing_turn ct"
  shows "\<exists>c1. period ee Q e ct c = check_failures c1 \<and> c_fail_count c1 = c_fail_count c + 1
    \<and> c_heater_state c1 = c_heater_state c \<and> c_positive c1 = c_positive c \<and> c_negative c1 = c_negative c"
proof -
  let ?c = "(send_heater_state_req_callback c)\<lparr>c_button := (c_button c)\<lparr>b_pressed := False\<rparr>,
      c_events := (c_events c OR SEND_HEATER_STATE_REQ_EV) AND NOT SEND_HEATER_STATE_REQ_EV\<rparr>"
  have a: "\<not> ct_button_low ct" "ct_wifi ct" "request_fails (ct_request ct)" using assms by (auto simp: failing_turn_def)
  have "period ee Q e ct c = check_failures (send_request Q (ct_request ct) ?c)"
    using a event_set [of "c_events c"]
    by (simp add: period_def loop_commissioned_def button_step_def Let_def send_heater_state_req_callback_def)
  moreover obtain code n where "send_request Q (ct_request ct) ?c = request_failed Q code (rq_epoch (ct_request ct)) (?c\<lparr>c_msg_counter := n\<rparr>)"
    using send_request_fails [OF a(3)] by blast
  ultimately show ?thesis
    by (intro exI [of _ "send_request Q (ct_request ct) ?c"]) (simp add: request_failed_def send_heater_state_req_callback_def)
qed

definition in_defrost :: "'q controller \<Rightarrow> bool" where
  "in_defrost c \<longleftrightarrow> c_heater_state c = DEFAULT_HEATER_STATE \<and> (c_positive c, c_negative c) = pins_of DEFAULT_HEATER_STATE"

lemma check_failures_fields:
  "c_fail_count (check_failures c) = c_fail_count c"
  "c_fail_count c = REQUEST_STATE_FAILURE_THRESHOLD \<Longrightarrow> in_defrost (check_failures c)"
  "in_defrost c \<Longrightarrow> in_defrost (check_failures c)"
  by (simp_all add: check_failures_def in_defrost_def apply_heater_state_def)

interpretation requests: fallback_monitor "\<lambda>ct c. (period ee Q e ct c, [])" c_fail_count failing_turn "\<lambda>_. ()" "\<lambda>_. []"
  REQUEST_STATE_FAILURE_THRESHOLD in_defrost for ee :: "'e eeprom" and Q :: "'q cpp_queue" and e :: 'e
proof unfold_locales
  fix ct :: commissioned_turn and c :: "'q controller"
  assume f: "failing_turn ct"
  obtain c1 where c1: "period ee Q e ct c = check_failures c1" "c_fail_count c1 = c_fail_count c + 1"
    "c_heater_state c1 = c_heater_state c" "c_positive c1 = c_positive c" "c_negative c1 = c_negative c"
    using period_fails [OF f, of ee Q e c] by blast
  show "c_fail_count (fst (period ee Q e ct c, [])) = c_fail_count c + 1"
    using c1 by (simp add: check_failures_fields)
  show "c_fail_count c + 1 = REQUEST_STATE_FAILURE_THRESHOLD \<Longrightarrow> in_defrost (fst (period ee Q e ct c, []))"
    using c1 by (simp add: check_failures_fields)
  show "in_defrost c \<Longrightarrow> in_defrost (fst (period ee Q e ct c, []))"
  proof -
    assume "in_defrost c"
    then have "in_defrost c1" using c1 by (simp add: in_defrost_def)
    then show "in_defrost (fst (period ee Q e ct c, []))" using c1(1) check_failures_fields(3) by simp
  qed
qed (simp_all add: REQUEST_STATE_FAILURE_THRESHOLD_def)

text \<open>C13: fifteen requests that fail in a row, for whatever reasons, put the heater in DEFROST, and
  further failures leave it there.\<close>

theorem failed_requests_force_defrost:
  assumes "\<forall>ct\<in>set turns. failing_turn ct" and "c_fail_count c = 0" and "15 \<le> length turns"
  shows "c_heater_state (fold (period ee Q e) turns c) = state_byte HEATER_DEFROST
    \<and> c_positive (fold (period ee Q e) turns c) = False \<and> c_negative (fold (period ee Q e) turns c) = True"
proof -
  have f: "fst (run_ops (\<lambda>ct c. (period ee Q e ct c, [])) turns c) = fold (period ee Q e) turns c" for c
    by (induction turns arbitrary: c) (simp_all add: fst_then_do)
  have "in_defrost (fst (run_ops (\<lambda>ct c. (period ee Q e ct c, [])) turns c))"
    using assms by (intro requests.run_forces) (simp_all add: REQUEST_STATE_FAILURE_THRESHOLD_def)
  then show ?thesis
    unfolding f by (simp add: in_defrost_def DEFAULT_HEATER_STATE_def state_byte_def pins_of_def)
qed

definition sample_request :: request_env where
  "sample_request = \<lparr>rq_connect = (\<lambda>_. False), rq_write = (\<lambda>_. 64), rq_start = 0, rq_end = 20, rq_read = (\<lambda>_. []),
     rq_epoch = 1700000000, rq_mac = [10, 11, 12, 13, 14, 15]\<rparr>"

definition sample_turn :: "bool \<Rightarrow> commissioned_turn" where
  "sample_turn wifi = \<lparr>ct_button_low = False, ct_button_now = 0, ct_wifi = wifi, ct_request = sample_request\<rparr>"

definition sample_controller :: "error_record list controller" where
  "sample_controller = (fst (fst (setup_commissioned sample_eeprom [] 5 sample_settings blank)))
     \<lparr>c_heater_state := 3, c_positive := False, c_negative := False\<rparr>"

lemma sample_controller_fields:
  "c_fail_count sample_controller = 0" "c_heater_state sample_controller = 3"
  "c_positive sample_controller = False" "c_negative sample_controller = False" "c_errors sample_controller = []"
  by (simp_all add: sample_controller_def setup_commissioned_def Let_def split: prod.split)

lemma failed_requests_force_defrost_witness:
  "c_heater_state (fold (period sample_eeprom (list_queue 5) blank) (replicate 15 (sample_turn True)) sample_controller)
    = state_byte HEATER_DEFROST"
proof -
  have "\<not> try_connect (rq_connect sample_request) 0 CONNECTION_MAX_ATTEMPT" by code_simp
  then have "failing_turn (sample_turn True)" by (simp add: failing_turn_def sample_turn_def request_fails_def)
  then show ?thesis
    using failed_requests_force_defrost [of "replicate 15 (sample_turn True)" sample_controller sample_eeprom "list_queue 5" "blank"]
    by (simp add: sample_controller_fields)
qed

text \<open>C39: while the device is off the wireless network nothing is counted: for however many
  periods it stays off, its heater stays as it was, COMFORT included, and never falls back to
  DEFROST.\<close>

theorem no_wifi_no_fallback:
  assumes "\<forall>ct\<in>set turns. \<not> ct_wifi ct \<and> \<not> ct_button_low ct" and "c_fail_count c \<noteq> REQUEST_STATE_FAILURE_THRESHOLD"
  shows "c_heater_state (fold (period ee Q e) turns c) = c_heater_state c
    \<and> c_positive (fold (period ee Q e) turns c) = c_positive c
    \<and> c_negative (fold (period ee Q e) turns c) = c_negative c"
  using assms
proof (induction turns arbitrary: c)
  case (Cons ct turns)
  have "period ee Q e ct c = (send_heater_state_req_callback c)\<lparr>c_button := (c_button c)\<lparr>b_pressed := False\<rparr>\<rparr>"
    using Cons.prems by (simp add: period_def loop_commissioned_def button_step_def Let_def check_failures_def
        send_heater_state_req_callback_def)
  then show ?case using Cons.IH [of "period ee Q e ct c"] Cons.prems by (simp add: send_heater_state_req_callback_def)
qed simp

lemma no_wifi_no_fallback_witness:
  "c_heater_state (fold (period sample_eeprom (list_queue 5) blank) (replicate 1440 (sample_turn False)) sample_controller)
    = state_byte HEATER_COMFORT"
  using no_wifi_no_fallback [of "replicate 1440 (sample_turn False)" sample_controller sample_eeprom "list_queue 5" "blank"]
  by (simp add: sample_controller_fields sample_turn_def REQUEST_STATE_FAILURE_THRESHOLD_def state_byte_def)

section \<open>The LED and the buffers\<close>

lemma led_tick:
  "c_led_state d = DISCONNECTED_FROM_BASE_STATION \<Longrightarrow> update_leds high d =
     (if 6 \<le> c_led_counter d then d\<lparr>c_led := True, c_led_counter := 1\<rparr>
      else d\<lparr>c_led := False, c_led_counter := c_led_counter d + 1\<rparr>)"
  by (simp add: update_leds_def Let_def)

lemma led_ticks:
  assumes "c_led_state c = DISCONNECTED_FROM_BASE_STATION" and "c_led_counter c = 0"
  shows "c_led_state ((update_leds high ^^ Suc m) c) = DISCONNECTED_FROM_BASE_STATION
    \<and> c_led_counter ((update_leds high ^^ Suc m) c) = int (m mod 6) + 1
    \<and> c_led ((update_leds high ^^ Suc m) c) = (0 < m \<and> m mod 6 = 0)"
proof (induction m)
  case 0
  then show ?case using assms by (simp add: led_tick)
next
  case (Suc m)
  define d where "d = (update_leds high ^^ Suc m) c"
  have d: "c_led_state d = DISCONNECTED_FROM_BASE_STATION" "c_led_counter d = int (m mod 6) + 1"
    using Suc.IH by (simp_all only: d_def)
  have "6 \<le> int (m mod 6) + 1 \<longleftrightarrow> Suc m mod 6 = 0" "Suc m mod 6 \<noteq> 0 \<Longrightarrow> Suc m mod 6 = m mod 6 + 1"
    by presburger+
  moreover have "(update_leds high ^^ Suc (Suc m)) c = update_leds high d" by (simp add: d_def)
  ultimately show ?case using d by (cases "Suc m mod 6 = 0") (simp_all add: led_tick)
qed

text \<open>Without the base station the LED flashes once in six ticks of half a second, the three
  seconds of the firmware's README, the first time after the seventh tick.\<close>

theorem led_flashes_every_three_seconds:
  assumes "c_led_state c = DISCONNECTED_FROM_BASE_STATION" and "c_led_counter c = 0"
  shows "c_led ((update_leds high ^^ Suc n) c) \<longleftrightarrow> 0 < n \<and> n mod 6 = 0"
  using led_ticks [OF assms, of n high] by (elim conjE)

lemma led_flashes_every_three_seconds_witness:
  "c_led ((update_leds True ^^ Suc 6) (sample_controller\<lparr>c_led_state := DISCONNECTED_FROM_BASE_STATION\<rparr>))"
proof -
  have "c_led_counter sample_controller = 0"
    by (simp add: sample_controller_def setup_commissioned_def Let_def apply_heater_state_def split: prod.split)
  then show ?thesis
    using led_flashes_every_three_seconds [of "sample_controller\<lparr>c_led_state := DISCONNECTED_FROM_BASE_STATION\<rparr>" 6 True] by simp
qed

text \<open>For a registration that is accepted, the logs of the name and of the base station's
  address fit their buffer of 64 bytes; the log of the network's name fits only up to 33
  characters, while up to 62 are accepted.\<close>

theorem setup_logs_fit:
  assumes "check_params n s p b"
  shows "length (name_log n) < 64 \<and> length (base_station_log b) < 64 \<and> (length (ssid_log s) < 64 \<longleftrightarrow> length s \<le> 33)"
  using assms by (auto simp: check_params_def name_log_def base_station_log_def ssid_log_def split: if_splits)

lemma setup_logs_fit_witness:
  "check_params ''DESK'' (replicate 62 CHR ''x'') [] ''base'' \<and> \<not> length (ssid_log (replicate 62 CHR ''x'')) < 64"
proof -
  have c: "check_params ''DESK'' (replicate 62 CHR ''x'') [] ''base''" by code_simp
  from setup_logs_fit [OF c] c show ?thesis by simp
qed

end
