(* ===== verification/System.thy ===== *)
theory System
  imports FW_Props Station
begin

text \<open>
  The base station and a fleet of controllers. A controller that asks for its state connects,
  the station accepts the connection, reads the request and replies, the controller reads the
  reply and closes the connection, and the station finds the end of the stream: \<open>talk\<close> is
  this exchange, put together from the operations of the two programs. Between exchanges the
  other events of the station and of the controllers happen in any order. The theorems say
  that the heaters of a fleet come to the states the station holds for them.
\<close>

section \<open>The firmware's requests and the station's parser\<close>

lemma request_message_header:
  assumes "length mac = 6"
  shows "drop header_size (request_message mac counter s) = settings_get_name s @ replicate 16 0xFF"
    and "parse_header (request_message mac counter s)
      = \<lparr>hd_version = 1, hd_type = REQ_HEATER_STATE, hd_mac_addr = mac, hd_counter = counter\<rparr>"
proof -
  have ok: "header_ok \<lparr>hd_version = 1, hd_type = REQ_HEATER_STATE, hd_mac_addr = mac, hd_counter = counter\<rparr>"
    using assms by (simp add: header_ok_def)
  show "drop header_size (request_message mac counter s) = settings_get_name s @ replicate 16 0xFF"
    unfolding request_message_def header_size_def by (rule header_codec.drop_enc [OF ok])
  show "parse_header (request_message mac counter s)
      = \<lparr>hd_version = 1, hd_type = REQ_HEATER_STATE, hd_mac_addr = mac, hd_counter = counter\<rparr>"
    unfolding request_message_def by (rule header_codec.dec_enc [OF ok])
qed

lemma request_parses:
  assumes "length mac = 6" and "settings_ok s" and "write_loop (ce_write env (dc_fd conn)) 0 MESSAGE_SIZE 0 = Wrote k"
  shows "\<exists>r. parseMessage env conn (request_message mac counter s) bs = Inr r"
proof -
  have "parse_name (drop header_size (request_message mac counter s)) \<noteq> None"
    unfolding request_message_header(1) [OF assms(1)] parse_name_None by (simp add: name_end_def)
  then obtain raw where "parse_name (drop header_size (request_message mac counter s)) = Some raw" by blast
  then show ?thesis using request_message_header(2) [OF assms(1), of counter s] assms(3) by (simp add: parse_request)
qed

lemma request_ends:
  assumes "length mac = 6"
  shows "\<not> endless_name (request_message mac counter s)"
  unfolding endless_name_iff request_message_header(1) [OF assms] parse_name_None by (simp add: name_end_def)

section \<open>The reply at the controller\<close>

lemma write_request_all: "\<forall>k. 0 < w k \<Longrightarrow> write_request w k left"
proof (induction w k left rule: write_request.induct)
  case (1 w k left)
  have "0 < w k" using 1(2) by blast
  then have "min (w k) left = 0 \<longleftrightarrow> left = 0" by (simp add: min_def)
  then show ?case using 1 by (subst write_request.simps) (simp add: Let_def)
qed

lemma read_reply_at_once: "length (r 0) = MESSAGE_SIZE \<Longrightarrow> read_reply r 0 [] = r 0"
  by (subst read_reply.simps, subst read_reply.simps) (auto simp: Let_def MESSAGE_SIZE_def)

lemma handle_reply_state:
  assumes "controller_inv elems c" and "case own of Some m \<Rightarrow> length m = 6 | None \<Rightarrow> True"
  shows "c_heater_state (handle_reply Q epoch (state_message own k st) c) = state_byte st
    \<and> (c_positive (handle_reply Q epoch (state_message own k st) c), c_negative (handle_reply Q epoch (state_message own k st) c)) = pins_of (state_byte st)
    \<and> c_fail_count (handle_reply Q epoch (state_message own k st) c) = 0"
proof -
  have "state_byte st \<in> {0, 1, 2, 3}" by (cases st) (simp_all add: state_byte_def)
  moreover have "(c_positive c, c_negative c) = pins_of (c_heater_state c)" using assms(1) by (simp add: controller_inv_def)
  ultimately show ?thesis
    using state_message_reads [OF assms(2), of k st]
    by (simp add: handle_reply_def Let_def msg_type_defs apply_heater_state_def)
qed

lemma request_bytes:
  assumes "length mac = 6" and "is_valid s" and "st_name s = map (\<lambda>c. of_nat (of_char c)) n @ 0 # rest" and "check_heater_name n"
    and "takes_bytes (ce_write env (dc_fd conn))"
    and "parseMessage env conn (request_message mac counter s) bs = Inr (r, e)"
  shows "bytes_to (dc_fd conn) e = take MESSAGE_SIZE (state_message (ce_own_mac env) (m_message_counter bs) (requested_state bs (map toupper n)))"
proof -
  have clean: "\<forall>b\<in>set (map (\<lambda>c. of_nat (of_char c)) n). \<not> name_end b"
  proof
    fix b :: byte assume "b \<in> set (map (\<lambda>c. of_nat (of_char c)) n)"
    then obtain c where c: "c \<in> set n" "b = of_nat (of_char c)" by auto
    have al: "is_alnum c" using assms(4) c(1) by (simp add: check_name_iff)
    then have "c \<noteq> CHR 0x00" "(of_char c :: nat) \<noteq> 255"
      using alnum_neq(6) [OF al] by (auto simp: is_alnum_def less_eq_char_def)
    moreover have "b = 0xFF \<Longrightarrow> (of_char c :: nat) = 255" using c(2) unat_char_byte [of c] by simp
    ultimately show "\<not> name_end b" using c(2) by (auto simp: name_end_def char_byte_nonzero)
  qed
  have "settings_get_name s @ replicate 16 0xFF = map (\<lambda>c. of_nat (of_char c)) n @ 0 # (rest @ replicate 16 0xFF)"
    using assms(2,3) by (simp add: settings_get_name_def)
  then have pn: "parse_name (drop header_size (request_message mac counter s)) = Some (map toupper n)"
    unfolding request_message_header(1) [OF assms(1)]
    using parse_name_word [OF clean, of 0] by (simp add: name_end_def comp_def)
  have an: "accepted_name (map toupper n) = map toupper n" using assms(4) by (simp add: accepted_name_def)
  have w: "write_loop (ce_write env (dc_fd conn)) 0 MESSAGE_SIZE 0 = Wrote MESSAGE_SIZE"
    using assms(5) by (intro write_loop_all) simp_all
  have "e = Log Debug (dump_message (request_message mac counter s))
      # request_effects env (dc_fd conn) (parse_header (request_message mac counter s)) (map toupper n) MESSAGE_SIZE bs"
    using assms(6) parse_request [OF _ _ pn, of env conn bs] request_message_header(2) [OF assms(1), of counter s] w by auto
  then show ?thesis by (simp add: request_effects_def an sent_log_def)
qed

section \<open>The network\<close>

text \<open>A stream that was sent at once arrives in pieces, one for each read.\<close>

definition piece :: "byte list list \<Rightarrow> nat \<Rightarrow> byte list" where
  "piece cs k = (if k < length cs then cs ! k else [])"

definition cuts :: "(byte list \<Rightarrow> byte list list) \<Rightarrow> bool" where
  "cuts sp \<longleftrightarrow> (\<forall>bs. concat (sp bs) = bs \<and> [] \<notin> set (sp bs))"

lemma station_reads:
  assumes "cuts sp" and "length data = MESSAGE_SIZE"
  shows "read_loop (\<lambda>k. Rd_Bytes (piece (sp data) k)) 0 [] = Read_Message data"
proof -
  have c: "concat (sp data) = data" "\<forall>c\<in>set (sp data). c \<noteq> []" using assms(1) by (auto simp: cuts_def)
  then show ?thesis
    using read_loop_chunks [of "sp data" "[]" data "[]" "\<lambda>k. Rd_Bytes (piece (sp data) k)" 0] assms(2)
    by (simp add: piece_def)
qed

lemma read_reply_pieces:
  assumes "\<forall>c\<in>set cs. c \<noteq> []" and "length (acc @ concat cs) = MESSAGE_SIZE" and "\<forall>i < length cs. r (k + i) = cs ! i"
  shows "read_reply r k acc = acc @ concat cs"
  using assms
proof (induction cs arbitrary: k acc)
  case Nil
  then show ?case by (simp add: read_reply.simps)
next
  case (Cons c cs)
  have r: "r k = c" using Cons.prems(3) by (auto dest: spec [of _ 0])
  have len: "length acc + length c + length (concat cs) = MESSAGE_SIZE" using Cons.prems(2) by simp
  have "c \<noteq> []" using Cons.prems(1) by simp
  then have "length acc < MESSAGE_SIZE" using len by (simp add: add.assoc flip: length_greater_0_conv)
  moreover have "take (MESSAGE_SIZE - length acc) c = c" using len by simp
  moreover have "read_reply r (Suc k) (acc @ c) = (acc @ c) @ concat cs"
  proof (rule Cons.IH)
    show "\<forall>i < length cs. r (Suc k + i) = cs ! i" using Cons.prems(3) by (auto dest: spec [of _ "Suc _"])
  qed (use Cons.prems in simp_all)
  ultimately show ?case using r \<open>c \<noteq> []\<close> by (subst read_reply.simps) (simp add: Let_def)
qed

lemma controller_reads:
  assumes "cuts sp" and "length data = MESSAGE_SIZE"
  shows "read_reply (piece (sp data)) 0 [] = data"
proof -
  have c: "concat (sp data) = data" "\<forall>c\<in>set (sp data). c \<noteq> []" using assms(1) by (auto simp: cuts_def)
  then show ?thesis using read_reply_pieces [OF c(2), of "[]" "piece (sp data)" 0] assms(2) by (simp add: piece_def)
qed

section \<open>An exchange\<close>

text \<open>
  The descriptor and the time of the accepted connection, what the system answers the station
  meanwhile, how the network cuts the two messages, and the turn of the controller's loop.
\<close>

record exchange_env =
  xe_fd :: int
  xe_now :: int
  xe_conn :: conn_env
  xe_cut :: "byte list \<Rightarrow> byte list list"
  xe_turn :: commissioned_turn

definition talk :: "'e eeprom \<Rightarrow> 'q cpp_queue \<Rightarrow> exchange_env \<Rightarrow> byte list \<Rightarrow> 'q controller \<times> 'e \<Rightarrow> base_station
    \<Rightarrow> exn + ('q controller \<times> 'e) \<times> base_station" where
  "talk ee Q x mac dev bs =
     (let c = fst dev;
          msg = request_message mac (c_msg_counter c) (c_settings c);
          request = (xe_conn x)\<lparr>ce_readable := \<lambda>fd. fd = xe_fd x, ce_read := \<lambda>_ k. Rd_Bytes (piece (xe_cut x msg) k)\<rparr>
      in case handleConnections 1 request (handleNewDevice (xe_now x) (xe_fd x) bs) of
           Inl err \<Rightarrow> Inl err
         | Inr (bs2, e) \<Rightarrow>
             (let reply = bytes_to (xe_fd x) e;
                  turn = (xe_turn x)\<lparr>ct_request := (ct_request (xe_turn x))\<lparr>rq_read := piece (xe_cut x reply)\<rparr>\<rparr>;
                  closed = (xe_conn x)\<lparr>ce_readable := \<lambda>fd. fd = xe_fd x, ce_read := \<lambda>_ _. Rd_Bytes []\<rparr>
              in case handleConnections 1 closed bs2 of
                   Inl err \<Rightarrow> Inl err
                 | Inr (bs3, _) \<Rightarrow>
                     Inr (fst (loop_commissioned ee Q turn (send_heater_state_req_callback c, snd dev)), bs3)))"

text \<open>A network that works: it connects, takes all bytes, is in time and loses nothing.\<close>

definition network_ok :: "exchange_env \<Rightarrow> bool" where
  "network_ok x \<longleftrightarrow> cuts (xe_cut x)
     \<and> takes_bytes (ce_write (xe_conn x) (xe_fd x)) \<and> (case ce_own_mac (xe_conn x) of Some m \<Rightarrow> length m = 6 | None \<Rightarrow> True)
     \<and> ct_wifi (xe_turn x) \<and> \<not> ct_button_low (xe_turn x)
     \<and> (let rq = ct_request (xe_turn x) in
          try_connect (rq_connect rq) 0 CONNECTION_MAX_ATTEMPT \<and> (\<forall>k. 0 < rq_write rq k)
          \<and> rq_end rq - rq_start rq < HEATER_STATE_TIMEOUT)"

text \<open>A controller commissioned under a name.\<close>

definition commissioned_as :: "('q \<Rightarrow> error_record list) \<Rightarrow> string \<Rightarrow> 'q controller \<Rightarrow> bool" where
  "commissioned_as elems n c \<longleftrightarrow> controller_inv elems c \<and> is_valid (c_settings c) \<and> settings_ok (c_settings c)
     \<and> check_heater_name n \<and> (\<exists>rest. st_name (c_settings c) = map (\<lambda>c. of_nat (of_char c)) n @ 0 # rest)"

text \<open>The controller's state and pins are those of the given state.\<close>

definition drives :: "'q controller \<Rightarrow> heater_state \<Rightarrow> bool" where
  "drives c st \<longleftrightarrow> c_heater_state c = state_byte st \<and> (c_positive c, c_negative c) = pins_of (state_byte st)"

lemma handle_fds_single:
  assumes "fd \<in> set fds" and "distinct fds" and "\<forall>f\<in>set fds. f \<noteq> fd \<longrightarrow> \<not> ce_readable env f"
  shows "handle_fds env fds bs = handle_connection env fd bs"
proof -
  have none: "handle_fds env gs b = Inr (b, [])" if "\<forall>f\<in>set gs. \<not> ce_readable env f" for gs b
    using that by (induction gs arbitrary: b) (simp_all add: handle_connection_def)
  show ?thesis
    using assms
  proof (induction fds arbitrary: bs)
    case (Cons f fds)
    show ?case
    proof (cases "f = fd")
      case True
      then have "\<forall>g\<in>set fds. \<not> ce_readable env g" using Cons.prems by auto
      then show ?thesis using none True by (simp split: sum.split prod.split)
    next
      case False
      then have "handle_connection env f bs = Inr (bs, [])" using Cons.prems(3) by (simp add: handle_connection_def)
      then show ?thesis using Cons False by (simp split: sum.split prod.split)
    qed
  qed simp
qed

lemma one_readable:
  assumes "ce_readable env = (\<lambda>f. f = fd)" and "fd \<in> set (conn_fds bs)" and "distinct (conn_fds bs)"
  shows "handleConnections 1 env bs = handle_connection env fd bs"
proof -
  have "handle_fds env (conn_fds bs) bs = handle_connection env fd bs"
    by (rule handle_fds_single [OF assms(2,3)]) (simp add: assms(1))
  moreover have "m_connections bs \<noteq> []" using assms(2) by (auto simp: conn_fds_def)
  ultimately show ?thesis by (simp add: handleConnections_def conn_fds_def)
qed

lemma request_length:
  assumes "length mac = 6" and "settings_ok s"
  shows "length (request_message mac counter s) = MESSAGE_SIZE"
proof -
  have l: "length (settings_get_name s) = 32" using assms(2) by (simp add: settings_get_name_def settings_ok_def)
  have ok: "header_ok \<lparr>hd_version = 1, hd_type = REQ_HEATER_STATE, hd_mac_addr = mac, hd_counter = counter\<rparr>"
    using assms(1) by (simp add: header_ok_def)
  show ?thesis using l header_codec.length_enc [OF ok] by (simp add: request_message_def MESSAGE_SIZE_def)
qed

text \<open>What the station does with the request of an exchange.\<close>

lemma station_replies:
  assumes "network_ok x" and "commissioned_as elems n c" and "length mac = 6" and "station_inv bs" and "xe_fd x \<notin> set (conn_fds bs)"
    and req: "req = (xe_conn x)\<lparr>ce_readable := \<lambda>fd. fd = xe_fd x,
        ce_read := \<lambda>_ k. Rd_Bytes (piece (xe_cut x (request_message mac (c_msg_counter c) (c_settings c))) k)\<rparr>"
  shows "\<exists>bs2 e. handleConnections 1 req (handleNewDevice (xe_now x) (xe_fd x) bs) = Inr (bs2, e)
    \<and> bytes_to (xe_fd x) e = state_message (ce_own_mac (xe_conn x)) (m_message_counter bs) (requested_state bs (map toupper n))
    \<and> station_inv bs2 \<and> same_config bs bs2 \<and> xe_fd x \<in> set (conn_fds bs2)"
proof -
  let ?fd = "xe_fd x" and ?b = "handleNewDevice (xe_now x) (xe_fd x) bs"
  let ?msg = "request_message mac (c_msg_counter c) (c_settings c)"
  have net: "cuts (xe_cut x)" "takes_bytes (ce_write req ?fd)" "case ce_own_mac req of Some m \<Rightarrow> length m = 6 | None \<Rightarrow> True"
    using assms(1) by (simp_all add: network_ok_def req)
  have com: "is_valid (c_settings c)" "settings_ok (c_settings c)" "check_heater_name n"
    using assms(2) by (simp_all add: commissioned_as_def)
  obtain rest where nm: "st_name (c_settings c) = map (\<lambda>c. of_nat (of_char c)) n @ 0 # rest"
    using assms(2) by (auto simp: commissioned_as_def)
  have b: "station_inv ?b" "same_config bs ?b" "requested_state ?b = requested_state bs" "m_message_counter ?b = m_message_counter bs"
    "?fd \<in> set (conn_fds ?b)"
    using assms(4,5) by (simp_all add: handleNewDevice_def station_inv_def config_inv_def device_inv_def conn_fds_def
        same_config_def config_of_def requested_state_def fun_eq_iff Let_def)
  have inv: "distinct (conn_fds ?b)" "device_inv ?b" using b(1) by (simp_all add: station_inv_def)
  have rd: "read_loop (ce_read req ?fd) 0 [] = Read_Message ?msg"
    using station_reads [OF net(1) request_length [OF assms(3) com(2)]] by (simp add: req)
  have readable: "ce_readable req ?fd" by (simp add: req)
  obtain pre conn post where sc: "split_conn ?fd (m_connections ?b) = Some (pre, conn, post)"
    using split_conn_None [of ?fd "m_connections ?b"] b(5)
    by (cases "split_conn ?fd (m_connections ?b)") (auto simp: conn_fds_def)
  have fd: "dc_fd conn = ?fd" using split_conn_Some [OF sc] by simp
  have w: "write_loop (ce_write req (dc_fd conn)) 0 MESSAGE_SIZE 0 = Wrote MESSAGE_SIZE"
    using net(2) fd by (intro write_loop_all) simp_all
  obtain bs' conn' e where m: "parseMessage req conn ?msg ?b = Inr ((bs', conn'), e)"
    using request_parses [OF assms(3) com(2) w, of "c_msg_counter c" ?b] by auto
  let ?bs2 = "bs'\<lparr>m_connections := pre @ conn' # post\<rparr>"
  have h: "handle_connection req ?fd ?b = Inr (?bs2, e)"
    using readable rd m sc by (simp add: handle_connection_def)
  have hc: "handleConnections 1 req ?b = Inr (?bs2, e)"
    using one_readable [OF _ b(5) inv(1), of req] h by (simp add: req)
  have "bytes_to ?fd e = take MESSAGE_SIZE (state_message (ce_own_mac req) (m_message_counter ?b) (requested_state ?b (map toupper n)))"
    using request_bytes [OF assms(3) com(1) nm com(3) _ m] net(2) fd by simp
  then have "bytes_to ?fd e = state_message (ce_own_mac (xe_conn x)) (m_message_counter bs) (requested_state bs (map toupper n))"
    using state_message_reads(1) [OF net(3), of "m_message_counter bs" "requested_state bs (map toupper n)"] b(3,4) by (simp add: req)
  moreover have "station_inv ?bs2" by (rule handleConnections_inv [OF hc b(1)])
  moreover have "same_config bs ?bs2"
    using handleConnections_config [OF hc] b(2) by (simp add: same_config_def)
  moreover have "\<not> stream_ended req ?fd" using rd by (simp add: stream_ended_def)
  then have "?fd \<in> set (conn_fds ?bs2)" using handle_connection_fds [OF h inv b(5)] b(5) by simp
  ultimately show ?thesis using hc by blast
qed

text \<open>What it does when the controller has closed the connection.\<close>

lemma station_closes:
  assumes "station_inv bs" and "fd \<in> set (conn_fds bs)" and "ce_readable env = (\<lambda>f. f = fd)"
    and "ce_read env = (\<lambda>_ _. Rd_Bytes [])"
  shows "\<exists>bs' e. handleConnections 1 env bs = Inr (bs', e) \<and> station_inv bs' \<and> same_config bs bs' \<and> fd \<notin> set (conn_fds bs')"
proof -
  have inv: "distinct (conn_fds bs)" "device_inv bs" using assms(1) by (simp_all add: station_inv_def)
  have eof: "read_loop (ce_read env fd) 0 [] = Read_Eof" by (simp add: read_loop.simps assms(4) MESSAGE_SIZE_def)
  then have "\<not> bad_client env fd y" for y by (simp add: bad_client_def)
  then obtain bs' e where h: "handle_connection env fd bs = Inr (bs', e)"
    using handle_connection_fails by (metis old.sum.exhaust prod.collapse)
  have hc: "handleConnections 1 env bs = Inr (bs', e)" using one_readable [OF assms(3,2) inv(1)] h by simp
  have "stream_ended env fd" using eof assms(3) by (simp add: stream_ended_def)
  then have "fd \<notin> set (conn_fds bs')" using handle_connection_fds [OF h inv assms(2)] by simp
  then show ?thesis using hc handleConnections_inv [OF hc assms(1)] handleConnections_config [OF hc] by blast
qed

lemma same_config_trans: "same_config a b \<Longrightarrow> same_config b c \<Longrightarrow> same_config a c"
  by (simp add: same_config_def)

lemma config_requested: "config_of bs' = config_of bs \<Longrightarrow> requested_state bs' = requested_state bs"
  by (simp add: config_of_def requested_state_def fun_eq_iff Let_def)

lemma send_request_settings [simp]: "c_settings (send_request Q env c) = c_settings c"
  by (simp add: send_request_def handle_reply_def request_failed_def Let_def)

text \<open>What the controller does with the reply.\<close>

lemma controller_follows:
  assumes "network_ok x" and "commissioned_as elems n c" and "queue_ok MAX_ERROR_RECORDED elems Q"
    and "reply = state_message own k st" and "case own of Some m \<Rightarrow> length m = 6 | None \<Rightarrow> True"
    and turn: "turn = (xe_turn x)\<lparr>ct_request := (ct_request (xe_turn x))\<lparr>rq_read := piece (xe_cut x reply)\<rparr>\<rparr>"
  shows "commissioned_as elems n (fst (fst (loop_commissioned ee Q turn (send_heater_state_req_callback c, e))))
    \<and> drives (fst (fst (loop_commissioned ee Q turn (send_heater_state_req_callback c, e)))) st"
proof -
  let ?c1 = "(send_heater_state_req_callback c)\<lparr>c_button := (c_button c)\<lparr>b_pressed := False\<rparr>,
      c_events := (c_events c OR SEND_HEATER_STATE_REQ_EV) AND NOT SEND_HEATER_STATE_REQ_EV\<rparr>"
  let ?c2 = "send_request Q (ct_request turn) ?c1"
  have net: "cuts (xe_cut x)" "try_connect (rq_connect (ct_request turn)) 0 CONNECTION_MAX_ATTEMPT"
    "\<forall>k. 0 < rq_write (ct_request turn) k" "rq_end (ct_request turn) - rq_start (ct_request turn) < HEATER_STATE_TIMEOUT"
    "ct_wifi turn" "\<not> ct_button_low turn"
    using assms(1) by (simp_all add: network_ok_def turn Let_def)
  have l: "length reply = MESSAGE_SIZE" unfolding assms(4) by (rule state_message_reads(1) [OF assms(5)])
  have rd: "read_reply (rq_read (ct_request turn)) 0 [] = reply" using controller_reads [OF net(1) l] by (simp add: turn)
  have inv: "controller_inv elems (?c1\<lparr>c_msg_counter := c_msg_counter c + 1\<rparr>)"
    using assms(2) by (simp add: commissioned_as_def controller_inv_def send_heater_state_req_callback_def)
  have s: "?c2 = handle_reply Q (rq_epoch (ct_request turn)) reply (?c1\<lparr>c_msg_counter := c_msg_counter c + 1\<rparr>)"
    using net(2,4) write_request_all [OF net(3)] l
    by (simp add: send_request_def rd Let_def not_le send_heater_state_req_callback_def)
  note r = handle_reply_state [OF inv assms(5), of Q "rq_epoch (ct_request turn)" k st, folded assms(4), folded s]
  have "check_failures ?c2 = ?c2" using r by (simp add: check_failures_def REQUEST_STATE_FAILURE_THRESHOLD_def)
  then have t: "fst (fst (loop_commissioned ee Q turn (send_heater_state_req_callback c, e))) = ?c2"
    using net(5,6) event_set [of "c_events c"]
    by (simp add: loop_commissioned_def button_step_def send_heater_state_req_callback_def Let_def)
  have "controller_inv elems (send_heater_state_req_callback c)"
    using assms(2) by (simp add: commissioned_as_def controller_inv_def send_heater_state_req_callback_def)
  from loop_inv [OF assms(3) this, of ee turn e] have "controller_inv elems ?c2" by (simp only: t)
  moreover have "c_settings ?c2 = c_settings c" by (simp add: send_heater_state_req_callback_def)
  ultimately show ?thesis using assms(2) r unfolding t by (simp add: commissioned_as_def drives_def)
qed

text \<open>An exchange over a network that works.\<close>

lemma talk_ok:
  assumes "network_ok x" and "commissioned_as elems n (fst dev)" and "queue_ok MAX_ERROR_RECORDED elems Q"
    and "length mac = 6" and "station_inv bs" and "xe_fd x \<notin> set (conn_fds bs)"
  shows "\<exists>dev' bs'. talk ee Q x mac dev bs = Inr (dev', bs') \<and> drives (fst dev') (requested_state bs (map toupper n))
    \<and> commissioned_as elems n (fst dev') \<and> station_inv bs' \<and> config_of bs' = config_of bs \<and> xe_fd x \<notin> set (conn_fds bs')"
proof -
  define req where "req = (xe_conn x)\<lparr>ce_readable := \<lambda>fd. fd = xe_fd x,
        ce_read := \<lambda>_ k. Rd_Bytes (piece (xe_cut x (request_message mac (c_msg_counter (fst dev)) (c_settings (fst dev)))) k)\<rparr>"
  define closed where "closed = (xe_conn x)\<lparr>ce_readable := \<lambda>fd. fd = xe_fd x, ce_read := \<lambda>_ _. Rd_Bytes []\<rparr>"
  obtain bs2 e where h: "handleConnections 1 req (handleNewDevice (xe_now x) (xe_fd x) bs) = Inr (bs2, e)"
    and r: "bytes_to (xe_fd x) e = state_message (ce_own_mac (xe_conn x)) (m_message_counter bs) (requested_state bs (map toupper n))"
    and b2: "station_inv bs2" "same_config bs bs2" "xe_fd x \<in> set (conn_fds bs2)"
    using station_replies [OF assms(1,2,4,5,6) req_def] by blast
  obtain bs3 e3 where g: "handleConnections 1 closed bs2 = Inr (bs3, e3)"
    and b3: "station_inv bs3" "same_config bs2 bs3" "xe_fd x \<notin> set (conn_fds bs3)"
    using station_closes [OF b2(1,3), of closed] by (auto simp: closed_def)
  have own: "case ce_own_mac (xe_conn x) of Some m \<Rightarrow> length m = 6 | None \<Rightarrow> True" using assms(1) by (simp add: network_ok_def)
  note c = controller_follows [OF assms(1-3) r own refl, of ee "snd dev"]
  have "config_of bs3 = config_of bs" using b2(2) b3(2) by (simp add: same_config_def)
  then show ?thesis using c b3(1,3)
    by (simp add: talk_def h [unfolded req_def] g [unfolded closed_def])
qed

section \<open>A fleet of controllers\<close>

record ('q, 'e) fleet =
  fl_station :: base_station
  fl_device :: "nat \<Rightarrow> 'q controller \<times> 'e"

datatype fleet_event =
    Station_Event station_event
  | Device_Event nat device_event
  | Talk nat exchange_env

text \<open>One event; \<open>mac\<close> gives the addresses of the controllers.\<close>

fun fleet_step :: "'e eeprom \<Rightarrow> 'q cpp_queue \<Rightarrow> (nat \<Rightarrow> byte list) \<Rightarrow> fleet_event \<Rightarrow> ('q, 'e) fleet \<Rightarrow> exn + ('q, 'e) fleet" where
  "fleet_step ee Q mac (Station_Event ev) fl =
     (case do_event ev (fl_station fl) of Inl x \<Rightarrow> Inl x | Inr (bs, _) \<Rightarrow> Inr (fl\<lparr>fl_station := bs\<rparr>))"
| "fleet_step ee Q mac (Device_Event i ev) fl =
     Inr (fl\<lparr>fl_device := (fl_device fl)(i := device_step ee Q ev (fl_device fl i))\<rparr>)"
| "fleet_step ee Q mac (Talk i x) fl =
     (case talk ee Q x (mac i) (fl_device fl i) (fl_station fl) of
        Inl err \<Rightarrow> Inl err
      | Inr (dev, bs) \<Rightarrow> Inr (fl\<lparr>fl_station := bs, fl_device := (fl_device fl)(i := dev)\<rparr>))"

fun fleet_run :: "'e eeprom \<Rightarrow> 'q cpp_queue \<Rightarrow> (nat \<Rightarrow> byte list) \<Rightarrow> fleet_event list \<Rightarrow> ('q, 'e) fleet \<Rightarrow> exn + ('q, 'e) fleet" where
  "fleet_run ee Q mac [] fl = Inr fl"
| "fleet_run ee Q mac (ev # evs) fl =
     (case fleet_step ee Q mac ev fl of Inl x \<Rightarrow> Inl x | Inr fl' \<Rightarrow> fleet_run ee Q mac evs fl')"

text \<open>
  A turn of a controller's loop outside an exchange: the button does not fire the reset, the
  request the turn makes, if it makes one, fails, and it is not the fifteenth failure in a row.
\<close>

definition asks :: "commissioned_turn \<Rightarrow> 'q controller \<Rightarrow> bool" where
  "asks ct c \<longleftrightarrow> ct_wifi ct \<and> c_events c AND SEND_HEATER_STATE_REQ_EV \<noteq> 0"

definition calm_turn :: "commissioned_turn \<Rightarrow> 'q controller \<Rightarrow> bool" where
  "calm_turn ct c \<longleftrightarrow>
     \<not> snd (button_step (ct_button_low ct) (ct_button_now ct) (c_button c))
   \<and> (asks ct c \<longrightarrow> request_fails (ct_request ct))
   \<and> (if asks ct c then c_fail_count c + 1 else c_fail_count c) \<noteq> REQUEST_STATE_FAILURE_THRESHOLD"

text \<open>
  A calm event: a station's operation that returns and leaves the configuration as it is, an
  event of a controller, its turns as above, an exchange over a network that works, on a
  descriptor that is not in use.
\<close>

fun calm :: "fleet_event \<Rightarrow> ('q, 'e) fleet \<Rightarrow> bool" where
  "calm (Station_Event ev) fl =
     (event_ok ev (fl_station fl)
      \<and> (case do_event ev (fl_station fl) of Inl x \<Rightarrow> False | Inr (bs, _) \<Rightarrow> config_of bs = config_of (fl_station fl)))"
| "calm (Device_Event i ev) fl = (case ev of Turn ct \<Rightarrow> calm_turn ct (fst (fl_device fl i)) | _ \<Rightarrow> True)"
| "calm (Talk i x) fl = (network_ok x \<and> xe_fd x \<notin> set (conn_fds (fl_station fl)))"

fun calm_run :: "'e eeprom \<Rightarrow> 'q cpp_queue \<Rightarrow> (nat \<Rightarrow> byte list) \<Rightarrow> fleet_event list \<Rightarrow> ('q, 'e) fleet \<Rightarrow> bool" where
  "calm_run ee Q mac [] fl = True"
| "calm_run ee Q mac (ev # evs) fl =
     (calm ev fl \<and> (case fleet_step ee Q mac ev fl of Inl x \<Rightarrow> True | Inr fl' \<Rightarrow> calm_run ee Q mac evs fl'))"

text \<open>
  What calm events keep: the station's invariant and states, the controllers' commissioning,
  and the heater of every controller that drives the state the station holds for its name.
\<close>

definition fleet_inv :: "('q \<Rightarrow> error_record list) \<Rightarrow> (nat \<Rightarrow> string) \<Rightarrow> (string \<Rightarrow> heater_state) \<Rightarrow> nat set \<Rightarrow> ('q, 'e) fleet \<Rightarrow> bool" where
  "fleet_inv elems nm target done fl \<longleftrightarrow>
     station_inv (fl_station fl) \<and> requested_state (fl_station fl) = target
   \<and> (\<forall>i. commissioned_as elems (nm i) (fst (fl_device fl i)))
   \<and> (\<forall>i\<in>done. drives (fst (fl_device fl i)) (target (map toupper (nm i))))"

lemma calm_turn_fields:
  assumes "calm_turn ct (fst dev)"
  shows "c_settings (fst (fst (loop_commissioned ee Q ct dev))) = c_settings (fst dev)
    \<and> drives (fst (fst (loop_commissioned ee Q ct dev))) st = drives (fst dev) st"
proof -
  obtain c e where dev: "dev = (c, e)" by (cases dev)
  obtain b where b: "button_step (ct_button_low ct) (ct_button_now ct) (c_button c) = (b, False)"
    using assms by (cases "button_step (ct_button_low ct) (ct_button_now ct) (c_button c)") (simp add: calm_turn_def dev)
  show ?thesis
  proof (cases "asks ct c")
    case True
    let ?c1 = "c\<lparr>c_button := b, c_events := c_events c AND NOT SEND_HEATER_STATE_REQ_EV\<rparr>"
    have "request_fails (ct_request ct)" and n: "c_fail_count c + 1 \<noteq> REQUEST_STATE_FAILURE_THRESHOLD"
      using assms True by (simp_all add: calm_turn_def dev)
    then obtain code k where s: "send_request Q (ct_request ct) ?c1
        = request_failed Q code (rq_epoch (ct_request ct)) (?c1\<lparr>c_msg_counter := k\<rparr>)"
      using send_request_fails by blast
    have "fst (fst (loop_commissioned ee Q ct dev)) = send_request Q (ct_request ct) ?c1"
      using True n by (simp add: loop_commissioned_def dev b asks_def Let_def check_failures_def s request_failed_def)
    then show ?thesis by (simp add: s request_failed_def drives_def dev)
  next
    case False
    then have "fst (fst (loop_commissioned ee Q ct dev)) = c\<lparr>c_button := b\<rparr>"
      using assms by (auto simp: loop_commissioned_def dev b asks_def Let_def check_failures_def calm_turn_def)
    then show ?thesis by (simp add: drives_def dev)
  qed
qed

lemma device_step_drives:
  assumes "queue_ok MAX_ERROR_RECORDED elems Q" and "case ev of Turn ct \<Rightarrow> calm_turn ct (fst dev) | _ \<Rightarrow> True"
    and "commissioned_as elems n (fst dev)"
  shows "commissioned_as elems n (fst (device_step ee Q ev dev))"
    and "drives (fst (device_step ee Q ev dev)) st = drives (fst dev) st"
proof -
  have "controller_inv elems (fst dev)" using assms(3) by (simp add: commissioned_as_def)
  then have inv: "controller_inv elems (fst (device_step ee Q ev dev))" by (rule device_step_inv [OF assms(1)])
  have s: "c_settings (fst (device_step ee Q ev dev)) = c_settings (fst dev)
      \<and> drives (fst (device_step ee Q ev dev)) st = drives (fst dev) st"
  proof (cases ev)
    case (Turn ct)
    then show ?thesis using assms(2) calm_turn_fields [of ct dev ee Q st] by (simp add: device_step_def)
  qed (auto simp: device_step_def drives_def update_leds_def send_heater_state_req_callback_def wifi_connected_def
      wifi_disconnected_def Let_def split: led_state_t.splits)
  then show "commissioned_as elems n (fst (device_step ee Q ev dev))"
    and "drives (fst (device_step ee Q ev dev)) st = drives (fst dev) st"
    using inv assms(3) by (simp_all add: commissioned_as_def)
qed

definition talked :: "fleet_event \<Rightarrow> nat set" where
  "talked ev = (case ev of Talk i x \<Rightarrow> {i} | _ \<Rightarrow> {})"

lemma calm_step:
  assumes "queue_ok MAX_ERROR_RECORDED elems Q" and "\<forall>i. length (mac i) = 6"
    and "fleet_inv elems nm target D fl" and "calm ev fl"
  shows "\<exists>fl'. fleet_step ee Q mac ev fl = Inr fl' \<and> fleet_inv elems nm target (D \<union> talked ev) fl'"
proof (cases ev)
  case (Station_Event sev)
  then obtain bs e where d: "do_event sev (fl_station fl) = Inr (bs, e)" and c: "config_of bs = config_of (fl_station fl)"
    and ok: "event_ok sev (fl_station fl)" using assms(4) by (auto split: sum.splits)
  have "station_inv (fl_station fl)" using assms(3) by (simp add: fleet_inv_def)
  then have "station_inv bs" by (rule step_inv [OF _ ok d])
  then show ?thesis using Station_Event d config_requested [OF c] assms(3) by (simp add: fleet_inv_def talked_def)
next
  case (Device_Event i dev)
  let ?d = "fl_device fl i"
  have t: "case dev of Turn ct \<Rightarrow> calm_turn ct (fst ?d) | _ \<Rightarrow> True" using assms(4) Device_Event by simp
  have c: "commissioned_as elems (nm i) (fst ?d)" using assms(3) by (simp add: fleet_inv_def)
  note s = device_step_drives [OF assms(1) t c, of ee]
  from s show ?thesis using assms(3) Device_Event by (simp add: fleet_inv_def talked_def)
next
  case (Talk i x)
  have f: "station_inv (fl_station fl)" "requested_state (fl_station fl) = target" "commissioned_as elems (nm i) (fst (fl_device fl i))"
    using assms(3) by (simp_all add: fleet_inv_def)
  obtain dev bs where "talk ee Q x (mac i) (fl_device fl i) (fl_station fl) = Inr (dev, bs)"
    and d: "drives (fst dev) (target (map toupper (nm i)))" "commissioned_as elems (nm i) (fst dev)"
    and b: "station_inv bs" "config_of bs = config_of (fl_station fl)"
    using talk_ok [OF _ f(3) assms(1) _ f(1), of x "mac i" ee] assms(2,4) Talk f(2) by auto
  then show ?thesis using Talk config_requested [OF b(2)] assms(3) by (auto simp: fleet_inv_def talked_def)
qed

lemma calm_run_converges:
  assumes "queue_ok MAX_ERROR_RECORDED elems Q" and "\<forall>i. length (mac i) = 6"
    and "fleet_inv elems nm target D fl" and "calm_run ee Q mac evs fl"
  shows "\<exists>fl'. fleet_run ee Q mac evs fl = Inr fl' \<and> fleet_inv elems nm target (D \<union> (\<Union>ev\<in>set evs. talked ev)) fl'"
  using assms(3,4)
proof (induction evs arbitrary: fl D)
  case (Cons ev evs)
  obtain fl1 where s: "fleet_step ee Q mac ev fl = Inr fl1" and i: "fleet_inv elems nm target (D \<union> talked ev) fl1"
    using calm_step [OF assms(1,2) Cons.prems(1), of ev ee] Cons.prems(2) by auto
  have "calm_run ee Q mac evs fl1" using Cons.prems(2) s by simp
  then show ?case using Cons.IH [OF i] s by (simp add: Un_assoc)
qed simp

lemma calm_run_drives:
  assumes "queue_ok MAX_ERROR_RECORDED elems Q" and "\<forall>i. length (mac i) = 6" and "station_inv (fl_station fl)"
    and "\<forall>i. commissioned_as elems (nm i) (fst (fl_device fl i))" and "calm_run ee Q mac evs fl"
  shows "\<exists>fl'. fleet_run ee Q mac evs fl = Inr fl' \<and> requested_state (fl_station fl') = requested_state (fl_station fl)
    \<and> (\<forall>i x. Talk i x \<in> set evs \<longrightarrow> drives (fst (fl_device fl' i)) (requested_state (fl_station fl) (map toupper (nm i))))"
proof -
  let ?t = "requested_state (fl_station fl)" and ?D = "\<Union>ev\<in>set evs. talked ev"
  have "fleet_inv elems nm ?t {} fl" using assms(3,4) by (simp add: fleet_inv_def)
  then obtain fl' where r: "fleet_run ee Q mac evs fl = Inr fl'" and "fleet_inv elems nm ?t ({} \<union> ?D) fl'"
    using calm_run_converges [OF assms(1,2) _ assms(5)] by blast
  then have t: "requested_state (fl_station fl') = ?t"
    and d: "i \<in> ?D \<Longrightarrow> drives (fst (fl_device fl' i)) (?t (map toupper (nm i)))" for i
    unfolding fleet_inv_def by auto
  have "i \<in> ?D" if "Talk i x \<in> set evs" for i x using that by (force simp: talked_def)
  then show ?thesis using r t d by blast
qed

text \<open>C7: in any run of calm events of a station in a reachable state and its commissioned
  controllers, nothing fails, and every controller that has asked once drives the state the
  station holds for its name from then on, however the exchanges of the controllers, their
  timers and other turns and the station's operations are interleaved.\<close>

theorem fleet_converges:
  assumes "queue_ok MAX_ERROR_RECORDED elems Q" and "\<forall>i. length (mac i) = 6"
    and "station_reach (fl_station fl)" and "\<forall>i. commissioned_as elems (nm i) (fst (fl_device fl i))"
    and "calm_run ee Q mac evs fl"
  shows "\<exists>fl'. fleet_run ee Q mac evs fl = Inr fl' \<and> requested_state (fl_station fl') = requested_state (fl_station fl)
    \<and> (\<forall>i x. Talk i x \<in> set evs \<longrightarrow> drives (fst (fl_device fl' i)) (requested_state (fl_station fl) (map toupper (nm i))))"
  using reach_inv [OF assms(3)] by (intro calm_run_drives [OF assms(1,2) _ assms(4,5)])

text \<open>C2: the owner's messages reach the whole fleet: after a queue of heater commands, in any
  run of calm events every controller that asks once drives the state that the commands, run
  in order on the states of the names, leave for its own. Calm are, in any order: any operation
  of the station that returns and leaves the configuration as it is; the timers and the network
  events of the controllers and the turns of their loops outside an exchange, as long as the
  button does not fire the reset, a request they make fails and it is not the fifteenth failure
  in a row; and exchanges over a network that works.\<close>

theorem fleet_obeys:
  assumes "queue_ok MAX_ERROR_RECORDED elems Q" and "\<forall>i. length (mac i) = 6"
    and "station_reach bs" and "\<not> m_locked bs" and "queue_for (m_commands bs) ops"
    and "parseCommands cenv bs = Inr (fl_station fl, e)"
    and "\<forall>i. commissioned_as elems (nm i) (fst (fl_device fl i))" and "calm_run ee Q mac evs fl"
  shows "\<exists>fl'. fleet_run ee Q mac evs fl = Inr fl'
    \<and> (\<forall>i x. Talk i x \<in> set evs \<longrightarrow>
         drives (fst (fl_device fl' i)) (fold spec_step ops (requested_state bs) (map toupper (nm i))))"
proof -
  have inv: "station_inv bs" by (rule reach_inv [OF assms(3)])
  then have "config_inv bs" by (simp add: station_inv_def)
  then have t: "requested_state (fl_station fl) = fold spec_step ops (requested_state bs)"
    using parse_queue_refines [OF assms(5) _ assms(4), of cenv] assms(6) by (auto simp: parseCommands_def)
  have "station_inv (fl_station fl)" by (rule commands_inv [OF assms(6) inv])
  from calm_run_drives [OF assms(1,2) this assms(7,8)] show ?thesis unfolding t by blast
qed

text \<open>A network that delivers the bytes one by one.\<close>

definition sample_exchange :: exchange_env where
  "sample_exchange = \<lparr>xe_fd = 9, xe_now = 0, xe_conn = sample_conn_env, xe_cut = map (\<lambda>b. [b]),
     xe_turn = (sample_turn True)\<lparr>ct_request := sample_request\<lparr>rq_connect := \<lambda>_. True\<rparr>\<rparr>\<rparr>"

lemma first_attempt: "connect 0 \<Longrightarrow> try_connect connect 0 CONNECTION_MAX_ATTEMPT"
  by (simp add: CONNECTION_MAX_ATTEMPT_def numeral_eq_Suc)

lemma sample_exchange_ok: "network_ok sample_exchange" "xe_fd sample_exchange = 9"
proof -
  have "concat (map (\<lambda>b. [b]) bs) = bs" for bs :: "byte list" by (induction bs) simp_all
  then show "network_ok sample_exchange" "xe_fd sample_exchange = 9"
    by (auto simp: network_ok_def sample_exchange_def cuts_def sample_conn_env_def sample_turn_def sample_request_def
        first_attempt HEATER_STATE_TIMEOUT_def Let_def takes_bytes_def)
qed

lemma sample_commissioned: "commissioned_as (\<lambda>q. q) ''DESK'' sample_controller"
proof -
  have s: "c_settings sample_controller = sample_settings"
    by (simp add: sample_controller_def setup_commissioned_def Let_def sample_check)
  have "st_name sample_settings = map (\<lambda>c. of_nat (of_char c)) ''DESK'' @ 0 # replicate 27 0"
    unfolding sample_settings_fields(3) by (simp add: numeral_eq_Suc)
  moreover have "check_heater_name ''DESK''" by code_simp
  ultimately show ?thesis
    by (auto simp: commissioned_as_def s sample_settings_fields(1,2) controller_inv_def sample_controller_fields pins_of_def
        MAX_ERROR_RECORDED_def)
qed

definition sample_mac :: "nat \<Rightarrow> byte list" where
  "sample_mac i = [10, 11, 12, 13, 14, of_nat i]"

definition sample_events :: "fleet_event list" where
  "sample_events = [Station_Event (Sms_In ''33102030405'' ''Ping''), Device_Event 0 Wifi_Up,
     Device_Event 0 (Turn (sample_turn True)), Talk 0 sample_exchange]"

lemma sample_talks: "Talk 0 sample_exchange \<in> set sample_events"
  by (simp add: sample_events_def)

lemma sample_turn_calm: "c_fail_count c = 0 \<Longrightarrow> calm_turn (sample_turn w) c"
proof -
  have "\<not> try_connect (\<lambda>_. False) 0 CONNECTION_MAX_ATTEMPT" by (simp add: CONNECTION_MAX_ATTEMPT_def numeral_eq_Suc)
  then have "request_fails sample_request" by (simp add: request_fails_def sample_request_def)
  then show "c_fail_count c = 0 \<Longrightarrow> calm_turn (sample_turn w) c"
    by (simp add: calm_turn_def sample_turn_def button_step_def REQUEST_STATE_FAILURE_THRESHOLD_def)
qed

lemma sample_calm:
  assumes "m_connections (fl_station fl) = []" and "c_fail_count (fst (fl_device fl 0)) = 0"
  shows "calm_run ee Q mac sample_events fl"
proof -
  have "c_fail_count (fst (device_step ee Q Wifi_Up (fl_device fl 0))) = 0"
    using assms(2) by (simp add: device_step_def wifi_connected_def)
  note c = sample_turn_calm [OF this, of True]
  show ?thesis using assms(1)
    by (simp add: sample_events_def event_ok_def handleSMSCommand_def config_of_def conn_fds_def sample_exchange_ok c split: sum.split)
qed

lemma fleet_converges_witness:
  "\<exists>bs fl'. fleet_run sample_eeprom (list_queue MAX_ERROR_RECORDED) sample_mac sample_events
      \<lparr>fl_station = bs, fl_device = \<lambda>_. (sample_controller, blank)\<rparr> = Inr fl'
    \<and> drives (fst (fl_device fl' 0)) (requested_state bs (map toupper ''DESK''))"
proof -
  obtain bs where b: "station_reach bs" "m_connections bs = []" using station_reach_sample by blast
  let ?fl = "\<lparr>fl_station = bs, fl_device = \<lambda>_. (sample_controller, blank)\<rparr>"
  have "\<exists>fl'. fleet_run sample_eeprom (list_queue MAX_ERROR_RECORDED) sample_mac sample_events ?fl = Inr fl'
      \<and> requested_state (fl_station fl') = requested_state (fl_station ?fl)
      \<and> (\<forall>i x. Talk i x \<in> set sample_events \<longrightarrow>
           drives (fst (fl_device fl' i)) (requested_state (fl_station ?fl) (map toupper ''DESK'')))"
    using b sample_commissioned sample_controller_fields(1) sample_calm [of ?fl]
    by (intro fleet_converges [OF list_queue_ok]) (simp_all add: sample_mac_def)
  then show ?thesis using sample_talks by (elim exE conjE) (intro exI conjI, assumption, fastforce)
qed

lemma fleet_obeys_witness:
  "\<exists>bs bs' e fl'. parseCommands (\<lambda>_. sample_env) (handleSMSCommand ''33102030405'' ''all eco'' bs) = Inr (bs', e)
    \<and> fleet_run sample_eeprom (list_queue MAX_ERROR_RECORDED) sample_mac sample_events
        \<lparr>fl_station = bs', fl_device = \<lambda>_. (sample_controller, blank)\<rparr> = Inr fl'
    \<and> drives (fst (fl_device fl' 0)) HEATER_ECO"
proof -
  obtain bs where b: "station_reach bs" "m_connections bs = []" "m_commands bs = []" "\<not> m_locked bs"
    using station_reach_sample by blast
  let ?b = "handleSMSCommand ''33102030405'' ''all eco'' bs"
  have n: "normalise ''all eco'' = ''ALL ECO''" by code_simp
  have q: "queue_for (m_commands ?b) [Set_All HEATER_ECO]" by (simp add: queue_for_def handleSMSCommand_def b(3) n)
  have r: "station_reach ?b"
    by (rule later [OF b(1) step [of "Sms_In ''33102030405'' ''all eco''"]]) (simp_all add: event_ok_def)
  have l: "\<not> m_locked ?b" using b(4) by (simp add: handleSMSCommand_def)
  have i: "config_inv ?b" using reach_inv [OF r] by (simp add: station_inv_def)
  obtain bs' e where p: "parseCommands (\<lambda>_. sample_env) ?b = Inr (bs', e)"
    and "m_connections bs' = m_connections ?b"
    using parse_queue_ok [OF i refl, of "\<lambda>_. sample_env"] by (auto simp: parseCommands_def elim: result_okE)
  then have c: "m_connections bs' = []" using b(2) by (simp add: handleSMSCommand_def)
  let ?fl = "\<lparr>fl_station = bs', fl_device = \<lambda>_. (sample_controller, blank)\<rparr>"
  have "\<exists>fl'. fleet_run sample_eeprom (list_queue MAX_ERROR_RECORDED) sample_mac sample_events ?fl = Inr fl'
      \<and> (\<forall>i x. Talk i x \<in> set sample_events \<longrightarrow>
           drives (fst (fl_device fl' i)) (fold spec_step [Set_All HEATER_ECO] (requested_state ?b) (map toupper ''DESK'')))"
    using p c sample_commissioned sample_controller_fields(1) sample_calm [of ?fl]
    by (intro fleet_obeys [OF list_queue_ok _ r l q]) (simp_all add: sample_mac_def)
  then show ?thesis using p sample_talks by (elim exE conjE) (intro exI conjI, assumption, assumption, fastforce)
qed

end
