(* ===== verification/Webpage.thy ===== *)
theory Webpage
  imports Monitors Commands
begin

text \<open>
  The status page of \<open>buildWebpage\<close>, which the web server's callback returns for every request.
  What it shows of the system (versions, uptime, machine, address, modem, daemon, the local
  format of a time) is the record \<open>page_env\<close>.
\<close>

record page_env =
  pe_git_hash :: string
  pe_build_time :: string
  pe_sysinfo :: "int option"
  pe_uname :: "(string \<times> string \<times> string \<times> string \<times> string) option"
  pe_ip :: "string option"
  pe_modem :: modem_env
  pe_proc :: "(int \<times> stat_file) list option"
  pe_localtime :: "int \<Rightarrow> string"

definition get_machineinfo_str :: "(string \<times> string \<times> string \<times> string \<times> string) option \<Rightarrow> string" where
  "get_machineinfo_str u =
     (case u of
        None \<Rightarrow> ''unknown''
      | Some (sysname, nodename, release, version, machine) \<Rightarrow>
          sysname @ ''-'' @ nodename @ ''-'' @ release @ ''-'' @ version @ ''-'' @ machine)"

text \<open>\<open>ip\<close>: the address \<open>SIOCGIFADDR\<close> gives, printed; \<open>None\<close> when the socket or the call fails.\<close>

definition get_ip_address_str :: "string option \<Rightarrow> string" where
  "get_ip_address_str ip = (case ip of None \<Rightarrow> ''unknown'' | Some a \<Rightarrow> a)"

definition red :: "string \<Rightarrow> string" where
  "red t = ''<span style='' @ [DQ] @ ''color:red'' @ [DQ] @ ''>'' @ t @ ''</span>''"

fun modem_status_html :: "modem_status_t \<Rightarrow> string" where
  "modem_status_html MODEM_COMS_FAILURE = red ''comms failure''"
| "modem_status_html MODEM_SIM_ERROR = red ''SIM card error''"
| "modem_status_html MODEM_NETWORK_NOT_REGISTERED = ''<p style='' @ [DQ] @ ''color:red'' @ [DQ] @ ''>not registered</span>''"
| "modem_status_html MODEM_NETWORK_DENIED = red ''denied''"
| "modem_status_html MODEM_NETWORK_REGISTERED = ''OK''"
| "modem_status_html MODEM_NETWORK_SEARCHING = ''connecting''"
| "modem_status_html MODEM_NETWORK_UNKNOWN = red ''unknown''"
| "modem_status_html MODEM_NETWORK_ROAMING = ''roaming''"

definition page_head :: string where
  "page_head = ''<html><head>'' @ ''        <style>'' @ ''        table, td, th {''
     @ ''        border: 1px solid black;'' @ ''        }'' @ ''        table {''
     @ ''        width: 100%;'' @ ''        border-collapse: collapse;'' @ ''        }''
     @ ''        </style>'' @ ''        <title>Base station</title>'' @ ''        </head><body>''"

text \<open>One row of the table: \<open>%02X\<close> of the six bytes of the key.\<close>

definition heater_row :: "(int \<Rightarrow> string) \<Rightarrow> u64 \<times> heater \<Rightarrow> string" where
  "heater_row localtime e =
     (case e of (mac, h) \<Rightarrow>
        ''<tr>''
        @ (if getName h \<noteq> [] then ''<td>'' @ getName h @ ''</td>'' else ''<td>?</td>'')
        @ ''<td>'' @ macToStr (u64_to_mac mac) @ ''</td>''
        @ ''<td><a href='' @ [DQ] @ ''http://'' @ getLastIPAddress h @ [DQ] @ ''>'' @ getLastIPAddress h @ ''</a></td>''
        @ ''<td>'' @ state_label (getState h) @ ''</td>''
        @ ''<td>'' @ localtime (getLastRequestTimestamp h) @ ''</td>''
        @ ''</tr>'')"

definition page_info :: "page_env \<Rightarrow> string" where
  "page_info env =
     ''<h1>Base station</h1>'' @ ''<h2>Device information</h2>''
     @ ''Software version: '' @ get_version_str (pe_git_hash env) (pe_build_time env) @ ''<br>''
     @ ''Uptime: '' @ get_uptime_str (pe_sysinfo env) @ ''<br>''
     @ ''Machine info: '' @ get_machineinfo_str (pe_uname env) @ ''<br>''
     @ ''IP address: '' @ get_ip_address_str (pe_ip env) @ ''<br>''
     @ ''3G module detected: '' @ (if me_present (pe_modem env) then ''yes'' else red ''no'') @ ''<br>''
     @ (if me_present (pe_modem env)
        then ''3G module network status: '' @ modem_status_html (check_3g_connection (pe_modem env)) else [])
     @ ''<br>''
     @ (if is_process_running (pe_proc env) ''smsd'' then ''SMS daemon: running''
        else ''SMS daemon: '' @ red ''not running'')"

definition buildWebpage :: "page_env \<Rightarrow> base_station \<Rightarrow> string" where
  "buildWebpage env bs =
     page_head @ page_info env
     @ ''<h2>Heaters</h2>'' @ ''Default heater state: '' @ state_label (m_heater_default_state bs) @ ''<br>''
     @ ''<table>'' @ ''<tr>'' @ ''<th>Name</th>'' @ ''<th>MAC address</th>'' @ ''<th>IP address</th>''
     @ ''<th>State</th>'' @ ''<th>Last request timestamp</th>'' @ ''</tr>''
     @ concat (map (heater_row (pe_localtime env)) (m_heaters bs))
     @ ''</table>'' @ ''</body></html>''"

section \<open>Serving the page\<close>

text \<open>
  \<open>answerConnection\<close>: whatever is requested, the page is copied as a C string into a block of its
  length and one, which held \<open>garbage\<close>, and its length is served from there.
\<close>

definition answerConnection :: "string \<Rightarrow> page_env \<Rightarrow> base_station \<Rightarrow> string" where
  "answerConnection garbage env bs =
     (let page = buildWebpage env bs;
          copied = c_str page @ [CHR 0x00];
          buf = copied @ drop (length copied) garbage
      in take (length page) buf)"

end
