(* ===== verification/Web_Props.thy ===== *)
theory Web_Props
  imports Station Webpage
begin

text \<open>
  What is served of the status page: the page as it was built, with nothing in its table that
  a device could have slipped in.
\<close>

text \<open>Text without the characters that end a C string or mean something in HTML.\<close>

definition inert :: "string \<Rightarrow> bool" where
  "inert s \<longleftrightarrow> CHR 0x00 \<notin> set s \<and> CHR ''<'' \<notin> set s \<and> CHR ''>'' \<notin> set s \<and> CHR ''&'' \<notin> set s \<and> DQ \<notin> set s"

lemma inert_append [simp]: "inert (s @ t) \<longleftrightarrow> inert s \<and> inert t"
  by (auto simp: inert_def)

lemma inert_no_nul: "inert s \<Longrightarrow> CHR 0x00 \<notin> set s"
  by (simp add: inert_def)

lemma inert_alnum: "\<forall>c\<in>set s. is_alnum c \<Longrightarrow> inert s"
  by (auto simp: inert_def is_alnum_def less_eq_char_def)

lemma inert_dec [simp]: "inert (dec n)"
  using dec_digits [of _ n] digit_alnum by (intro inert_alnum) blast

lemma hex_digit_alnum: "n < 16 \<Longrightarrow> is_alnum (hex_digit n)"
  by (auto simp: hex_digit_def is_alnum_def less_eq_char_def)

lemma inert_hex2 [simp]: "inert (hex2 b)"
proof -
  have "unat b < 256" using unsigned_less [of b] by simp
  then have "is_alnum (hex_digit (unat b div 16))" "is_alnum (hex_digit (unat b mod 16))"
    by (auto intro!: hex_digit_alnum simp: less_mult_imp_div_less)
  then show ?thesis by (intro inert_alnum) (simp add: hex2_def)
qed

lemma inert_macToStr [simp]: "inert (macToStr mac)"
proof -
  have "inert '':''" by (simp add: inert_def)
  then show ?thesis by (simp only: macToStr_def inert_append inert_hex2 simp_thms)
qed

lemma inert_state_label [simp]: "inert (state_label st)"
  by (cases st) (simp_all add: inert_def)

text \<open>What the page is given by the system is inert, as are the addresses of \<open>inet_ntoa\<close>.\<close>

definition inert_env :: "page_env \<Rightarrow> base_station \<Rightarrow> bool" where
  "inert_env env bs \<longleftrightarrow> inert (pe_git_hash env) \<and> inert (pe_build_time env)
     \<and> (\<forall>a b c d e. pe_uname env = Some (a, b, c, d, e) \<longrightarrow> inert a \<and> inert b \<and> inert c \<and> inert d \<and> inert e)
     \<and> (\<forall>a. pe_ip env = Some a \<longrightarrow> inert a) \<and> (\<forall>t. inert (pe_localtime env t))
     \<and> (\<forall>e\<in>set (m_heaters bs). inert (getLastIPAddress (snd e)))"

lemma inert_name:
  assumes "device_inv bs" and "e \<in> set (m_heaters bs)"
  shows "inert (getName (snd e))"
proof -
  have "getName (snd e) = [] \<or> stored_name (getName (snd e))" using assms by (simp add: device_inv_def)
  moreover have "inert []" by (simp add: inert_def)
  ultimately show ?thesis using inert_alnum by (auto simp: stored_name_def check_name_iff)
qed

text \<open>How many tags open in a text.\<close>

abbreviation opens :: "string \<Rightarrow> nat" where "opens s \<equiv> count_list s (CHR ''<'')"

lemma opens_inert [simp]: "inert s \<Longrightarrow> opens s = 0"
  by (simp add: inert_def count_list_0_iff)

lemma heater_row_opens:
  assumes "inert (getName h)" and "inert (getLastIPAddress h)" and "\<forall>t. inert (lt t)"
  shows "opens (heater_row lt (mac, h)) = 14 \<and> CHR 0x00 \<notin> set (heater_row lt (mac, h))"
  using assms inert_no_nul by (simp add: heater_row_def)

lemma page_no_nul:
  assumes "inert_env env bs" and "device_inv bs"
  shows "CHR 0x00 \<notin> set (buildWebpage env bs)"
proof -
  have "CHR 0x00 \<notin> set (heater_row (pe_localtime env) e)" if "e \<in> set (m_heaters bs)" for e
    using heater_row_opens [of "snd e" "pe_localtime env" "fst e"] inert_name [OF assms(2) that] assms(1) that
    by (simp add: inert_env_def)
  moreover have "CHR 0x00 \<notin> set page_head" by code_simp
  moreover have "CHR 0x00 \<notin> set (page_info env)"
  proof -
    have d: "CHR 0x00 \<notin> set (dec n)" for n using inert_dec [of n] by (simp add: inert_def)
    have "CHR 0x00 \<notin> set (modem_status_html m)" for m by (cases m) (simp_all add: red_def)
    moreover have "CHR 0x00 \<notin> set (get_uptime_str s)" for s
      by (simp add: get_uptime_str_def Let_def d split: option.split)
    moreover have "CHR 0x00 \<notin> set (get_machineinfo_str (pe_uname env))"
      using assms(1) by (auto simp: get_machineinfo_str_def inert_env_def inert_def split: option.split)
    moreover have "CHR 0x00 \<notin> set (get_ip_address_str (pe_ip env))"
      using assms(1) by (auto simp: get_ip_address_str_def inert_env_def inert_def split: option.split)
    moreover have "CHR 0x00 \<notin> set (get_version_str (pe_git_hash env) (pe_build_time env))"
      using assms(1) by (simp add: get_version_str_def inert_env_def inert_def)
    ultimately show ?thesis by (simp add: page_info_def red_def)
  qed
  moreover have "CHR 0x00 \<notin> set (state_label st)" for st using inert_state_label [of st] by (simp add: inert_def)
  ultimately show ?thesis by (simp add: buildWebpage_def)
qed

text \<open>C29: in every reachable state the web server serves the page as it was built, whatever was in
  the memory it is copied to, and no device adds a tag to its table: a row opens fourteen,
  whatever name the device has sent.\<close>

theorem status_page_inert:
  assumes "station_reach bs" and "inert_env env bs"
  shows "answerConnection garbage env bs = buildWebpage env bs
    \<and> opens (concat (map (heater_row (pe_localtime env)) (m_heaters bs))) = 14 * length (m_heaters bs)"
proof -
  have inv: "device_inv bs" using reach_inv [OF assms(1)] by (simp add: station_inv_def)
  have "c_str (buildWebpage env bs) = buildWebpage env bs" using page_no_nul [OF assms(2) inv] by (rule c_str_id)
  moreover have "opens (concat (map (heater_row (pe_localtime env)) es)) = 14 * length es" if "set es \<subseteq> set (m_heaters bs)" for es
    using that
  proof (induction es)
    case (Cons e es)
    then show ?case
      using heater_row_opens [of "snd e" "pe_localtime env" "fst e"] inert_name [OF inv, of e] assms(2)
      by (auto simp: inert_env_def)
  qed simp
  ultimately show ?thesis by (simp add: answerConnection_def Let_def)
qed

text \<open>A station that has a device, and what the system tells its page.\<close>

definition sample_page :: page_env where
  "sample_page = \<lparr>pe_git_hash = ''abc1234'', pe_build_time = ''today'', pe_sysinfo = Some 123456,
     pe_uname = Some (''Linux'', ''station'', ''5.10'', ''1'', ''armv7l''), pe_ip = Some ''192.168.1.2'', pe_modem = sample_modem,
     pe_proc = Some [(1, Stat_Name ''init''), (77, Stat_Name ''smsd'')], pe_localtime = (\<lambda>_. ''2024-01-01 12:00:00 UTC'')\<rparr>"

lemma station_with_device:
  "\<exists>bs mac h. station_reach bs \<and> m_heaters bs = [(mac, h)] \<and> getLastIPAddress h = ''192.168.1.40''"
proof -
  obtain bs e where b: "base_station_new (\<lambda>k. int k + 3) 7 True (Some (save_text (station_init None))) = Inr (bs, e)"
    using station_start_sample by blast
  have r: "station_reach bs" by (rule start [OF b])
  have c: "m_connections bs = []" "m_heaters bs = []" using base_station_new_state [OF b] by auto
  let ?b = "handleNewDevice 0 9 bs"
  define data where "data = request_data [10, 11, 12, 13, 14, 15] 77 [72, 97, 76, 76] 0xFF (replicate 43 0xFF)"
  define env where "env = sample_conn_env\<lparr>ce_read := \<lambda>_ _. Rd_Bytes data\<rparr>"
  define raw where "raw = name_of_bytes [72, 97, 76, 76]"
  let ?conn = "\<lparr>dc_fd = 9, dc_last_seen = 0\<rparr>"
  have r2: "station_reach ?b"
    by (rule later [OF r step [of "New_Device 0 9"]]) (simp_all add: event_ok_def conn_fds_def c)
  have cs: "m_connections ?b = [?conn]" "m_heaters ?b = []" by (simp_all add: handleNewDevice_def c)
  have "length data = 64"
    using header_codec.length_enc by (simp add: data_def request_data_def header_ok_def)
  then have rd: "read_loop (ce_read env 9) 0 [] = Read_Message data"
    using read_loop_chunks [of "[data]" "[]" data "[]" "\<lambda>_. Rd_Bytes data" 0] by (force simp: env_def MESSAGE_SIZE_def)
  have p: "parse_header data = \<lparr>hd_version = 1, hd_type = REQ_HEATER_STATE, hd_mac_addr = [10, 11, 12, 13, 14, 15], hd_counter = 77\<rparr>"
    "parse_name (drop header_size data) = Some raw"
    unfolding data_def raw_def by (rule request_data_reads; simp add: name_end_def)+
  have w: "write_loop (ce_write env 9) 0 MESSAGE_SIZE 0 = Wrote MESSAGE_SIZE"
    using write_loop_all [OF sample_takes_bytes] by (simp add: env_def)
  obtain bs1 c1 e1 where m: "parseMessage env ?conn data ?b = Inr ((bs1, c1), e1)"
    and b1: "bs1 = after_request env 9 (parse_header data) raw ?b"
    using parse_request [OF _ _ p(2), of env ?conn ?b] p(1) w by simp
  have h: "m_heaters bs1 = [(mac_to_u64 [10, 11, 12, 13, 14, 15], request_heater env 9 raw ?b)]"
    unfolding b1 after_request_def p(1) by (simp add: cs)
  have "ce_readable env 9" by (simp add: env_def sample_conn_env_def)
  then have "do_event (Do_Connections 1 env) ?b = Inr (bs1\<lparr>m_connections := [c1]\<rparr>, e1)"
    using rd m by (simp add: handleConnections_def handle_connection_def cs)
  then have "station_reach (bs1\<lparr>m_connections := [c1]\<rparr>)"
    by (intro later [OF r2 step [of "Do_Connections 1 env"]]) (simp_all add: event_ok_def)
  moreover have "getLastIPAddress (request_heater env 9 raw ?b) = ''192.168.1.40''"
    by (simp add: request_heater_def heater_update_def heater_new_def getLastIPAddress_def)
       (simp add: env_def sample_conn_env_def)
  moreover have "m_heaters (bs1\<lparr>m_connections := [c1]\<rparr>) = m_heaters bs1" by simp
  ultimately show ?thesis using h by metis
qed

lemma status_page_inert_witness:
  "\<exists>bs. station_reach bs \<and> length (m_heaters bs) = 1
    \<and> answerConnection (replicate 4000 CHR ''x'') sample_page bs = buildWebpage sample_page bs
    \<and> opens (concat (map (heater_row (pe_localtime sample_page)) (m_heaters bs))) = 14"
proof -
  obtain bs mac h where r: "station_reach bs" and h: "m_heaters bs = [(mac, h)]" "getLastIPAddress h = ''192.168.1.40''"
    using station_with_device by blast
  have "inert_env sample_page bs" by (simp add: inert_env_def sample_page_def h) (simp add: inert_def)
  from status_page_inert [OF r this] r h show ?thesis by auto
qed

end
