(* ===== verification/FW_Sketch.thy ===== *)
theory FW_Sketch
  imports FW_Props
begin

text \<open>
  The sketch \<open>heater_firmware.ino\<close>: \<open>setup\<close> picks the mode by what is in the EEPROM, \<open>loop\<close> runs
  it, and everything that restarts the chip (a registration, a factory reset by button or by
  the web page, settings that fail their check, a power cut) leads back to \<open>setup\<close>. The two
  modes of the firmware become one state machine, whose only memory across restarts is the
  EEPROM.
\<close>

section \<open>The state machine\<close>

text \<open>A chip that is about to run \<open>setup\<close>, or that runs \<open>loop\<close> in one of the modes.\<close>

datatype ('e, 'q) sketch =
    Booting 'e
  | Commissioned "'q controller" 'e
  | Uncommissioned uncommissioned settings_t 'e

text \<open>\<open>setup\<close>: \<open>rnd\<close> is the random number for the counter of the messages, \<open>q0\<close> the empty queue of errors.\<close>

definition sketch_setup :: "'e eeprom \<Rightarrow> 'q \<Rightarrow> u64 \<Rightarrow> 'e \<Rightarrow> ('e, 'q) sketch" where
  "sketch_setup ee q0 rnd e =
     (case settings_load ee e of (commissioned, s, e1) \<Rightarrow>
        if commissioned then
          (case setup_commissioned ee q0 rnd s e1 of ((c, e2), restart) \<Rightarrow>
             if restart then Booting (ee_restart ee e2) else Commissioned c e2)
        else Uncommissioned setup_uncommissioned s e1)"

text \<open>The handler of \<open>/unregister\<close>, which ends in a restart.\<close>

definition unregister_handler :: "'e eeprom \<Rightarrow> 'e \<Rightarrow> settings_t \<times> 'e" where
  "unregister_handler ee e = settings_erase ee e"

text \<open>
  What happens to a chip: \<open>setup\<close> runs, a ticker or the network interrupts the commissioned
  mode (a \<open>Turn\<close> there is a turn of \<open>loop\<close>), a page is requested, the uncommissioned mode turns,
  the power is cut. The null pointer of a form without a base station is taken to crash the
  chip, which restarts it. An event of the other mode does not occur.
\<close>

datatype sketch_event =
    Boot u64
  | On_Device device_event
  | On_Unregister
  | On_Register "string option" "string option" "string option" "string option" u32
  | On_Turn turn
  | Power_Cut

fun sketch_step :: "'e eeprom \<Rightarrow> 'q cpp_queue \<Rightarrow> 'q \<Rightarrow> (string \<Rightarrow> nat \<Rightarrow> byte list) \<Rightarrow> sketch_event \<Rightarrow> ('e, 'q) sketch \<Rightarrow> ('e, 'q) sketch" where
  "sketch_step ee Q q0 tca (Boot rnd) (Booting e) = sketch_setup ee q0 rnd e"
| "sketch_step ee Q q0 tca (On_Device (Turn ct)) (Commissioned c e) =
     (case loop_commissioned ee Q ct (c, e) of ((c', e'), restart) \<Rightarrow>
        if restart then Booting (ee_restart ee e') else Commissioned c' e')"
| "sketch_step ee Q q0 tca (On_Device ev) (Commissioned c e) =
     Commissioned (fst (device_step ee Q ev (c, e))) e"
| "sketch_step ee Q q0 tca On_Unregister (Commissioned c e) =
     (case unregister_handler ee e of (s, e') \<Rightarrow> Booting (ee_restart ee e'))"
| "sketch_step ee Q q0 tca (On_Register n s p b now) (Uncommissioned u st e) =
     (case register_handler n s p b now u of
        Inl _ \<Rightarrow> Booting (ee_restart ee e)
      | Inr (u', page) \<Rightarrow> Uncommissioned u' st e)"
| "sketch_step ee Q q0 tca (On_Turn tu) (Uncommissioned u st e) =
     (case loop_uncommissioned ee tca tu (u, st, e) of ((u', st', e'), restart) \<Rightarrow>
        if restart then Booting (ee_restart ee e') else Uncommissioned u' st' e')"
| "sketch_step ee Q q0 tca Power_Cut (Booting e) = Booting e"
| "sketch_step ee Q q0 tca Power_Cut (Commissioned c e) = Booting (ee_restart ee e)"
| "sketch_step ee Q q0 tca Power_Cut (Uncommissioned u st e) = Booting (ee_restart ee e)"
| "sketch_step ee Q q0 tca _ st = st"

text \<open>The settings a start of the chip would load, and those in the memory of the state machine.\<close>

definition loads :: "'e eeprom \<Rightarrow> 'e \<Rightarrow> settings_t option" where
  "loads ee e = (case settings_load ee e of (valid, s, _) \<Rightarrow> if valid then Some s else None)"

fun sketch_memory :: "'e eeprom \<Rightarrow> ('e, 'q) sketch \<Rightarrow> settings_t option" where
  "sketch_memory ee (Booting e) = loads ee e"
| "sketch_memory ee (Commissioned c e) = loads ee (ee_restart ee e)"
| "sketch_memory ee (Uncommissioned u st e) = loads ee (ee_restart ee e)"

section \<open>What a restart loads\<close>

lemma loads_cong:
  assumes "\<And>j. j < SETTINGS_SIZE \<Longrightarrow> ee_read ee j (ee_begin ee EEPROM_LEN e) = ee_read ee j (ee_begin ee EEPROM_LEN e')"
  shows "loads ee e = loads ee e'"
proof -
  have "map (\<lambda>addr. ee_read ee addr (ee_begin ee EEPROM_LEN e)) [0..<SETTINGS_SIZE]
      = map (\<lambda>addr. ee_read ee addr (ee_begin ee EEPROM_LEN e')) [0..<SETTINGS_SIZE]"
    using assms by simp
  then show ?thesis by (simp only: loads_def settings_load_def Let_def) (simp split: if_splits)
qed

lemma in_eeprom: "j < SETTINGS_SIZE \<Longrightarrow> j < EEPROM_LEN"
  by (simp add: SETTINGS_SIZE_def EEPROM_LEN_def)

lemma loads_again:
  assumes "eeprom_ok EEPROM_LEN ee" and "settings_load ee e = (valid, s, e1)"
  shows "loads ee (ee_restart ee e1) = loads ee e" "loads ee e = (if valid then Some s else None)"
    "\<not> valid \<Longrightarrow> s = settings_zero"
proof -
  have "e1 = ee_begin ee EEPROM_LEN e" using assms(2) by (auto simp: settings_load_def Let_def split: if_splits)
  then show "loads ee (ee_restart ee e1) = loads ee e"
    using assms(1) by (intro loads_cong) (simp add: eeprom_ok_def in_eeprom)
  show "loads ee e = (if valid then Some s else None)" by (simp add: loads_def assms(2))
  show "\<not> valid \<Longrightarrow> s = settings_zero" using assms(2) by (auto simp: settings_load_def Let_def split: if_splits)
qed

lemma loads_erased:
  assumes "eeprom_ok EEPROM_LEN ee"
  shows "loads ee (ee_restart ee (eeprom_erase ee e)) = None"
proof -
  let ?w = "fold (\<lambda>i. ee_write ee i 0xFF) [0..<EEPROM_LEN] e"
  have "ee_read ee j (ee_begin ee EEPROM_LEN (ee_restart ee (ee_commit ee ?w))) = 0xFF" if "j < EEPROM_LEN" for j
    using assms that fold_writes [OF assms order_refl that, of "\<lambda>_. 0xFF" e] by (simp add: eeprom_ok_def)
  then have m: "map (\<lambda>addr. ee_read ee addr (ee_begin ee EEPROM_LEN (ee_restart ee (eeprom_erase ee e)))) [0..<SETTINGS_SIZE]
      = replicate SETTINGS_SIZE 0xFF"
    by (intro nth_equalityI) (simp_all add: eeprom_erase_def in_eeprom)
  have "\<not> is_valid (bytes_settings (replicate SETTINGS_SIZE 0xFF))" by code_simp
  then show ?thesis by (simp add: loads_def settings_load_def Let_def m)
qed

lemma loads_created:
  assumes "eeprom_ok EEPROM_LEN ee" and "settings_create ee tca n s p b e = (st, e')"
    and "settings_ok st" and "is_valid st"
  shows "loads ee (ee_restart ee e') = Some st"
  using load_created [OF assms] by (auto simp: loads_def)

section \<open>The invariant of the state machine\<close>

text \<open>
  In the commissioned mode the settings are those a restart would load, and passed their
  check; the device is well and drives its pins. In the other mode a restart would load
  nothing and the pins are inputs.
\<close>

fun sketch_inv :: "'e eeprom \<Rightarrow> ('q \<Rightarrow> error_record list) \<Rightarrow> ('e, 'q) sketch \<Rightarrow> bool" where
  "sketch_inv ee elems (Booting e) = True"
| "sketch_inv ee elems (Commissioned c e) =
     (controller_inv elems c \<and> settings_check (c_settings c) \<and> loads ee (ee_restart ee e) = Some (c_settings c)
      \<and> c_pin_mode c POSITIVE_OUTPUT_PIN = Some OUTPUT \<and> c_pin_mode c NEGATIVE_OUTPUT_PIN = Some OUTPUT)"
| "sketch_inv ee elems (Uncommissioned u st e) =
     (loads ee (ee_restart ee e) = None
      \<and> u_pin_mode u POSITIVE_OUTPUT_PIN = Some INPUT \<and> u_pin_mode u NEGATIVE_OUTPUT_PIN = Some INPUT)"

lemma setup_inv:
  assumes "eeprom_ok EEPROM_LEN ee" and "elems q0 = []"
  shows "sketch_inv ee elems (sketch_setup ee q0 rnd e)"
proof -
  obtain valid s e1 where l: "settings_load ee e = (valid, s, e1)" by (metis prod.collapse)
  note a = loads_again [OF assms(1) l]
  show ?thesis
    using a assms(2)
    by (auto simp: sketch_setup_def l setup_commissioned_def setup_uncommissioned_def Let_def pin_defs
        controller_inv_def apply_heater_state_def DEFAULT_HEATER_STATE_def split: prod.split)
qed

lemma kept_fields [simp]:
  "c_settings (send_request Q env c) = c_settings c" "c_pin_mode (send_request Q env c) = c_pin_mode c"
  "c_settings (check_failures c) = c_settings c" "c_pin_mode (check_failures c) = c_pin_mode c"
  by (simp_all add: send_request_def handle_reply_def request_failed_def check_failures_def apply_heater_state_def Let_def)

lemma turn_keeps:
  assumes "loop_commissioned ee Q ct (c, e) = ((c', e'), restart)" and "\<not> restart"
  shows "c_settings c' = c_settings c \<and> c_pin_mode c' = c_pin_mode c \<and> e' = e"
  using assms by (auto simp: loop_commissioned_def Let_def split: prod.splits if_splits)

lemma device_step_keeps:
  assumes "\<forall>ct. ev \<noteq> Turn ct"
  shows "c_settings (fst (device_step ee Q ev (c, e))) = c_settings c"
    "c_pin_mode (fst (device_step ee Q ev (c, e))) = c_pin_mode c"
  using assms
  by (auto simp: device_step_def update_leds_def send_heater_state_req_callback_def wifi_connected_def
      wifi_disconnected_def Let_def split: device_event.splits led_state_t.splits)

lemma On_Device_step:
  assumes "\<forall>ct. ev \<noteq> Turn ct"
  shows "sketch_step ee Q q0 tca (On_Device ev) (Commissioned c e) = Commissioned (fst (device_step ee Q ev (c, e))) e"
  using assms by (cases ev) simp_all

lemma register_pins: "register_handler n s p b now u = Inr (u', page) \<Longrightarrow> u_pin_mode u' = u_pin_mode u"
  by (auto simp: register_handler_def Let_def split: option.splits if_splits)

lemma uncommissioned_turn_keeps:
  assumes "loop_uncommissioned ee tca tu (u, st, e) = ((u', st', e'), False)"
  shows "u_pin_mode u' = u_pin_mode u \<and> e' = e"
  using assms by (auto simp: loop_uncommissioned_def blink_def Let_def split: prod.splits if_splits)

lemma sketch_step_inv:
  assumes "eeprom_ok EEPROM_LEN ee" and "queue_ok MAX_ERROR_RECORDED elems Q" and "elems q0 = []"
    and "sketch_inv ee elems sk"
  shows "sketch_inv ee elems (sketch_step ee Q q0 tca ev sk)"
proof (cases sk)
  case (Booting e)
  then show ?thesis using setup_inv [of ee elems q0] assms(1,3) by (cases ev) simp_all
next
  case (Commissioned c e)
  have inv: "controller_inv elems c" using assms(4) Commissioned by simp
  show ?thesis
  proof (cases ev)
    case (On_Device dev)
    show ?thesis
    proof (cases "\<exists>ct. dev = Turn ct")
      case True
      then obtain ct where Turn: "dev = Turn ct" by blast
      obtain c' e' restart where l: "loop_commissioned ee Q ct (c, e) = ((c', e'), restart)" by (metis prod.collapse)
      then have "controller_inv elems c'" using loop_inv [OF assms(2) inv, of ee ct e] by simp
      then show ?thesis using turn_keeps [OF l] assms(4) Commissioned On_Device Turn l by simp
    next
      case False
      then have dev: "\<forall>ct. dev \<noteq> Turn ct" by blast
      have "controller_inv elems (fst (device_step ee Q dev (c, e)))"
        using device_step_inv [OF assms(2), of "(c, e)"] inv by simp
      then show ?thesis
        using assms(4) Commissioned
        by (simp add: On_Device On_Device_step [OF dev] device_step_keeps [OF dev])
    qed
  qed (use assms(4) Commissioned in \<open>simp_all split: prod.split\<close>)
next
  case (Uncommissioned u st e)
  then show ?thesis
    using assms(4)
    by (cases ev) (auto split: sum.splits prod.splits dest!: register_pins uncommissioned_turn_keeps)
qed

text \<open>C8: whatever happens to a chip, from whatever its EEPROM held: in the commissioned mode it
  has settings that passed their check and that a power cut would bring back, it is in one of
  the four states and drives its pins for it; in the other mode a start finds no settings and
  the pins that control the heater are inputs.\<close>

theorem sketch_always_well:
  assumes "eeprom_ok EEPROM_LEN ee" and "queue_ok MAX_ERROR_RECORDED elems Q" and "elems q0 = []"
  shows "sketch_inv ee elems (fold (sketch_step ee Q q0 tca) evs (Booting e))"
  by (rule fold_invariant [where Q = "\<lambda>_. True"]) (simp_all add: sketch_step_inv [OF assms])

section \<open>Every start settles\<close>

text \<open>C26: settings that are valid but fail their check are erased and the chip restarts, once: the
  second start at the latest ends in one of the two modes.\<close>

theorem boot_settles:
  assumes "eeprom_ok EEPROM_LEN ee"
  shows "\<forall>e2. sketch_step ee Q q0 tca (Boot rnd2) (sketch_step ee Q q0 tca (Boot rnd1) (Booting e)) \<noteq> Booting e2"
proof -
  have un: "\<exists>u s e2. sketch_setup ee q0 rnd e1 = Uncommissioned u s e2" if "loads ee e1 = None" for rnd e1
    using that by (auto simp: loads_def sketch_setup_def split: prod.splits)
  obtain valid s e1 where l: "settings_load ee e = (valid, s, e1)" by (metis prod.collapse)
  show ?thesis
  proof (cases "valid \<and> \<not> settings_check s")
    case True
    then have "sketch_setup ee q0 rnd1 e = Booting (ee_restart ee (eeprom_erase ee e1))"
      by (simp add: sketch_setup_def l setup_commissioned_def settings_erase_def Let_def)
    then show ?thesis using un [OF loads_erased [OF assms], of rnd2 e1] by auto
  next
    case False
    then show ?thesis by (auto simp: sketch_setup_def l setup_commissioned_def Let_def)
  qed
qed

section \<open>What commissions a device and what does not\<close>

text \<open>
  A user who leaves the device its settings: the reset of the web page is not asked for, and no
  press of the button lasts ten seconds. The press is followed from outside: \<open>since\<close> is the time
  at which the loop first saw the button down, while it stays down; a power cut ends it.
\<close>

definition press_turn :: "commissioned_turn \<Rightarrow> u32 option \<Rightarrow> u32 option" where
  "press_turn ct since =
     (if ct_button_low ct then (case since of None \<Rightarrow> Some (ct_button_now ct) | Some t \<Rightarrow> Some t) else None)"

fun press :: "sketch_event \<Rightarrow> ('e, 'q) sketch \<Rightarrow> u32 option \<Rightarrow> u32 option" where
  "press (On_Device (Turn ct)) (Commissioned c e) since = press_turn ct since"
| "press Power_Cut (Commissioned c e) since = None"
| "press ev (Commissioned c e) since = since"
| "press ev sk since = None"

fun gentle_event :: "sketch_event \<Rightarrow> ('e, 'q) sketch \<Rightarrow> u32 option \<Rightarrow> bool" where
  "gentle_event (On_Device (Turn ct)) (Commissioned c e) since =
     (ct_button_low ct \<longrightarrow> (case since of None \<Rightarrow> True | Some t \<Rightarrow> ct_button_now ct - t < BUTTON_PRESS_TIMEOUT))"
| "gentle_event On_Unregister (Commissioned c e) since = False"
| "gentle_event ev sk since = True"

fun gentle_run :: "'e eeprom \<Rightarrow> 'q cpp_queue \<Rightarrow> 'q \<Rightarrow> (string \<Rightarrow> nat \<Rightarrow> byte list) \<Rightarrow> sketch_event list \<Rightarrow> ('e, 'q) sketch \<Rightarrow> u32 option \<Rightarrow> bool" where
  "gentle_run ee Q q0 tca [] sk since = True"
| "gentle_run ee Q q0 tca (ev # evs) sk since =
     (gentle_event ev sk since \<and> gentle_run ee Q q0 tca evs (sketch_step ee Q q0 tca ev sk) (press ev sk since))"

text \<open>The press the device knows of.\<close>

definition known_press :: "('e, 'q) sketch \<Rightarrow> u32 option" where
  "known_press sk = (case sk of
     Commissioned c e \<Rightarrow> (if b_pressed (c_button c) then Some (b_start (c_button c)) else None)
   | _ \<Rightarrow> None)"

text \<open>A state with settings \<open>st\<close> that pass their check.\<close>

definition has_settings :: "'e eeprom \<Rightarrow> settings_t \<Rightarrow> ('e, 'q) sketch \<Rightarrow> bool" where
  "has_settings ee st sk \<longleftrightarrow> settings_check st \<and> sketch_memory ee sk = Some st
     \<and> (case sk of Commissioned c e \<Rightarrow> c_settings c = st | Uncommissioned _ _ _ \<Rightarrow> False | Booting _ \<Rightarrow> True)"

lemma setup_has_settings:
  assumes "eeprom_ok EEPROM_LEN ee" and "loads ee e = Some st" and "settings_check st"
  shows "has_settings ee st (sketch_setup ee q0 rnd e) \<and> (\<exists>c e1. sketch_setup ee q0 rnd e = Commissioned c e1)"
proof -
  obtain valid s e1 where l: "settings_load ee e = (valid, s, e1)" by (metis prod.collapse)
  note a = loads_again [OF assms(1) l]
  have "valid" and "s = st" using a(2) assms(2) by (auto split: if_splits)
  then show ?thesis using a assms(3)
    by (simp add: has_settings_def sketch_setup_def l setup_commissioned_def Let_def apply_heater_state_def)
qed

lemma setup_no_press: "known_press (sketch_setup ee q0 rnd e) = None"
  by (auto simp: known_press_def sketch_setup_def setup_commissioned_def apply_heater_state_def button_new_def Let_def
      split: prod.split)

lemma kept_button [simp]:
  "c_button (send_request Q env c) = c_button c" "c_button (check_failures c) = c_button c"
  by (simp_all add: send_request_def handle_reply_def request_failed_def check_failures_def apply_heater_state_def Let_def)

lemma turn_button:
  assumes "loop_commissioned ee Q ct (c, e) = ((c', e'), restart)"
  shows "button_step (ct_button_low ct) (ct_button_now ct) (c_button c) = (c_button c', restart)"
  using assms by (auto simp: loop_commissioned_def Let_def split: prod.splits if_splits)

lemma device_step_button:
  assumes "\<forall>ct. ev \<noteq> Turn ct"
  shows "c_button (fst (device_step ee Q ev (c, e))) = c_button c"
  using assms
  by (auto simp: device_step_def update_leds_def send_heater_state_req_callback_def wifi_connected_def
      wifi_disconnected_def Let_def split: device_event.splits led_state_t.splits)

lemma gentle_step:
  assumes "eeprom_ok EEPROM_LEN ee" and "has_settings ee st sk" and "gentle_event ev sk (known_press sk)"
  shows "has_settings ee st (sketch_step ee Q q0 tca ev sk)"
    and "known_press (sketch_step ee Q q0 tca ev sk) = press ev sk (known_press sk)"
proof -
  have "has_settings ee st (sketch_step ee Q q0 tca ev sk)
      \<and> known_press (sketch_step ee Q q0 tca ev sk) = press ev sk (known_press sk)"
  proof (cases sk)
    case (Booting e)
    have k: "known_press (Booting e) = None" by (simp add: known_press_def)
    show ?thesis using Booting assms(2) setup_has_settings [OF assms(1), of e st q0] setup_no_press [of ee q0]
      by (cases ev) (auto simp: has_settings_def k)
  next
    case (Commissioned c e)
    show ?thesis
    proof (cases "\<exists>ct. ev = On_Device (Turn ct)")
      case True
      then obtain ct where ev: "ev = On_Device (Turn ct)" by blast
      obtain c' e' restart where l: "loop_commissioned ee Q ct (c, e) = ((c', e'), restart)" by (metis prod.collapse)
      note b = turn_button [OF l]
      have r: "\<not> restart"
        using b assms(3) Commissioned ev
        by (auto simp: button_step_def known_press_def not_le split: if_splits)
      have "c_button c' = fst (button_step (ct_button_low ct) (ct_button_now ct) (c_button c))" using b by simp
      then have "known_press (Commissioned c' e') = press_turn ct (known_press (Commissioned c e))"
        by (auto simp: known_press_def press_turn_def button_step_def split: if_splits)
      then show ?thesis using r turn_keeps [OF l] assms(2) Commissioned ev l by (auto simp: has_settings_def)
    next
      case False
      show ?thesis
      proof (cases ev)
        case (On_Device dev)
        then have dev: "\<forall>ct. dev \<noteq> Turn ct" using False by blast
        then have p: "press (On_Device dev) (Commissioned c e) since = since" for since :: "u32 option" by (cases dev) simp_all
        show ?thesis using assms(2) Commissioned
          by (simp add: On_Device On_Device_step [OF dev] device_step_keeps [OF dev] device_step_button [OF dev] has_settings_def
              known_press_def p)
      qed (use assms(2,3) Commissioned in \<open>auto simp: has_settings_def known_press_def\<close>)
    qed
  next
    case (Uncommissioned u s e)
    then show ?thesis using assms(2) by (simp add: has_settings_def)
  qed
  then show "has_settings ee st (sketch_step ee Q q0 tca ev sk)"
    and "known_press (sketch_step ee Q q0 tca ev sk) = press ev sk (known_press sk)" by simp_all
qed

lemma gentle_run_keeps:
  assumes "eeprom_ok EEPROM_LEN ee" and "has_settings ee st sk" and "gentle_run ee Q q0 tca evs sk (known_press sk)"
  shows "has_settings ee st (fold (sketch_step ee Q q0 tca) evs sk)"
  using assms(2,3)
proof (induction evs arbitrary: sk)
  case (Cons ev evs)
  have "gentle_event ev sk (known_press sk)" using Cons.prems(2) by simp
  note s = gentle_step [OF assms(1) Cons.prems(1) this, of Q q0 tca]
  then show ?case using Cons.IH [OF s(1)] Cons.prems(2) by simp
qed simp

text \<open>C16: a device with settings keeps them, and whenever it runs it runs with them, through any
  events in which the page's reset is not asked for and no press of the button lasts ten
  seconds: shorter presses, requests and their failures, the network coming and going, and
  power cuts at any moment.\<close>

theorem commissioned_for_good:
  assumes "eeprom_ok EEPROM_LEN ee" and "loads ee e = Some st" and "settings_check st"
    and "gentle_run ee Q q0 tca evs (Booting e) None"
  shows "(case fold (sketch_step ee Q q0 tca) evs (Booting e) of
      Booting e' \<Rightarrow> loads ee e' = Some st
    | Commissioned c e' \<Rightarrow> c_settings c = st \<and> loads ee (ee_restart ee e') = Some st
    | Uncommissioned _ _ _ \<Rightarrow> False)"
proof -
  have "has_settings ee st (Booting e)" using assms(2,3) by (simp add: has_settings_def)
  moreover have "gentle_run ee Q q0 tca evs (Booting e) (known_press (Booting e))"
    using assms(4) by (simp add: known_press_def)
  ultimately have "has_settings ee st (fold (sketch_step ee Q q0 tca) evs (Booting e))" by (rule gentle_run_keeps [OF assms(1)])
  then show ?thesis by (auto simp: has_settings_def split: sketch.splits)
qed

section \<open>A factory reset\<close>

text \<open>A state without settings, with no registration under way.\<close>

definition is_blank :: "'e eeprom \<Rightarrow> ('e, 'q) sketch \<Rightarrow> bool" where
  "is_blank ee sk \<longleftrightarrow> sketch_memory ee sk = None
     \<and> (case sk of Commissioned _ _ \<Rightarrow> False | Uncommissioned u _ _ \<Rightarrow> \<not> u_joining u | Booting _ \<Rightarrow> True)"

lemma is_blank_step:
  assumes "eeprom_ok EEPROM_LEN ee" and "is_blank ee sk" and "\<forall>n s p b now. ev \<noteq> On_Register n s p b now"
  shows "is_blank ee (sketch_step ee Q q0 tca ev sk)"
proof (cases sk)
  case (Booting e)
  obtain valid s e1 where l: "settings_load ee e = (valid, s, e1)" by (metis prod.collapse)
  have "loads ee e = None" using assms(2) Booting by (simp add: is_blank_def)
  then show ?thesis using loads_again [OF assms(1) l] Booting assms(3)
    by (cases ev) (auto simp: is_blank_def sketch_setup_def l setup_uncommissioned_def split: if_splits)
next
  case (Uncommissioned u st e)
  then have u: "loads ee (ee_restart ee e) = None" "\<not> u_joining u" using assms(2) by (simp_all add: is_blank_def)
  show ?thesis
  proof (cases ev)
    case (On_Turn tu)
    obtain b fired where b: "button_step (tu_button_low tu) (tu_button_now tu) (u_button (blink tu u)) = (b, fired)"
      by (metis prod.collapse)
    have "\<not> u_joining (blink tu u)" using u(2) by (simp add: blink_def)
    then show ?thesis using u Uncommissioned On_Turn loads_erased [OF assms(1)]
      by (cases fired) (simp_all add: is_blank_def loop_uncommissioned_def b settings_erase_def Let_def)
  qed (use u Uncommissioned assms(3) in \<open>simp_all add: is_blank_def\<close>)
qed (use assms(2) in \<open>simp add: is_blank_def\<close>)

text \<open>The events that reset a commissioned device: the page, or the button at the end of its time.\<close>

definition resets :: "sketch_event \<Rightarrow> 'q controller \<Rightarrow> bool" where
  "resets ev c \<longleftrightarrow> (case ev of
       On_Unregister \<Rightarrow> True
     | On_Device dev \<Rightarrow>
         (case dev of Turn ct \<Rightarrow> snd (button_step (ct_button_low ct) (ct_button_now ct) (c_button c)) | _ \<Rightarrow> False)
     | _ \<Rightarrow> False)"

text \<open>C15: a factory reset, by the page or by the button, erases the settings for good: whatever
  happens then, power cuts included, the device is not in the commissioned mode and a start
  finds no settings, until a registration form is submitted.\<close>

theorem reset_forgets:
  assumes "eeprom_ok EEPROM_LEN ee" and "resets ev c"
    and "\<forall>ev'\<in>set evs. \<forall>n s p b now. ev' \<noteq> On_Register n s p b now"
  shows "(case fold (sketch_step ee Q q0 tca) evs (sketch_step ee Q q0 tca ev (Commissioned c e)) of
      Booting e' \<Rightarrow> loads ee e' = None
    | Uncommissioned _ _ e' \<Rightarrow> loads ee (ee_restart ee e') = None
    | Commissioned _ _ \<Rightarrow> False)"
proof -
  have "is_blank ee (sketch_step ee Q q0 tca ev (Commissioned c e))"
    using assms(2) loads_erased [OF assms(1)]
    by (auto simp: resets_def is_blank_def unregister_handler_def settings_erase_def loop_commissioned_def Let_def
        split: sketch_event.splits device_event.splits prod.splits)
  then have "is_blank ee (fold (sketch_step ee Q q0 tca) evs (sketch_step ee Q q0 tca ev (Commissioned c e)))"
    by (rule fold_invariant [where Q = "\<lambda>ev'. \<forall>n s p b now. ev' \<noteq> On_Register n s p b now", rotated])
       (use assms(3) in \<open>simp_all add: is_blank_step [OF assms(1)]\<close>)
  then show ?thesis by (auto simp: is_blank_def split: sketch.splits)
qed

section \<open>A chip as a witness\<close>

abbreviation sample_step :: "sketch_event \<Rightarrow> ((nat \<Rightarrow> byte) \<times> (nat \<Rightarrow> byte), error_record list) sketch \<Rightarrow> _" where
  "sample_step \<equiv> sketch_step sample_eeprom (list_queue MAX_ERROR_RECORDED) [] sample_copy"

text \<open>The EEPROM after the registration of the sample.\<close>

definition sample_rom :: "(nat \<Rightarrow> byte) \<times> (nat \<Rightarrow> byte)" where
  "sample_rom = ee_restart sample_eeprom (snd (settings_create sample_eeprom sample_copy ''DESK'' ''home'' [] ''base'' blank))"

lemma sample_rom_loads: "loads sample_eeprom sample_rom = Some sample_settings"
proof -
  obtain e' where "settings_create sample_eeprom sample_copy ''DESK'' ''home'' [] ''base'' blank = (sample_settings, e')"
    by (metis prod.collapse sample_settings_def)
  then show ?thesis
    using loads_created [OF samples_ok(1)] sample_settings_fields(1,2) by (simp add: sample_rom_def)
qed

lemma sample_boot: "\<exists>c e. sample_step (Boot 5) (Booting sample_rom) = Commissioned c e"
  using setup_has_settings [OF samples_ok(1) sample_rom_loads sample_check, of "[] :: error_record list" 5] by simp

lemma sketch_always_well_witness:
  "sketch_inv sample_eeprom (\<lambda>q. q) (fold sample_step [Boot 5, On_Device Wifi_Up, Power_Cut, Boot 6] (Booting sample_rom))"
  by (rule sketch_always_well [OF samples_ok(1) list_queue_ok]) simp

lemma boot_settles_witness:
  "\<forall>e. sample_step (Boot 6) (sample_step (Boot 5) (Booting sample_rom)) \<noteq> Booting e"
  by (rule boot_settles [OF samples_ok(1)])

text \<open>A press of five seconds and a power cut.\<close>

definition press_at :: "u32 \<Rightarrow> sketch_event" where
  "press_at t = On_Device (Turn ((sample_turn False)\<lparr>ct_button_low := True, ct_button_now := t\<rparr>))"

lemma commissioned_for_good_witness:
  "\<exists>c e. fold sample_step [Boot 5, press_at 1000, press_at 6000, Power_Cut, Boot 6] (Booting sample_rom) = Commissioned c e
    \<and> c_settings c = sample_settings"
proof -
  let ?evs = "[Boot 5, press_at 1000, press_at 6000, Power_Cut, Boot 6]"
  obtain c e where c: "sample_step (Boot 5) (Booting sample_rom) = Commissioned c e" using sample_boot by blast
  have t: "sample_step (press_at t) (Commissioned c e) = Commissioned (c\<lparr>c_button := b\<rparr>) e"
    if "button_step True t (c_button c) = (b, False)" and "c_fail_count c \<noteq> REQUEST_STATE_FAILURE_THRESHOLD" for t c e b
    using that by (simp add: press_at_def loop_commissioned_def sample_turn_def check_failures_def Let_def)
  have z: "c_button c = button_new" "c_fail_count c = 0"
    using c by (auto simp: sketch_setup_def setup_commissioned_def apply_heater_state_def Let_def split: prod.splits if_splits)
  let ?c1 = "c\<lparr>c_button := \<lparr>b_pressed = True, b_start = 1000\<rparr>\<rparr>"
  have s1: "sample_step (press_at 1000) (Commissioned c e) = Commissioned ?c1 e"
    by (rule t) (simp_all add: z button_step_def button_new_def REQUEST_STATE_FAILURE_THRESHOLD_def)
  have s2: "sample_step (press_at 6000) (Commissioned ?c1 e) = Commissioned (?c1\<lparr>c_button := c_button ?c1\<rparr>) e"
    by (rule t) (simp_all add: z button_step_def BUTTON_PRESS_TIMEOUT_def REQUEST_STATE_FAILURE_THRESHOLD_def)
  have p1: "press (press_at 1000) (Commissioned c e) None = Some 1000" and g1: "gentle_event (press_at 1000) (Commissioned c e) None"
    for c :: "error_record list controller" and e :: "(nat \<Rightarrow> byte) \<times> (nat \<Rightarrow> byte)"
    by (simp_all add: press_at_def press_turn_def)
  have p2: "press (press_at 6000) (Commissioned c e) (Some 1000) = Some 1000" and g2: "gentle_event (press_at 6000) (Commissioned c e) (Some 1000)"
    for c :: "error_record list controller" and e :: "(nat \<Rightarrow> byte) \<times> (nat \<Rightarrow> byte)"
    by (simp_all add: press_at_def press_turn_def BUTTON_PRESS_TIMEOUT_def)
  have pc: "sample_step Power_Cut (Commissioned c e) = Booting (ee_restart sample_eeprom e)" for c e by simp
  have g: "gentle_run sample_eeprom (list_queue MAX_ERROR_RECORDED) [] sample_copy ?evs (Booting sample_rom) None"
    by (simp only: gentle_run.simps c s1 s2 p1 g1 p2 g2 pc gentle_event.simps press.simps simp_thms)
  have "case fold sample_step ?evs (Booting sample_rom) of
      Booting e' \<Rightarrow> loads sample_eeprom e' = Some sample_settings
    | Commissioned c e' \<Rightarrow> c_settings c = sample_settings \<and> loads sample_eeprom (ee_restart sample_eeprom e') = Some sample_settings
    | Uncommissioned _ _ _ \<Rightarrow> False"
    by (rule commissioned_for_good [OF samples_ok(1) sample_rom_loads sample_check g])
  moreover have "\<exists>c' e'. fold sample_step ?evs (Booting sample_rom) = Commissioned c' e'"
  proof -
    have "loads sample_eeprom (ee_restart sample_eeprom e) = Some sample_settings"
      using sketch_step_inv [OF samples_ok(1) list_queue_ok, of "[]" "Booting sample_rom" sample_copy "Boot 5"]
        setup_has_settings [OF samples_ok(1) sample_rom_loads sample_check, of "[] :: error_record list" 5] c
      by (auto simp: has_settings_def)
    then show ?thesis
      using setup_has_settings [OF samples_ok(1) _ sample_check, of "ee_restart sample_eeprom e" "[] :: error_record list" 6] c s1 s2
      by simp
  qed
  ultimately show ?thesis by auto
qed

lemma reset_forgets_witness:
  "\<exists>c e. sample_step (Boot 5) (Booting sample_rom) = Commissioned c e
    \<and> (case fold sample_step [Boot 6, Power_Cut] (sample_step On_Unregister (Commissioned c e)) of
        Booting e' \<Rightarrow> loads sample_eeprom e' = None | Uncommissioned _ _ e' \<Rightarrow> loads sample_eeprom (ee_restart sample_eeprom e') = None
      | Commissioned _ _ \<Rightarrow> False)"
proof -
  obtain c e where c: "sample_step (Boot 5) (Booting sample_rom) = Commissioned c e" using sample_boot by blast
  have "resets On_Unregister c" by (simp add: resets_def)
  from reset_forgets [OF samples_ok(1) this, of "[Boot 6, Power_Cut]" "list_queue MAX_ERROR_RECORDED" "[]" sample_copy e] c
  show ?thesis by auto
qed

end
