(* ===== verification/FW_Formats.thy ===== *)
theory FW_Formats
  imports Prelude
begin

text \<open>
  The formats of \<open>webpages.cpp\<close> as the literals of the source, and the \<open>sprintf\<close> they are printed
  with: \<open>c_sprintf\<close> interprets a format and fails when a conversion has no argument or one of
  another type, which C leaves undefined. Also the form of the registration page, read off its
  format.
\<close>

section \<open>sprintf\<close>

text \<open>The conversions that occur: \<open>%s\<close>, \<open>%d\<close>, \<open>%u\<close>, \<open>%08X\<close> and \<open>%02X\<close>.\<close>

datatype fmt_piece = Lit char | Conv_S | Conv_D | Conv_U | Conv_X8 | Conv_X2

datatype fmt_arg = A_Str string | A_Int int | A_U32 u32 | A_U8 byte

fun fmt_pieces :: "string \<Rightarrow> fmt_piece list option" where
  "fmt_pieces [] = Some []"
| "fmt_pieces (c # t) =
     (if c \<noteq> CHR ''%'' then map_option (Cons (Lit c)) (fmt_pieces t)
      else if starts_with t ''s'' then map_option (Cons Conv_S) (fmt_pieces (drop 1 t))
      else if starts_with t ''d'' then map_option (Cons Conv_D) (fmt_pieces (drop 1 t))
      else if starts_with t ''u'' then map_option (Cons Conv_U) (fmt_pieces (drop 1 t))
      else if starts_with t ''08X'' then map_option (Cons Conv_X8) (fmt_pieces (drop 3 t))
      else if starts_with t ''02X'' then map_option (Cons Conv_X2) (fmt_pieces (drop 3 t))
      else None)"

definition hex8 :: "u32 \<Rightarrow> string" where
  "hex8 w = concat (map hex2 [ucast (drop_bit 24 w), ucast (drop_bit 16 w), ucast (drop_bit 8 w), ucast w])"

definition dec_int :: "int \<Rightarrow> string" where
  "dec_int i = (if i < 0 then CHR ''-'' # dec (nat (- i)) else dec (nat i))"

fun convert :: "fmt_piece \<Rightarrow> fmt_arg \<Rightarrow> string option" where
  "convert Conv_S (A_Str s) = Some s"
| "convert Conv_D (A_Int i) = Some (dec_int i)"
| "convert Conv_U (A_U32 w) = Some (dec (unat w))"
| "convert Conv_X8 (A_U32 w) = Some (hex8 w)"
| "convert Conv_X2 (A_U8 b) = Some (hex2 b)"
| "convert _ _ = None"

fun render :: "fmt_piece list \<Rightarrow> fmt_arg list \<Rightarrow> string option" where
  "render [] args = Some []"
| "render (Lit c # ps) args = map_option (Cons c) (render ps args)"
| "render (p # ps) [] = None"
| "render (p # ps) (a # args) =
     (case convert p a of None \<Rightarrow> None | Some s \<Rightarrow> map_option (\<lambda>out. s @ out) (render ps args))"

definition c_sprintf :: "string \<Rightarrow> fmt_arg list \<Rightarrow> string option" where
  "c_sprintf fmt args = (case fmt_pieces fmt of None \<Rightarrow> None | Some ps \<Rightarrow> render ps args)"

text \<open>The conversions of a format, which its arguments must fit, and what it prints besides them.\<close>

fun conversions :: "fmt_piece list \<Rightarrow> fmt_piece list" where
  "conversions [] = []"
| "conversions (Lit c # ps) = conversions ps"
| "conversions (p # ps) = p # conversions ps"

fun literals :: "fmt_piece list \<Rightarrow> nat" where
  "literals [] = 0"
| "literals (Lit c # ps) = Suc (literals ps)"
| "literals (p # ps) = literals ps"

definition converted :: "fmt_piece list \<Rightarrow> fmt_arg list \<Rightarrow> string option list" where
  "converted ps args = map2 convert (conversions ps) args"

lemma render_fits:
  assumes "length args = length (conversions ps)" and "None \<notin> set (converted ps args)"
  shows "\<exists>out. render ps args = Some out
    \<and> length out = literals ps + (\<Sum>s\<leftarrow>converted ps args. length (the s))"
  using assms
  by (induction ps args rule: render.induct) (auto simp: converted_def eq_commute [of None])

text \<open>What a format prints, when its arguments fit, and how long it is.\<close>

lemma sprintf_fits:
  assumes "map_option conversions (fmt_pieces fmt) = Some cs" and "map_option literals (fmt_pieces fmt) = Some n"
    and "length args = length cs" and "None \<notin> set (map2 convert cs args)"
  shows "\<exists>out. c_sprintf fmt args = Some out \<and> length out = n + (\<Sum>s\<leftarrow>map2 convert cs args. length (the s))"
proof -
  obtain ps where p: "fmt_pieces fmt = Some ps" and c: "conversions ps = cs" and l: "literals ps = n" using assms(1,2) by auto
  have "None \<notin> set (converted ps args)" using assms(4) by (simp add: converted_def c)
  from render_fits [OF _ this] show ?thesis using assms(3) by (simp add: c_sprintf_def p c l converted_def)
qed

section \<open>The pages\<close>

text \<open>The formats of \<open>webpages.cpp\<close>, line by line.\<close>

definition uncommissioned_index_html :: string where
  \<open>uncommissioned_index_html = concat (map (\<lambda>l. NL # l)
     [''<!DOCTYPE HTML>'',
      ''<html>'',
      ''<head>'',
      ''    <meta name="viewport" content="width=device-width, initial-scale=1">'',
      ''    <title>Heater registration</title>'',
      ''</head>'',
      ''<body>'',
      ''    <h1>Heater controller</h1>'',
      ''    <h2>Device information</h2>'',
      ''    ESP8266 chip ID: %08X'',
      ''    <br>'',
      ''    Firmware version: %s'',
      ''    <br>'',
      ''    AP MAC address: %02X:%02X:%02X:%02X:%02X:%02X'',
      ''    <br>'',
      ''    Uptime: %s'',
      ''    <h2>Registration</h2>'',
      ''    <form action="/register" method="post">'',
      ''        Name:<br>'',
      ''        <input type="text" name="name" maxlength="31" required="required" pattern="[A-Za-z0-9]+">'',
      ''        <br>'',
      ''        WiFi name:<br>'',
      ''        <input type="text" name="ssid" maxlength="63" required="required">'',
      ''        <br>'',
      ''        WiFi password:<br>'',
      ''        <input type="password" name="password" maxlength="63">'',
      ''        <br>'',
      ''        Base station hostname/IP address:<br>'',
      ''        <input type="text" name="basestation" value="basestation" maxlength="63">'',
      ''        <br>'',
      ''        <input type="submit" value="Register">'',
      ''    </form>'',
      ''</body>'',
      ''</html>'']) @ [NL]\<close>

definition commissioned_index_html :: string where
  \<open>commissioned_index_html = concat (map (\<lambda>l. NL # l)
     [''<!DOCTYPE HTML>'',
      ''<html>'',
      ''<head>'',
      ''  <meta name="viewport" content="width=device-width, initial-scale=1">'',
      ''  <title>Heater - %s</title>'',
      ''</head>'',
      ''<body>'',
      ''  <h1>Heater controller - %s</h1>'',
      ''  <h2>Device information</h2>'',
      ''  ESP8266 chip ID: %08X'',
      ''  <br>'',
      ''  Firmware version: %s'',
      ''  <br>'',
      ''  MAC address: %02X:%02X:%02X:%02X:%02X:%02X'',
      ''  <br>'',
      ''  Uptime: %s'',
      ''  <br>'',
      ''  WiFi signal strength (RSSI): %d dBm (%s)'',
      ''  <br>'',
      ''  Base station addr: %s'',
      ''  <br>'',
      ''  Heater state: %s'',
      ''  <br>'',
      ''  Last heater state reply from base station: %u'',
      ''  <br>'',
      ''  Error count since boot: %u'',
      ''  <br>'',
      ''  <br>'',
      ''  <form action="/unregister" method="post">'',
      ''      <button name="unregister" value="unregister">Reset configuration</button>'',
      ''  </form>'',
      ''  <h2>Errors</h2>'',
      ''  %s'',
      ''</body>'',
      ''</html>'']) @ [NL]\<close>

lemma uncommissioned_format:
  "map_option conversions (fmt_pieces uncommissioned_index_html)
    = Some [Conv_X8, Conv_S, Conv_X2, Conv_X2, Conv_X2, Conv_X2, Conv_X2, Conv_X2, Conv_S]"
  "map_option literals (fmt_pieces uncommissioned_index_html) = Some 961"
  by code_simp+

lemma commissioned_format:
  "map_option conversions (fmt_pieces commissioned_index_html)
    = Some [Conv_S, Conv_S, Conv_X8, Conv_S, Conv_X2, Conv_X2, Conv_X2, Conv_X2, Conv_X2, Conv_X2, Conv_S,
        Conv_D, Conv_S, Conv_S, Conv_S, Conv_U, Conv_U, Conv_S]"
  "map_option literals (fmt_pieces commissioned_index_html) = Some 671"
  by code_simp+

section \<open>The form\<close>

text \<open>The values of an attribute, in the order of the page: what is between the quotes after it.\<close>

fun after_prefix :: "string \<Rightarrow> string \<Rightarrow> string option" where
  "after_prefix [] s = Some s"
| "after_prefix (p # ps) [] = None"
| "after_prefix (p # ps) (c # s) = (if p = c then after_prefix ps s else None)"

fun attr_values :: "string \<Rightarrow> string \<Rightarrow> string list" where
  "attr_values pat [] = []"
| "attr_values pat (c # t) =
     (case after_prefix pat (c # t) of
        Some rest \<Rightarrow> takeWhile (\<lambda>d. d \<noteq> DQ) rest # attr_values pat t
      | None \<Rightarrow> attr_values pat t)"

text \<open>The fields of the form, after the name of the page's \<open>meta\<close> tag, and their greatest lengths.\<close>

definition form_fields :: "string list" where
  "form_fields = tl (attr_values ('' name='' @ [DQ]) uncommissioned_index_html)"

definition form_limits :: "nat list" where
  "form_limits = map dec_value (attr_values ('' maxlength='' @ [DQ]) uncommissioned_index_html)"

lemma form_fields_are: "form_fields = [''name'', ''ssid'', ''password'', ''basestation'']"
  by code_simp

lemma form_limits_are: "form_limits = [31, 63, 63, 63]"
  by code_simp

lemmas form_facts = form_fields_are form_limits_are

end
