(* ===== verification/FW_Pages.thy ===== *)
theory FW_Pages
  imports FW_Props FW_Formats
begin

text \<open>
  What the heater firmware prints with \<open>sprintf\<close>: the handlers that fill in the two pages of
  \<open>webpages.cpp\<close>, the handler of the registration form, and the lines of the serial log.
\<close>

section \<open>The handlers of the pages\<close>

text \<open>What the handlers read from the chip and its libraries: \<open>rssi\<close> is the signal strength in dBm.\<close>

record chip_facts =
  cf_chip_id :: u32
  cf_version :: string
  cf_mac :: "byte list"
  cf_uptime :: string
  cf_rssi :: int

text \<open>The handler of \<open>/\<close> of the uncommissioned mode.\<close>

definition uncommissioned_index :: "chip_facts \<Rightarrow> string option" where
  "uncommissioned_index cf = c_sprintf uncommissioned_index_html
     ([A_U32 (cf_chip_id cf), A_Str (cf_version cf)] @ map A_U8 (cf_mac cf) @ [A_Str (cf_uptime cf)])"

definition heater_state_str :: "byte \<Rightarrow> string" where
  "heater_state_str st =
     (if st = 1 then ''DEFROST'' else if st = 2 then ''ECO'' else if st = 3 then ''COMFORT/ON''
      else if st = 0 then ''OFF'' else ''UNKNOWN'')"

definition wifi_level :: "int \<Rightarrow> string" where
  "wifi_level rssi =
     (if rssi > -67 then ''excellent'' else if rssi > -70 then ''very good'' else if rssi > -80 then ''okay''
      else if rssi > -90 then ''not good'' else ''unusable'')"

text \<open>What \<open>%s\<close> prints of a buffer: nothing is known without a terminator, as C reads on.\<close>

definition c_text :: "byte list \<Rightarrow> string option" where
  "c_text bs = (if 0 \<in> set bs then Some (map (\<lambda>b. char_of (unat b)) (c_bytes bs)) else None)"

text \<open>The handler of \<open>/\<close> of the commissioned mode.\<close>

definition commissioned_index :: "'q cpp_queue \<Rightarrow> chip_facts \<Rightarrow> 'q controller \<Rightarrow> string option" where
  "commissioned_index Q cf c =
     (case (c_text (settings_get_name (c_settings c)), c_text (settings_get_basestation (c_settings c))) of
        (Some name, Some basestation_addr) \<Rightarrow>
          c_sprintf commissioned_index_html
            ([A_Str name, A_Str name, A_U32 (cf_chip_id cf), A_Str (cf_version cf)] @ map A_U8 (cf_mac cf)
             @ [A_Str (cf_uptime cf), A_Int (cf_rssi cf), A_Str (wifi_level (cf_rssi cf)),
                A_Str basestation_addr, A_Str (heater_state_str (c_heater_state c)),
                A_U32 (c_last_timestamp c), A_U32 (c_fail_since_boot c), A_Str (build_errors_webpage Q (c_errors c))])
      | _ \<Rightarrow> None)"

text \<open>The handler of \<open>/register\<close> reads its four parameters by name.\<close>

definition register_request :: "(string \<rightharpoonup> string) \<Rightarrow> u32 \<Rightarrow> uncommissioned \<Rightarrow> exn + uncommissioned \<times> bool" where
  "register_request params now u =
     register_handler (params ''name'') (params ''ssid'') (params ''password'') (params ''basestation'') now u"

section \<open>The serial log\<close>

definition log_to_serial :: "u32 \<Rightarrow> string \<Rightarrow> string option" where
  "log_to_serial epoch str = c_sprintf ''[%u] %s'' [A_U32 epoch, A_Str str]"

text \<open>The lines logged when the network gives an address; \<open>tca\<close> is \<open>toCharArray\<close>.\<close>

definition got_ip_text :: "(string \<Rightarrow> nat \<Rightarrow> byte list) \<Rightarrow> string \<Rightarrow> string option" where
  "got_ip_text tca ip = map_option ((@) ''IP: '') (c_text (tca ip 31))"

definition wifi_got_ip :: "(string \<Rightarrow> nat \<Rightarrow> byte list) \<Rightarrow> string \<Rightarrow> bool \<Rightarrow> string list option" where
  "wifi_got_ip tca ip mdns_started = map_option
     (\<lambda>line. line # (if \<not> mdns_started then [''Cannot start MDNS server''] else [])) (got_ip_text tca ip)"

section \<open>Lengths\<close>

lemma conv_lengths:
  "length (hex8 w) = 8" "length (hex2 b) = 2" "length (heater_state_str st) \<le> 10" "length (wifi_level rssi) \<le> 9"
  by (simp_all add: hex8_def hex2_def heater_state_str_def wifi_level_def)

lemma dec_int_length: "\<bar>i\<bar> < 2 ^ 31 \<Longrightarrow> length (dec_int i) \<le> 11"
proof -
  assume i: "\<bar>i\<bar> < 2 ^ 31"
  have "length (dec (nat \<bar>i\<bar>)) \<le> Suc 9" using i by (intro dec_length) simp
  then show ?thesis by (cases "i < 0") (simp_all add: dec_int_def)
qed

lemma c_text_length: "c_text bs = Some txt \<Longrightarrow> length txt \<le> length bs"
  by (auto simp: c_text_def c_bytes_def length_takeWhile_le split: if_splits)

text \<open>C27: both index pages are printed with arguments that fit their formats, and fit the buffer of
  2048 bytes with their terminator, for settings of their sizes whose name and base station are
  terminated, as a registration leaves them, and any error queue, as long as the version and
  the uptime together have at most 600 characters.\<close>

theorem index_pages_fit:
  assumes "queue_ok MAX_ERROR_RECORDED elems Q" and "length (elems (c_errors c)) \<le> MAX_ERROR_RECORDED"
    and "settings_ok (c_settings c)" and "0 \<in> set (settings_get_name (c_settings c))"
    and "0 \<in> set (settings_get_basestation (c_settings c))" and "length (cf_mac cf) = 6" and "\<bar>cf_rssi cf\<bar> < 2 ^ 31"
    and "length (cf_version cf) + length (cf_uptime cf) \<le> 600"
  shows "(\<exists>page. uncommissioned_index cf = Some page \<and> length page < 2048)
    \<and> (\<exists>page. commissioned_index Q cf c = Some page \<and> length page < 2048)"
proof -
  obtain m0 m1 m2 m3 m4 m5 where mac: "cf_mac cf = [m0, m1, m2, m3, m4, m5]"
    using assms(6) by (rule mac_cases6)
  have u: "\<exists>page. uncommissioned_index cf = Some page \<and> length page < 2048"
    using sprintf_fits [OF uncommissioned_format, of "[A_U32 (cf_chip_id cf), A_Str (cf_version cf)] @ map A_U8 (cf_mac cf) @ [A_Str (cf_uptime cf)]"] assms(8)
    by (auto simp: uncommissioned_index_def mac conv_lengths)
  obtain name addr where t: "c_text (settings_get_name (c_settings c)) = Some name"
      "c_text (settings_get_basestation (c_settings c)) = Some addr" using assms(4,5) by (simp add: c_text_def)
  have n: "length name \<le> 32" "length addr \<le> 32"
    using assms(3) c_text_length [OF t(1)] c_text_length [OF t(2)]
    by (simp_all add: settings_get_name_def settings_get_basestation_def settings_ok_def split: if_splits)
  have e: "length (build_errors_webpage Q (c_errors c)) < 512"
    using errors_from_length [of Q "c_errors c" 0] assms(1,2)
    by (auto simp: build_errors_webpage_def queue_ok_def MAX_ERROR_RECORDED_def)
  let ?args = "[A_Str name, A_Str name, A_U32 (cf_chip_id cf), A_Str (cf_version cf)] @ map A_U8 (cf_mac cf)
            @ [A_Str (cf_uptime cf), A_Int (cf_rssi cf), A_Str (wifi_level (cf_rssi cf)), A_Str addr,
               A_Str (heater_state_str (c_heater_state c)), A_U32 (c_last_timestamp c), A_U32 (c_fail_since_boot c),
               A_Str (build_errors_webpage Q (c_errors c))]"
  have l: "length ?args = 18" by (simp add: mac)
  obtain out where "c_sprintf commissioned_index_html ?args = Some out"
    and "length out = 671 + 2 * length name + 8 + length (cf_version cf) + 12 + length (cf_uptime cf) + length (dec_int (cf_rssi cf))
      + length (wifi_level (cf_rssi cf)) + length addr + length (heater_state_str (c_heater_state c))
      + length (dec (unat (c_last_timestamp c))) + length (dec (unat (c_fail_since_boot c))) + length (build_errors_webpage Q (c_errors c))"
    using sprintf_fits [OF commissioned_format, of ?args] by (auto simp: mac conv_lengths)
  then show ?thesis
    using u n e assms(8) dec_int_length [OF assms(7)] conv_lengths(4) [of "cf_rssi cf"] conv_lengths(3) [of "c_heater_state c"]
      dec_u32_length [of "c_last_timestamp c"] dec_u32_length [of "c_fail_since_boot c"]
    by (simp add: commissioned_index_def t)
qed

definition sample_facts :: chip_facts where
  "sample_facts = \<lparr>cf_chip_id = 0x00ABCDEF, cf_version = ''abc1234 - today'', cf_mac = [10, 11, 12, 13, 14, 15],
     cf_uptime = ''0 days, 00:12:34'', cf_rssi = -71\<rparr>"

lemma index_pages_fit_witness:
  "\<exists>page. commissioned_index (list_queue MAX_ERROR_RECORDED) sample_facts sample_controller = Some page \<and> length page < 2048"
proof -
  have "c_settings sample_controller = sample_settings"
    by (simp add: sample_controller_def setup_commissioned_def Let_def sample_check)
  moreover have "0 \<in> set (settings_get_name sample_settings)" "0 \<in> set (settings_get_basestation sample_settings)" by code_simp+
  ultimately show ?thesis
    using index_pages_fit [OF list_queue_ok, of sample_controller sample_facts] sample_settings_fields(2) sample_controller_fields(5)
    by (simp add: sample_facts_def)
qed

text \<open>Every line of the log of at most 242 characters fits its buffer of 256 bytes; the address of
  the device fits its buffer of 40.\<close>

theorem serial_lines_fit:
  assumes "length str \<le> 242"
  shows "\<exists>line. log_to_serial epoch str = Some line \<and> length line < 256"
proof -
  have c: "map_option conversions (fmt_pieces ''[%u] %s'') = Some [Conv_U, Conv_S]"
    "map_option literals (fmt_pieces ''[%u] %s'') = Some 3" by code_simp+
  show ?thesis
    using sprintf_fits [OF c, of "[A_U32 epoch, A_Str str]"] assms dec_u32_length [of epoch]
    by (auto simp: log_to_serial_def)
qed

lemma serial_lines_fit_witness: "\<exists>line. log_to_serial 1700000000 ''Factory reset'' = Some line \<and> length line < 256"
  by (rule serial_lines_fit) simp

section \<open>The registration form\<close>

text \<open>C37: the fields of the form are those its handler reads: a submission of the form is answered
  without touching a missing parameter, and registers the device exactly when the values pass
  the check.\<close>

theorem form_submission_safe:
  assumes "set form_fields \<subseteq> dom params" and "\<not> u_joining u"
  shows "\<exists>u' page. register_request params now u = Inr (u', page)
    \<and> (u_joining u' \<longleftrightarrow> check_params (the (params ''name'')) (the (params ''ssid'')) (the (params ''password'')) (the (params ''basestation'')))
    \<and> page = (\<not> u_joining u')"
proof -
  obtain n s p b where "params ''name'' = Some n" "params ''ssid'' = Some s" "params ''password'' = Some p" "params ''basestation'' = Some b"
    using assms(1) by (auto simp: form_facts)
  then show ?thesis using assms(2) by (simp add: register_request_def register_handler_def Let_def)
qed

lemma form_submission_safe_witness:
  "\<exists>u' page. register_request [''name'' \<mapsto> ''DESK'', ''ssid'' \<mapsto> ''home'', ''password'' \<mapsto> [], ''basestation'' \<mapsto> ''base''] 7 setup_uncommissioned = Inr (u', page)
    \<and> u_joining u'"
proof -
  let ?p = "[''name'' \<mapsto> ''DESK'', ''ssid'' \<mapsto> ''home'', ''password'' \<mapsto> [], ''basestation'' \<mapsto> ''base'']"
  have "check_params ''DESK'' ''home'' [] ''base''" by code_simp
  moreover have "set form_fields \<subseteq> dom ?p" "\<not> u_joining setup_uncommissioned" by (auto simp: form_facts setup_uncommissioned_def)
  ultimately show ?thesis using form_submission_safe [of ?p setup_uncommissioned 7] by auto
qed

text \<open>The form admits values the handler refuses: each of its limits is above what the check takes.\<close>

theorem form_limits_too_long:
  "\<forall>n s p b. (length n = form_limits ! 0 \<or> length s = form_limits ! 1 \<or> length p = form_limits ! 2 \<or> length b = form_limits ! 3)
    \<longrightarrow> \<not> check_params n s p b"
  by (auto simp: form_facts check_params_def)

lemma form_limits_too_long_witness: "\<not> check_params (replicate 31 CHR ''a'') ''home'' [] ''base''"
  using form_limits_too_long by (simp add: form_facts)

end
