(* ===== verification/Spec2Isabelle.thy ===== *)
theory Spec2Isabelle
  imports World System Web_Props FW_Sketch FW_Pages
begin

text \<open>
  The program. A base station (a daemon on a small Linux board with a 3G modem, sources under
  src/base_station/src) tells heater controllers (ESP8266 boards, sources under
  src/heater_firmware) in which of four states to put their heater: OFF, DEFROST, ECO or
  COMFORT. The owner configures the station by text messages, which smstools stores as files;
  a controller asks for its state over TCP once a minute, with a 64-byte message, and drives
  two pins. Two more threads of the station accept connections and watch the directory of
  incoming messages; a web server shows a status page.

  How it is modelled. A class or a group of static variables is a record, an enum a datatype,
  an integer a word of its width (the station's counters and thresholds wrap as in C++), a
  function a definition over explicit state. What an operation does to the outside is the list
  of its effects (Effects), in the order of the code; what it reads from the system (clocks,
  results of read, write, poll, ioctl and shell commands) is an argument. An exception, an
  index past the end of a vector, a read past a buffer, a system call that never returns, a
  signal that kills the daemon and a reboot that works are failures (\<open>Inl\<close>). A \<open>std::map\<close> and a \<open>std::set\<close> are lists in iteration order. No definition uses fuel: the
  loops over read and write end because each turn moves at least one byte of 64 or ends the
  loop, so they are functions with a measure; the other loops are structural.

  Theories and sources.
  \<^item> Prelude: characters and the string functions of the C++ library that the code uses.
    Std_Map: ordered maps and sets, with the locale \<open>ordered_assoc\<close> (what a client relies on)
    interpreted on them. Effects: the effects, and the locale \<open>preserving\<close> for loops whose turns
    keep an invariant, interpreted on the loops of \<open>loadState\<close>. Error_Monitor:
    the locales \<open>error_monitor\<close> and \<open>fallback_monitor\<close>, the contract of a check that counts
    failures in a row and acts at a threshold.
  \<^item> Heater (heater.cpp), Timer (timer.cpp), Logger (logger.cpp), SMS_Sender (sms_sender.cpp),
    SMS_Receiver (sms_receiver.cpp), Servers (device_server.cpp, web_server.cpp and the options
    of main.cpp): the classes around the station; Support_Props has their properties.
  \<^item> Helpers, Protocol: the static functions of base_station.cpp and the packed message
    header, which both programs share; the header, the settings and their numbers are
    instances of the locale \<open>prefix_codec\<close>.
  \<^item> Station_State: the fields of \<open>BaseStation\<close>, its constructor, \<open>saveState\<close>, \<open>loadState\<close>
    and the invariant of the configuration (\<open>config_inv\<close>): sorted maps, well-formed names
    and phone numbers.
  \<^item> Commands (\<open>handleSMSCommand\<close>, \<open>parseCommands\<close>), Command_Laws (every command succeeds and
    keeps the invariant), Command_Spec (the abstract view: a function from names to states,
    refined by the commands, with the locale \<open>heater_registry\<close>), Command_Props.
  \<^item> Connections (\<open>handleNewDevice\<close>, \<open>handleConnections\<close>, \<open>parseMessage\<close>, \<open>sendHeaterState\<close>,
    \<open>checkStaleConnections\<close>), Connection_Props (one message), Device_Laws (many messages).
  \<^item> Monitors (\<open>checkWifi\<close>, \<open>checkLostDevices\<close>, \<open>check3G\<close>, \<open>checkSMSDaemon\<close>, \<open>sendBootMsg\<close>,
    \<open>cleanupSMS\<close>), Monitor_Props.
  \<^item> Station: \<open>process\<close> as a sequence of events, the step relation in which the main loop's
    operations and the callbacks of the other threads run in any order, the reachable states,
    their invariant, the lock, and exactly when a pass of the loop returns. Webpage
    (\<open>buildWebpage\<close> and the web server's callback) and Web_Props: what is served.
  \<^item> Daemon: \<open>main\<close>, from the options to the loop, with the turns of the two other threads
    between the passes; when it starts, and exactly when it keeps running. World: the logger
    and the sender of messages that perform the station's effects, up to a reboot; what becomes
    of a text message, from the incoming file to the outgoing one.
  \<^item> FW_Settings (settings.cpp), FW_Uncommissioned (uncommissioned.cpp), FW_Commissioned
    (commissioned.cpp) and FW_Props: the firmware. \<open>loop_uncommissioned\<close> and
    \<open>loop_commissioned\<close> are one turn of the sketch's loop. FW_Sketch (heater_firmware.ino): the
    two modes as one state machine across restarts and power cuts. FW_Formats (webpages.cpp):
    the formats of the pages, the \<open>sprintf\<close> they are printed with, and the form. FW_Pages: the
    handlers of the pages and the serial log.
  \<^item> System: the exchange of a controller with the station over a network, and a fleet of
    controllers whose exchanges are interleaved with the station's other operations and the
    controllers' other turns (\<open>calm\<close> says which): they come to the states the station holds for
    them. This theory: a single message, to the pins.

  Parameters. The EEPROM library, \<open>String::toCharArray\<close> and the queue library (cppQueue) of the
  firmware are not in the repository: they are arguments, and \<open>eeprom_ok\<close> (what was committed
  is read after a restart, what was not is lost), \<open>copies_strings\<close> and \<open>queue_ok\<close> state the
  documented behaviour the code relies on; each has a concrete instance in the witnesses.

  Bounds. The numbers of messages and log records in hypotheses are those of the 64-bit
  counters. The pages fit their buffer for versions and uptimes of 600 characters together.
  The message files of a pass stay as long as no clean-up comes fifteen minutes after them.
  The sixteen log files need that old ones can be deleted.

  Not modelled: races inside one operation (the mutexes are taken to work, so an event is
  atomic; \<open>parseCommands\<close> reads its queue without one); shell commands, files and a modem that
  never answer, and a standard output that fails; \<open>get_mac_address\<close>, whose Linux branch does not
  compile and whose answer is an argument; the 50 milliseconds of \<open>wait_ms\<close> and the delays of
  the firmware, which change no state; in the firmware the calls of libraries whose results
  the code does not read: mDNS, NTP, the start of the access point, the DNS and the web
  servers; the \<open>sprintf\<close> without a buffer, which is undefined; the version macros.
\<close>

section \<open>The firmware's requests and the station's parser\<close>

text \<open>C38: whatever is in its settings, the request of a heater controller is 64 bytes long and is
  parsed by the station without reading past the buffer; the parser returns whenever the
  loop that writes the reply does.\<close>

theorem firmware_requests_are_safe:
  assumes "length mac = 6" and "settings_ok s"
  shows "length (request_message mac counter s) = MESSAGE_SIZE
    \<and> parseMessage env conn (request_message mac counter s) bs \<noteq> Inl Bad_Access
    \<and> (\<forall>n. write_loop (ce_write env (dc_fd conn)) 0 MESSAGE_SIZE 0 = Wrote n
         \<longrightarrow> (\<exists>r. parseMessage env conn (request_message mac counter s) bs = Inr r))"
proof -
  have "\<not> stops_parser w (request_message mac counter s) Bad_Access" for w
    using request_ends [OF assms(1)] by (simp add: stops_parser_def reply_fails_def split: write_result.split)
  then show ?thesis using request_length [OF assms] request_parses [OF assms] by (simp add: parseMessage_stops)
qed

lemma firmware_requests_are_safe_witness:
  "\<exists>r. parseMessage sample_conn_env \<lparr>dc_fd = 9, dc_last_seen = 0\<rparr> (request_message [10, 11, 12, 13, 14, 15] 7 sample_settings) (station_init None) = Inr r"
  using firmware_requests_are_safe [OF _ sample_settings_fields(2), of "[10, 11, 12, 13, 14, 15]" 7 sample_conn_env
      "\<lparr>dc_fd = 9, dc_last_seen = 0\<rparr>" "station_init None"] write_loop_all [OF sample_takes_bytes, of 0 MESSAGE_SIZE 9 0]
  by simp

section \<open>From a text message to the pins of a heater\<close>

text \<open>C1: a text message \<open>HEATER <name> <state>\<close> to an unlocked station reaches the heater: at its
  next request over a working network, the controller commissioned under that name, in any
  case of letters, drives its pins for that state and has no failure counted.\<close>

theorem sms_reaches_heater:
  assumes "config_inv bs" and "\<not> m_locked bs" and "m_commands bs = [(phone, text)]"
    and "stands_for (normalise text) (Set_One (map toupper n) st)" and "parseCommands env bs = Inr (bs1, e1)"
    and "controller_inv elems c" and "is_valid (c_settings c)"
    and "st_name (c_settings c) = map (\<lambda>c. of_nat (of_char c)) n @ 0 # rest" and "length mac = 6"
    and "parseMessage cenv conn (request_message mac (c_msg_counter c) (c_settings c)) bs1 = Inr (r, e2)"
    and "takes_bytes (ce_write cenv (dc_fd conn))" and "case ce_own_mac cenv of Some m \<Rightarrow> length m = 6 | None \<Rightarrow> True"
    and "rq_connect renv 0" and "\<forall>k. 0 < rq_write renv k" and "rq_end renv - rq_start renv < HEATER_STATE_TIMEOUT"
    and "rq_read renv 0 = bytes_to (dc_fd conn) e2"
  shows "c_heater_state (send_request Q renv c) = state_byte st
    \<and> (c_positive (send_request Q renv c), c_negative (send_request Q renv c)) = pins_of (state_byte st)
    \<and> c_fail_count (send_request Q renv c) = 0"
proof -
  have "stored_name (map toupper n)" using assms(4) by simp
  then have cn: "check_heater_name n" by (simp add: stored_name_def)
  have "requested_state bs1 = fold spec_step [Set_One (map toupper n) st] (requested_state bs)"
    using parse_queue_refines [of "m_commands bs" "[Set_One (map toupper n) st]" bs env] assms(1-5)
    by (auto simp: queue_for_def parseCommands_def)
  then have rs: "requested_state bs1 (map toupper n) = st" by simp
  let ?m = "state_message (ce_own_mac cenv) (m_message_counter bs1) st"
  have l: "length ?m = MESSAGE_SIZE" by (rule state_message_reads(1) [OF assms(12)])
  have "bytes_to (dc_fd conn) e2 = ?m"
    using request_bytes [OF assms(9,7,8) cn assms(11,10)] l by (simp add: rs)
  then have rd: "read_reply (rq_read renv) 0 [] = ?m" using read_reply_at_once [of "rq_read renv"] assms(16) l by simp
  have tc: "try_connect (rq_connect renv) 0 CONNECTION_MAX_ATTEMPT"
    using assms(13) by (rule first_attempt)
  have inv: "controller_inv elems (c\<lparr>c_msg_counter := c_msg_counter c + 1\<rparr>)" using assms(6) by (simp add: controller_inv_def)
  have "send_request Q renv c = handle_reply Q (rq_epoch renv) ?m (c\<lparr>c_msg_counter := c_msg_counter c + 1\<rparr>)"
    using tc write_request_all [OF assms(14)] assms(15) l by (simp add: send_request_def rd Let_def not_le)
  then show ?thesis using handle_reply_state [OF inv assms(12)] by simp
qed

lemma sms_reaches_heater_witness:
  "\<exists>bs1 e1 r e2 c'. parseCommands (\<lambda>_. sample_env) (station_init None\<lparr>m_commands := [(''33102030405'', ''Heater Desk eco'')]\<rparr>) = Inr (bs1, e1)
    \<and> parseMessage sample_conn_env \<lparr>dc_fd = 9, dc_last_seen = 0\<rparr>
        (request_message [10, 11, 12, 13, 14, 15] (c_msg_counter sample_controller) (c_settings sample_controller)) bs1 = Inr (r, e2)
    \<and> c' = send_request (list_queue MAX_ERROR_RECORDED)
        (sample_request\<lparr>rq_connect := \<lambda>_. True, rq_read := \<lambda>_. bytes_to 9 e2\<rparr>) sample_controller
    \<and> c_heater_state c' = 2 \<and> (c_positive c', c_negative c') = (True, True)"
proof -
  let ?q = "[(''33102030405'', ''Heater Desk eco'')]"
  let ?bs = "station_init None\<lparr>m_commands := ?q\<rparr>"
  let ?conn = "\<lparr>dc_fd = 9, dc_last_seen = 0\<rparr>"
  let ?msg = "request_message [10, 11, 12, 13, 14, 15] (c_msg_counter sample_controller) (c_settings sample_controller)"
  have n: "normalise ''Heater Desk eco'' = ''HEATER DESK ECO''" "map toupper ''DESK'' = ''DESK''" "stored_name ''DESK''" by code_simp+
  have op: "stands_for (normalise ''Heater Desk eco'') (Set_One (map toupper ''DESK'') HEATER_ECO)"
    unfolding n using n(3) by simp
  have inv: "config_inv ?bs" "\<not> m_locked ?bs" "m_commands ?bs = ?q" by (simp, simp add: station_init_def, simp)
  obtain bs1 e1 where p: "parseCommands (\<lambda>_. sample_env) ?bs = Inr (bs1, e1)"
    using parse_queue_ok [OF inv(1) refl, of "\<lambda>_. sample_env"] by (auto simp: parseCommands_def elim: result_okE)
  have s: "c_settings sample_controller = sample_settings"
    by (simp add: sample_controller_def setup_commissioned_def Let_def sample_check)
  obtain r e2 where m: "parseMessage sample_conn_env ?conn ?msg bs1 = Inr (r, e2)"
    using request_parses [of "[10, 11, 12, 13, 14, 15]" "c_settings sample_controller" sample_conn_env ?conn MESSAGE_SIZE]
      sample_settings_fields(2) write_loop_all [OF sample_takes_bytes, of 0 MESSAGE_SIZE 9 0]
    unfolding s by fastforce
  have ci: "controller_inv (\<lambda>q. q) sample_controller"
    by (simp add: controller_inv_def sample_controller_fields pins_of_def MAX_ERROR_RECORDED_def)
  have nm: "st_name (c_settings sample_controller) = map (\<lambda>c. of_nat (of_char c)) ''DESK'' @ 0 # replicate 27 0"
    unfolding s sample_settings_fields(3) by (simp add: numeral_eq_Suc)
  let ?renv = "sample_request\<lparr>rq_connect := \<lambda>_. True, rq_read := \<lambda>_. bytes_to 9 e2\<rparr>"
  have "c_heater_state (send_request (list_queue MAX_ERROR_RECORDED) ?renv sample_controller) = state_byte HEATER_ECO
    \<and> (c_positive (send_request (list_queue MAX_ERROR_RECORDED) ?renv sample_controller),
       c_negative (send_request (list_queue MAX_ERROR_RECORDED) ?renv sample_controller)) = pins_of (state_byte HEATER_ECO)
    \<and> c_fail_count (send_request (list_queue MAX_ERROR_RECORDED) ?renv sample_controller) = 0"
    by (rule sms_reaches_heater [OF inv op p ci _ nm _ m])
       (simp_all add: s sample_settings_fields(1) sample_conn_env_def sample_request_def HEATER_STATE_TIMEOUT_def takes_bytes_def)
  then have "c_heater_state (send_request (list_queue MAX_ERROR_RECORDED) ?renv sample_controller) = 2"
    "(c_positive (send_request (list_queue MAX_ERROR_RECORDED) ?renv sample_controller),
      c_negative (send_request (list_queue MAX_ERROR_RECORDED) ?renv sample_controller)) = (True, True)"
    by (simp_all add: state_byte_def pins_of_def)
  then show ?thesis using p m by blast
qed

end
